theory Spec2Isabelle
  imports Complex_Main
begin

section \<open>Arithmetic of the ray caster\<close>

text \<open>
  \<^verbatim>\<open>SiddonJacobsRayCastInterpolateImageFunction::Evaluate\<close> computes in C++ \<^verbatim>\<open>float\<close>
  (its local variables) and \<^verbatim>\<open>double\<close> (the voxel spacing, the threshold and every
  sub-expression that mentions one of them). A value is modelled as a real number and
  an arithmetic operation as the exact operation followed by a rounding: \<open>rs\<close> where the
  source computes or stores in \<^verbatim>\<open>float\<close>, \<open>rd\<close> where it computes in \<^verbatim>\<open>double\<close>. The
  arithmetic is a parameter of the model: the two roundings, the rounded values that
  are in the finite range of \<^verbatim>\<open>float\<close> and of \<^verbatim>\<open>double\<close> (\<open>float_ok\<close>, \<open>double_ok\<close>), and the
  integers that are in the range of \<^verbatim>\<open>int\<close> (\<open>int_ok\<close>).
  \<open>exact\<close> rounds nothing and bounds nothing: it is the algorithm over the real numbers
  and the integers. \<open>ieee\<close> rounds to the nearest value with 24 and with 53 significant
  bits, ties to even, as binary32 and binary64 do; its finite ranges end at
  \<^verbatim>\<open>FLT_MAX\<close> and \<^verbatim>\<open>DBL_MAX\<close>, and its \<^verbatim>\<open>int\<close> has 32 bits.
  The coordinate type is the class's default, \<^verbatim>\<open>TCoordRep = float\<close>.

  The model follows a value beyond the finite range where the result of \<^verbatim>\<open>Evaluate\<close>
  depends on it: in the accumulation of line 362 and in the comparisons of lines
  367-373 a value is finite, an infinity or a NaN (type \<open>fval\<close>). A conversion to
  \<^verbatim>\<open>int\<close> of a value outside the range of \<^verbatim>\<open>int\<close> (lines 222-228) is undefined in C++ and
  a fault of the model. The geometric quantities of lines 158-325 (the ray vector, the
  parametric values, the increments) are taken inside the finite range of their types,
  where a rounding is a rounding with an unbounded exponent; underflow is not modelled.
\<close>

record arith =
  rs :: "real \<Rightarrow> real"
  rd :: "real \<Rightarrow> real"
  float_ok :: "real \<Rightarrow> bool"
  double_ok :: "real \<Rightarrow> bool"
  int_ok :: "int \<Rightarrow> bool"

definition exact :: arith where
  "exact = \<lparr>rs = (\<lambda>x. x), rd = (\<lambda>x. x), float_ok = (\<lambda>x. True), double_ok = (\<lambda>x. True),
     int_ok = (\<lambda>n. True)\<rparr>"

text \<open>The number of binary digits of a positive integer.\<close>

function bits :: "int \<Rightarrow> int" where
  "bits n = (if n \<le> 0 then 0 else 1 + bits (n div 2))"
  by pat_completeness auto
termination
  by (relation "measure nat") auto

definition pow2 :: "int \<Rightarrow> real" where
  "pow2 e = (if 0 \<le> e then 2 ^ nat e else 1 / 2 ^ nat (- e))"

text \<open>The exponent \<open>e\<close> with \<open>2 ^ e \<le> a < 2 ^ (e + 1)\<close>, for \<open>a > 0\<close>.\<close>

definition binade :: "real \<Rightarrow> int" where
  "binade a = (if 1 \<le> a then bits \<lfloor>a\<rfloor> - 1 else - bits (\<lceil>1 / a\<rceil> - 1))"

definition half_even :: "real \<Rightarrow> int" where
  "half_even y = (let f = \<lfloor>y\<rfloor>; d = y - of_int f in
     if d < 1 / 2 then f else if 1 / 2 < d then f + 1 else if even f then f else f + 1)"

text \<open>Rounding to \<open>p\<close> significant bits, to nearest, ties to even.\<close>

definition round_to :: "nat \<Rightarrow> real \<Rightarrow> real" where
  "round_to p x = (if x = 0 then 0 else
     let u = pow2 (binade \<bar>x\<bar> - (int p - 1)) in
     sgn x * of_int (half_even (\<bar>x\<bar> / u)) * u)"

text \<open>The largest finite values of binary32 and binary64.\<close>

definition FLT_MAX :: real where
  "FLT_MAX = (2 ^ 24 - 1) * 2 ^ 104"

definition DBL_MAX :: real where
  "DBL_MAX = (2 ^ 53 - 1) * 2 ^ 971"

definition ieee :: arith where
  "ieee = \<lparr>rs = round_to 24, rd = round_to 53,
     float_ok = (\<lambda>x. \<bar>x\<bar> \<le> FLT_MAX), double_ok = (\<lambda>x. \<bar>x\<bar> \<le> DBL_MAX),
     int_ok = (\<lambda>n. - (2 ^ 31) \<le> n \<and> n < 2 ^ 31)\<rparr>"

section \<open>Values beyond the finite range\<close>

text \<open>
  A value of a floating type: a finite value, an infinity or a NaN. A result is rounded
  first; a rounded result outside the finite range of the type is the infinity of its
  sign (IEEE 754, rounding to nearest).
\<close>

datatype fval = Fin real | PInf | NInf | NaN

definition stored :: "(real \<Rightarrow> real) \<Rightarrow> (real \<Rightarrow> bool) \<Rightarrow> real \<Rightarrow> fval" where
  "stored r ok x = (let y = r x in if ok y then Fin y else if 0 < y then PInf else NInf)"

definition to_float :: "arith \<Rightarrow> real \<Rightarrow> fval" where
  "to_float ar x = stored (rs ar) (float_ok ar) x"

definition to_double :: "arith \<Rightarrow> real \<Rightarrow> fval" where
  "to_double ar x = stored (rd ar) (double_ok ar) x"

text \<open>The conversion of a \<^verbatim>\<open>double\<close> to \<^verbatim>\<open>float\<close>.\<close>

fun narrow :: "arith \<Rightarrow> fval \<Rightarrow> fval" where
  "narrow ar (Fin x) = to_float ar x"
| "narrow ar v = v"

fun fneg :: "fval \<Rightarrow> fval" where
  "fneg (Fin x) = Fin (- x)"
| "fneg PInf = NInf"
| "fneg NInf = PInf"
| "fneg NaN = NaN"

text \<open>Addition and multiplication; \<open>st\<close> stores the result of two finite operands.\<close>

fun fadd :: "(real \<Rightarrow> fval) \<Rightarrow> fval \<Rightarrow> fval \<Rightarrow> fval" where
  "fadd st (Fin x) (Fin y) = st (x + y)"
| "fadd st NaN v = NaN"
| "fadd st v NaN = NaN"
| "fadd st PInf NInf = NaN"
| "fadd st NInf PInf = NaN"
| "fadd st PInf v = PInf"
| "fadd st v PInf = PInf"
| "fadd st NInf v = NInf"
| "fadd st v NInf = NInf"

definition fsub :: "(real \<Rightarrow> fval) \<Rightarrow> fval \<Rightarrow> fval \<Rightarrow> fval" where
  "fsub st a b = fadd st a (fneg b)"

fun fmul :: "(real \<Rightarrow> fval) \<Rightarrow> fval \<Rightarrow> fval \<Rightarrow> fval" where
  "fmul st (Fin x) (Fin y) = st (x * y)"
| "fmul st NaN v = NaN"
| "fmul st v NaN = NaN"
| "fmul st (Fin x) v = (if x = 0 then NaN else if 0 < x then v else fneg v)"
| "fmul st v (Fin y) = (if y = 0 then NaN else if 0 < y then v else fneg v)"
| "fmul st PInf v = v"
| "fmul st NInf v = fneg v"

text \<open>The comparison \<^verbatim>\<open><\<close>: false when an operand is a NaN.\<close>

fun fless :: "fval \<Rightarrow> fval \<Rightarrow> bool" where
  "fless (Fin x) (Fin y) = (x < y)"
| "fless NaN v = False"
| "fless v NaN = False"
| "fless v NInf = False"
| "fless PInf v = False"
| "fless NInf v = True"
| "fless v PInf = True"

section \<open>Faults and results\<close>

text \<open>
  A division is a fault when its divisor is zero. The fault names the divisor: a
  component of the ray vector, or a voxel spacing, with the axis 0, 1 or 2. (The C++
  yields an infinity or a NaN when it divides by a zero spacing at lines 218-220, and
  converts it to \<^verbatim>\<open>int\<close> at lines 222-228, which is undefined.) A conversion to
  \<^verbatim>\<open>int\<close> of a value outside the range of \<^verbatim>\<open>int\<close> is a fault that names the axis.
  Dereferencing the null \<^verbatim>\<open>m_Transform\<close> pointer is a fault too.
\<close>

datatype divisor = RayComponent nat | Spacing nat

datatype fault = NullTransform | DivByZero divisor | IntConversion nat

definition fdiv :: "divisor \<Rightarrow> real \<Rightarrow> real \<Rightarrow> fault + real" where
  "fdiv who a b = (if b = 0 then Inl (DivByZero who) else Inr (a / b))"

definition bindE :: "fault + 'a \<Rightarrow> ('a \<Rightarrow> fault + 'b) \<Rightarrow> fault + 'b" where
  "bindE m f = (case m of Inl e \<Rightarrow> Inl e | Inr x \<Rightarrow> f x)"

text \<open>What a call of \<^verbatim>\<open>Evaluate\<close> does: it returns a value, it faults, or its loop
  never ends.\<close>

datatype outcome = Returns fval | Faults fault | Diverges

section \<open>The volume and the output type\<close>

type_synonym vec3 = "real \<times> real \<times> real"

type_synonym index3 = "int \<times> int \<times> int"

text \<open>The input image as \<^verbatim>\<open>Evaluate\<close> reads it: the size of its largest possible region,
  its spacing and its voxels. (The origin is read at line 149 and never used.)\<close>

record volume =
  sizeCT :: "nat \<times> nat \<times> nat"
  ctPixelSpacing :: vec3
  GetPixel :: "index3 \<Rightarrow> real"

text \<open>\<^verbatim>\<open>NumericTraits<OutputType>::NonpositiveMin()\<close> and \<^verbatim>\<open>max()\<close> (lines 120-121).
  \<^verbatim>\<open>OutputType\<close> is the \<^verbatim>\<open>RealType\<close> of the pixel type, a floating type at least as
  wide as \<^verbatim>\<open>float\<close>, so the cast of line 377 changes nothing. For every pixel type of
  ITK but \<^verbatim>\<open>long double\<close> it is \<^verbatim>\<open>double\<close>.\<close>

record out_type =
  minOutputValue :: real
  maxOutputValue :: real

definition double_type :: out_type where
  "double_type = \<lparr>minOutputValue = - DBL_MAX, maxOutputValue = DBL_MAX\<rparr>"

section \<open>Evaluate: the ray and its intersection with the volume (lines 158-325)\<close>

text \<open>Lines 165-202, one axis: the parametric values of the planes \<open>0\<close> and
  \<open>size * spacing\<close>, or the sentinel interval.\<close>

definition axis_range ::
  "arith \<Rightarrow> nat \<Rightarrow> real \<Rightarrow> real \<Rightarrow> nat \<Rightarrow> real \<Rightarrow> fault + real \<times> real" where
  "axis_range ar k s r n sp =
     (if r \<noteq> 0 then
        bindE (fdiv (RayComponent k) (rd ar (0 - s)) r) (\<lambda>q1.
        bindE (fdiv (RayComponent k) (rd ar (rd ar (rd ar (real n) * sp) - s)) r) (\<lambda>qN.
          let alpha1 = rs ar (rd ar q1); alphaN = rs ar (rd ar qN)
          in Inr (min alpha1 alphaN, max alpha1 alphaN)))
      else Inr (- 2, 2))"

text \<open>Lines 213-228, one axis: the first intersection, its continuous index, and the
  index rounded up and down and converted to \<^verbatim>\<open>int\<close>.\<close>

definition first_index ::
  "arith \<Rightarrow> nat \<Rightarrow> real \<Rightarrow> real \<Rightarrow> real \<Rightarrow> real \<Rightarrow> fault + int \<times> int" where
  "first_index ar k s r amin sp =
     (let firstIntersection = rs ar (s + rs ar (amin * r)) in
      bindE (fdiv (Spacing k) firstIntersection sp) (\<lambda>q.
        let firstIntersectionIndex = rs ar (rd ar q)
        in if int_ok ar \<lceil>firstIntersectionIndex\<rceil> \<and> int_ok ar \<lfloor>firstIntersectionIndex\<rfloor>
           then Inr (\<lceil>firstIntersectionIndex\<rceil>, \<lfloor>firstIntersectionIndex\<rfloor>)
           else Inl (IntConversion k)))"

text \<open>Lines 231-262, one axis: the running parametric value at the start.\<close>

definition axis_alpha ::
  "arith \<Rightarrow> nat \<Rightarrow> real \<Rightarrow> real \<Rightarrow> int \<Rightarrow> int \<Rightarrow> real \<Rightarrow> fault + real" where
  "axis_alpha ar k s r up down sp =
     (if r = 0 then Inr 2
      else
        bindE (fdiv (RayComponent k) (rd ar (rd ar (of_int up * sp) - s)) r) (\<lambda>qu.
        bindE (fdiv (RayComponent k) (rd ar (rd ar (of_int down * sp) - s)) r) (\<lambda>qd.
          let alphaIntersectionUp = rs ar (rd ar qu); alphaIntersectionDown = rs ar (rd ar qd)
          in Inr (max alphaIntersectionUp alphaIntersectionDown))))"

text \<open>Lines 265-288, one axis: the increment of the running parametric value.\<close>

definition axis_increment :: "arith \<Rightarrow> nat \<Rightarrow> real \<Rightarrow> real \<Rightarrow> fault + real" where
  "axis_increment ar k r sp =
     (if r \<noteq> 0 then bindE (fdiv (RayComponent k) sp \<bar>r\<bar>) (\<lambda>q. Inr (rs ar (rd ar q)))
      else Inr 999)"

text \<open>Lines 290-314, one axis: the direction of the voxel index.\<close>

definition axis_direction :: "real \<Rightarrow> real \<Rightarrow> int" where
  "axis_direction s d = (if s < d then 1 else - 1)"

text \<open>The constants of the traversal loop and its variables. The voxel index has the
  64-bit \<^verbatim>\<open>IndexValueType\<close>; the model takes it as an integer.\<close>

record traversal =
  alphaMax :: real
  alphaUx :: real
  alphaUy :: real
  alphaUz :: real
  iU :: int
  jU :: int
  kU :: int

record ray_state =
  alphaX :: real
  alphaY :: real
  alphaZ :: real
  alphaCmin :: real
  cIndex :: index3
  d12 :: fval

record ray_setup =
  alphaMin :: real
  loop_consts :: traversal
  loop_start :: ray_state

text \<open>Lines 158-207: the ray vector, the three per-axis ranges, and the parametric
  range \<open>(alphaMin, alphaMax)\<close> of the ray inside the volume.\<close>

definition alpha_range :: "arith \<Rightarrow> volume \<Rightarrow> vec3 \<Rightarrow> vec3 \<Rightarrow> fault + real \<times> real" where
  "alpha_range ar vol SourceWorld drrPixelWorld =
     (case (SourceWorld, drrPixelWorld, sizeCT vol, ctPixelSpacing vol) of
        ((s0, s1, s2), (p0, p1, p2), (n0, n1, n2), (sp0, sp1, sp2)) \<Rightarrow>
     let r0 = rs ar (p0 - s0); r1 = rs ar (p1 - s1); r2 = rs ar (p2 - s2) in
     bindE (axis_range ar 0 s0 r0 n0 sp0) (\<lambda>(alphaXmin, alphaXmax).
     bindE (axis_range ar 1 s1 r1 n1 sp1) (\<lambda>(alphaYmin, alphaYmax).
     bindE (axis_range ar 2 s2 r2 n2 sp2) (\<lambda>(alphaZmin, alphaZmax).
     Inr (max (max alphaXmin alphaYmin) alphaZmin,
          min (min alphaXmax alphaYmax) alphaZmax)))))"

text \<open>Lines 158-325 in the order of the source: the parametric range, the first
  intersection and its index, the running values, the increments, the directions, and
  the initial loop variables.\<close>

definition ray_setup_of :: "arith \<Rightarrow> volume \<Rightarrow> vec3 \<Rightarrow> vec3 \<Rightarrow> fault + ray_setup" where
  "ray_setup_of ar vol SourceWorld drrPixelWorld =
     (case (SourceWorld, drrPixelWorld, ctPixelSpacing vol) of
        ((s0, s1, s2), (p0, p1, p2), (sp0, sp1, sp2)) \<Rightarrow>
     let r0 = rs ar (p0 - s0); r1 = rs ar (p1 - s1); r2 = rs ar (p2 - s2) in
     bindE (alpha_range ar vol SourceWorld drrPixelWorld) (\<lambda>(amin, amax).
     bindE (first_index ar 0 s0 r0 amin sp0) (\<lambda>(up0, down0).
     bindE (first_index ar 1 s1 r1 amin sp1) (\<lambda>(up1, down1).
     bindE (first_index ar 2 s2 r2 amin sp2) (\<lambda>(up2, down2).
     bindE (axis_alpha ar 0 s0 r0 up0 down0 sp0) (\<lambda>aX.
     bindE (axis_alpha ar 1 s1 r1 up1 down1 sp1) (\<lambda>aY.
     bindE (axis_alpha ar 2 s2 r2 up2 down2 sp2) (\<lambda>aZ.
     bindE (axis_increment ar 0 r0 sp0) (\<lambda>uX.
     bindE (axis_increment ar 1 r1 sp1) (\<lambda>uY.
     bindE (axis_increment ar 2 r2 sp2) (\<lambda>uZ.
     Inr \<lparr>alphaMin = amin,
          loop_consts = \<lparr>alphaMax = amax, alphaUx = uX, alphaUy = uY, alphaUz = uZ,
             iU = axis_direction s0 p0, jU = axis_direction s1 p1, kU = axis_direction s2 p2\<rparr>,
          loop_start = \<lparr>alphaX = aX, alphaY = aY, alphaZ = aZ,
             alphaCmin = min (min aX aY) aZ,
             cIndex = (down0, down1, down2), d12 = Fin 0\<rparr>\<rparr>)))))))))))"

section \<open>Evaluate: the traversal loop (lines 327-365)\<close>

text \<open>Lines 354-356: the index is inside the volume.\<close>

definition in_volume :: "volume \<Rightarrow> index3 \<Rightarrow> bool" where
  "in_volume vol c =
     (case (c, sizeCT vol) of ((i, j, k), (n0, n1, n2)) \<Rightarrow>
        0 \<le> i \<and> i < int n0 \<and> 0 \<le> j \<and> j < int n1 \<and> 0 \<le> k \<and> k < int n2)"

text \<open>Line 362: \<^verbatim>\<open>d12 += (alphaCmin - alphaCminPrev) * (value - m_Threshold)\<close>. The
  difference of the two parametric values is a \<^verbatim>\<open>float\<close>, the rest is computed in
  \<^verbatim>\<open>double\<close>, and the sum is converted to \<^verbatim>\<open>float\<close>.\<close>

definition contribution :: "arith \<Rightarrow> real \<Rightarrow> real \<Rightarrow> fval \<Rightarrow> real \<Rightarrow> fval" where
  "contribution ar cur prev v thr =
     fmul (to_double ar) (to_float ar (cur - prev)) (fsub (to_double ar) v (Fin thr))"

text \<open>Lines 354-364: the voxel's contribution, \<open>prev\<close> being \<^verbatim>\<open>alphaCminPrev\<close>. The
  voxel is converted to \<^verbatim>\<open>float\<close> at line 359.\<close>

definition accumulate :: "arith \<Rightarrow> volume \<Rightarrow> real \<Rightarrow> real \<Rightarrow> ray_state \<Rightarrow> ray_state" where
  "accumulate ar vol m_Threshold prev s =
     (if in_volume vol (cIndex s) then
        let v = to_float ar (GetPixel vol (cIndex s)) in
        if fless (Fin m_Threshold) v then
          s\<lparr>d12 := narrow ar (fadd (to_double ar) (d12 s)
                   (contribution ar (alphaCmin s) prev v m_Threshold))\<rparr>
        else s
      else s)"

text \<open>Lines 329-352: one axis is advanced.\<close>

definition advance :: "arith \<Rightarrow> traversal \<Rightarrow> ray_state \<Rightarrow> ray_state" where
  "advance ar c s =
     (case cIndex s of (i, j, k) \<Rightarrow>
        if alphaX s \<le> alphaY s \<and> alphaX s \<le> alphaZ s then
          s\<lparr>alphaCmin := alphaX s, cIndex := (i + iU c, j, k),
            alphaX := rs ar (alphaX s + alphaUx c)\<rparr>
        else if alphaY s \<le> alphaX s \<and> alphaY s \<le> alphaZ s then
          s\<lparr>alphaCmin := alphaY s, cIndex := (i, j + jU c, k),
            alphaY := rs ar (alphaY s + alphaUy c)\<rparr>
        else
          s\<lparr>alphaCmin := alphaZ s, cIndex := (i, j, k + kU c),
            alphaZ := rs ar (alphaZ s + alphaUz c)\<rparr>)"

text \<open>Lines 329-364: the body of the loop.\<close>

definition step :: "arith \<Rightarrow> volume \<Rightarrow> real \<Rightarrow> traversal \<Rightarrow> ray_state \<Rightarrow> ray_state" where
  "step ar vol m_Threshold c s = accumulate ar vol m_Threshold (alphaCmin s) (advance ar c s)"

text \<open>Lines 327-365: the loop. \<open>None\<close> is a loop that never ends.\<close>

partial_function (option) traverse ::
  "arith \<Rightarrow> volume \<Rightarrow> real \<Rightarrow> traversal \<Rightarrow> ray_state \<Rightarrow> ray_state option" where
  "traverse ar vol m_Threshold c s =
     (if alphaCmin s < alphaMax c then traverse ar vol m_Threshold c (step ar vol m_Threshold c s)
      else Some s)"

text \<open>The loop run for at most \<open>n\<close> iterations: the states it goes through.\<close>

fun iterate :: "nat \<Rightarrow> arith \<Rightarrow> volume \<Rightarrow> real \<Rightarrow> traversal \<Rightarrow> ray_state \<Rightarrow> ray_state" where
  "iterate 0 ar vol m_Threshold c s = s"
| "iterate (Suc n) ar vol m_Threshold c s =
     iterate n ar vol m_Threshold c (step ar vol m_Threshold c s)"

section \<open>Evaluate: the result (lines 367-379)\<close>

text \<open>Lines 367-378.\<close>

definition clamp_output :: "out_type \<Rightarrow> fval \<Rightarrow> fval" where
  "clamp_output T d =
     (if fless d (Fin (minOutputValue T)) then Fin (minOutputValue T)
      else if fless (Fin (maxOutputValue T)) d then Fin (maxOutputValue T)
      else d)"

text \<open>Lines 156-365: the ray from \<^verbatim>\<open>SourceWorld\<close> to \<^verbatim>\<open>drrPixelWorld\<close> is cast; the
  result is the value of \<^verbatim>\<open>d12\<close> when the loop ends, \<open>None\<close> when it does not end.\<close>

definition path_sum :: "arith \<Rightarrow> volume \<Rightarrow> real \<Rightarrow> vec3 \<Rightarrow> vec3 \<Rightarrow> fault + fval option" where
  "path_sum ar vol m_Threshold SourceWorld drrPixelWorld =
     bindE (ray_setup_of ar vol SourceWorld drrPixelWorld) (\<lambda>su.
       Inr (map_option d12 (traverse ar vol m_Threshold (loop_consts su) (loop_start su))))"

text \<open>Lines 156-379: the sum is clamped to the output type.\<close>

definition cast_ray ::
  "arith \<Rightarrow> out_type \<Rightarrow> volume \<Rightarrow> real \<Rightarrow> vec3 \<Rightarrow> vec3 \<Rightarrow> outcome" where
  "cast_ray ar T vol m_Threshold SourceWorld drrPixelWorld =
     (case path_sum ar vol m_Threshold SourceWorld drrPixelWorld of
        Inl e \<Rightarrow> Faults e
      | Inr None \<Rightarrow> Diverges
      | Inr (Some d) \<Rightarrow> Returns (clamp_output T d))"

section \<open>The transforms (ITK primitives)\<close>

text \<open>
  The transforms are \<^verbatim>\<open>itk::Euler3DTransform\<close> objects. Their class is part of ITK, not
  of this repository; what follows is the meaning of the member functions the
  interpolator calls, in exact arithmetic: a transform maps \<open>p\<close> to \<open>Matrix * p + Offset\<close>,
  the matrix of an Euler transform is the product of the rotations about the axes, and
  its offset is \<open>Translation + Center - Matrix * Center\<close>. ITK computes the matrices, their
  products and their inverse in the coordinate type, by algorithms that are not part of
  this repository; the model keeps them exact and rounds the points that
  \<^verbatim>\<open>TransformPoint\<close> gives to the interpolator (\<open>float_point\<close>).
\<close>

type_synonym mat3 = "vec3 \<times> vec3 \<times> vec3"

fun vadd :: "vec3 \<Rightarrow> vec3 \<Rightarrow> vec3" where
  "vadd (a, b, c) (x, y, z) = (a + x, b + y, c + z)"

fun vsub :: "vec3 \<Rightarrow> vec3 \<Rightarrow> vec3" where
  "vsub (a, b, c) (x, y, z) = (a - x, b - y, c - z)"

fun vneg :: "vec3 \<Rightarrow> vec3" where
  "vneg (x, y, z) = (- x, - y, - z)"

fun mat_vec :: "mat3 \<Rightarrow> vec3 \<Rightarrow> vec3" where
  "mat_vec ((a, b, c), (d, e, f), (g, h, i)) (x, y, z) =
     (a * x + b * y + c * z, d * x + e * y + f * z, g * x + h * y + i * z)"

fun mat_mul :: "mat3 \<Rightarrow> mat3 \<Rightarrow> mat3" where
  "mat_mul ((a, b, c), (d, e, f), (g, h, i)) ((a', b', c'), (d', e', f'), (g', h', i')) =
     ((a * a' + b * d' + c * g', a * b' + b * e' + c * h', a * c' + b * f' + c * i'),
      (d * a' + e * d' + f * g', d * b' + e * e' + f * h', d * c' + e * f' + f * i'),
      (g * a' + h * d' + i * g', g * b' + h * e' + i * h', g * c' + h * f' + i * i'))"

fun det :: "mat3 \<Rightarrow> real" where
  "det ((a, b, c), (d, e, f), (g, h, i)) =
     a * (e * i - f * h) - b * (d * i - f * g) + c * (d * h - e * g)"

text \<open>The inverse of a matrix that is not singular.\<close>

fun mat_inv :: "mat3 \<Rightarrow> mat3" where
  "mat_inv ((a, b, c), (d, e, f), (g, h, i)) =
     (let D = det ((a, b, c), (d, e, f), (g, h, i)) in
      (((e * i - f * h) / D, (c * h - b * i) / D, (b * f - c * e) / D),
       ((f * g - d * i) / D, (a * i - c * g) / D, (c * d - a * f) / D),
       ((d * h - e * g) / D, (b * g - a * h) / D, (a * e - b * d) / D)))"

definition mat_id :: mat3 where
  "mat_id = ((1, 0, 0), (0, 1, 0), (0, 0, 1))"

definition RotationX :: "real \<Rightarrow> mat3" where
  "RotationX t = ((1, 0, 0), (0, cos t, - sin t), (0, sin t, cos t))"

definition RotationY :: "real \<Rightarrow> mat3" where
  "RotationY t = ((cos t, 0, sin t), (0, 1, 0), (- sin t, 0, cos t))"

definition RotationZ :: "real \<Rightarrow> mat3" where
  "RotationZ t = ((cos t, - sin t, 0), (sin t, cos t, 0), (0, 0, 1))"

text \<open>The state of an Euler transform: its parameters, and its modification time.\<close>

record euler3d =
  AngleX :: real
  AngleY :: real
  AngleZ :: real
  ComputeZYX :: bool
  Translation :: vec3
  Center :: vec3
  pose_MTime :: nat

text \<open>\<^verbatim>\<open>Euler3DTransform::ComputeMatrix\<close> and \<^verbatim>\<open>MatrixOffsetTransformBase::ComputeOffset\<close>.\<close>

definition euler_matrix :: "euler3d \<Rightarrow> mat3" where
  "euler_matrix e =
     (if ComputeZYX e
      then mat_mul (mat_mul (RotationZ (AngleZ e)) (RotationY (AngleY e))) (RotationX (AngleX e))
      else mat_mul (mat_mul (RotationZ (AngleZ e)) (RotationX (AngleX e))) (RotationY (AngleY e)))"

definition euler_offset :: "euler3d \<Rightarrow> vec3" where
  "euler_offset e =
     vsub (vadd (Translation e) (Center e)) (mat_vec (euler_matrix e) (Center e))"

text \<open>A transform as a matrix and an offset: what \<^verbatim>\<open>Compose\<close>, \<^verbatim>\<open>GetInverse\<close> and
  \<^verbatim>\<open>TransformPoint\<close> read and write.\<close>

record affine =
  Matrix :: mat3
  Offset :: vec3

definition affine_of :: "euler3d \<Rightarrow> affine" where
  "affine_of e = \<lparr>Matrix = euler_matrix e, Offset = euler_offset e\<rparr>"

definition SetIdentity :: affine where
  "SetIdentity = \<lparr>Matrix = mat_id, Offset = (0, 0, 0)\<rparr>"

definition TransformPoint :: "affine \<Rightarrow> vec3 \<Rightarrow> vec3" where
  "TransformPoint A p = vadd (mat_vec (Matrix A) p) (Offset A)"

text \<open>A point stored in the coordinate type.\<close>

fun float_point :: "arith \<Rightarrow> vec3 \<Rightarrow> vec3" where
  "float_point ar (x, y, z) = (rs ar x, rs ar y, rs ar z)"

text \<open>\<^verbatim>\<open>self->Compose(other, 0)\<close>: \<open>other\<close> is applied after \<open>self\<close>.\<close>

definition Compose :: "affine \<Rightarrow> affine \<Rightarrow> affine" where
  "Compose self other =
     \<lparr>Matrix = mat_mul (Matrix other) (Matrix self),
      Offset = vadd (mat_vec (Matrix other) (Offset self)) (Offset other)\<rparr>"

text \<open>\<^verbatim>\<open>self->GetInverse(target)\<close>: a singular \<open>self\<close> leaves \<open>target\<close> as it was
  (the call returns false, which the interpolator does not read).\<close>

definition GetInverse :: "affine \<Rightarrow> affine \<Rightarrow> affine" where
  "GetInverse self target =
     (if det (Matrix self) = 0 then target
      else \<lparr>Matrix = mat_inv (Matrix self),
             Offset = vneg (mat_vec (mat_inv (Matrix self)) (Offset self))\<rparr>)"

section \<open>The interpolator and its modification times\<close>

text \<open>
  ITK stamps an object with the value of a global counter whenever \<^verbatim>\<open>Modified()\<close> is
  called on it: the counter is incremented and its new value is the object's
  modification time. The world of the model is the counter, the Euler transforms of the
  caller by address (\<^verbatim>\<open>m_Transform\<close> is a pointer to one of them, or null) and the
  members of the interpolator. The modification times of the interpolator's five own
  transforms are never read and are left out.
\<close>

record world =
  clock :: nat
  poses :: "nat \<Rightarrow> euler3d"
  MTime :: nat
  m_Transform :: "nat option"
  m_InverseTransform :: affine
  m_ComposedTransform :: affine
  m_GantryRotTransform :: euler3d
  m_CamShiftTransform :: euler3d
  m_CamRotTransform :: euler3d
  m_Threshold :: real
  m_FocalPointToIsocenterDistance :: real
  m_ProjectionAngle :: real
  m_SourcePoint :: vec3
  m_SourceWorld :: vec3

text \<open>\<^verbatim>\<open>this->Modified()\<close>.\<close>

definition Modified :: "world \<Rightarrow> world" where
  "Modified w = w\<lparr>clock := clock w + 1, MTime := clock w + 1\<rparr>"

text \<open>The caller changes the transform at address \<open>a\<close> (\<^verbatim>\<open>SetParameters\<close>,
  \<^verbatim>\<open>SetTranslation\<close>, \<^verbatim>\<open>SetCenter\<close>, ...), which stamps that transform.\<close>

definition update_pose :: "nat \<Rightarrow> (euler3d \<Rightarrow> euler3d) \<Rightarrow> world \<Rightarrow> world" where
  "update_pose a f w =
     w\<lparr>clock := clock w + 1,
       poses := (poses w)(a := (f (poses w a))\<lparr>pose_MTime := clock w + 1\<rparr>)\<rparr>"

text \<open>An identity Euler transform, as \<^verbatim>\<open>New()\<close> and \<^verbatim>\<open>SetIdentity()\<close> leave it,
  with \<^verbatim>\<open>SetComputeZYX(true)\<close>.\<close>

definition identity_zyx :: euler3d where
  "identity_zyx = \<lparr>AngleX = 0, AngleY = 0, AngleZ = 0, ComputeZYX = True,
     Translation = (0, 0, 0), Center = (0, 0, 0), pose_MTime = 0\<rparr>"

text \<open>The constructor (lines 47-79), in a world whose counter is \<open>c\<close> and whose
  transforms are \<open>ps\<close>. The angle \<^verbatim>\<open>dtr * (-90.0)\<close> is \<open>- pi / 2\<close>, which the source
  approximates in \<^verbatim>\<open>float\<close>: the transforms of the model are those of the exact
  geometry.\<close>

definition New :: "nat \<Rightarrow> (nat \<Rightarrow> euler3d) \<Rightarrow> world" where
  "New c ps =
     \<lparr>clock = c + 1, poses = ps, MTime = c + 1,
      m_Transform = None,
      m_InverseTransform = SetIdentity,
      m_ComposedTransform = SetIdentity,
      m_GantryRotTransform = identity_zyx,
      m_CamShiftTransform = identity_zyx,
      m_CamRotTransform = identity_zyx\<lparr>AngleX := - pi / 2\<rparr>,
      m_Threshold = 0,
      m_FocalPointToIsocenterDistance = 1000,
      m_ProjectionAngle = 0,
      m_SourcePoint = (0, 0, 0),
      m_SourceWorld = (0, 0, 0)\<rparr>"

text \<open>The setters of the header (lines 151-166): \<^verbatim>\<open>itkSetObjectMacro\<close> and
  \<^verbatim>\<open>itkSetMacro\<close> store a value that differs from the member and call
  \<^verbatim>\<open>this->Modified()\<close>.\<close>

definition SetTransform :: "nat option \<Rightarrow> world \<Rightarrow> world" where
  "SetTransform a w = (if m_Transform w \<noteq> a then Modified (w\<lparr>m_Transform := a\<rparr>) else w)"

definition SetFocalPointToIsocenterDistance :: "real \<Rightarrow> world \<Rightarrow> world" where
  "SetFocalPointToIsocenterDistance d w =
     (if m_FocalPointToIsocenterDistance w \<noteq> d
      then Modified (w\<lparr>m_FocalPointToIsocenterDistance := d\<rparr>) else w)"

definition SetProjectionAngle :: "real \<Rightarrow> world \<Rightarrow> world" where
  "SetProjectionAngle t w =
     (if m_ProjectionAngle w \<noteq> t then Modified (w\<lparr>m_ProjectionAngle := t\<rparr>) else w)"

definition SetThreshold :: "real \<Rightarrow> world \<Rightarrow> world" where
  "SetThreshold t w = (if m_Threshold w \<noteq> t then Modified (w\<lparr>m_Threshold := t\<rparr>) else w)"

text \<open>\<^verbatim>\<open>ComputeInverseTransform\<close> (lines 395-429) for the transform at address \<open>a\<close>.\<close>

definition rebuild :: "nat \<Rightarrow> world \<Rightarrow> world" where
  "rebuild a w =
     (let pose = poses w a;
          composed1 = Compose SetIdentity (affine_of pose);
          isocenter = Center pose;
          gantry = (m_GantryRotTransform w)
            \<lparr>AngleX := 0, AngleY := 0, AngleZ := - m_ProjectionAngle w, Center := isocenter\<rparr>;
          composed2 = Compose composed1 (affine_of gantry);
          focalpointtranslation =
            (case isocenter of (c0, c1, c2) \<Rightarrow>
               (- c0, m_FocalPointToIsocenterDistance w - c1, - c2));
          camshift = (m_CamShiftTransform w)\<lparr>Translation := focalpointtranslation\<rparr>;
          composed3 = Compose composed2 (affine_of camshift);
          composed4 = Compose composed3 (affine_of (m_CamRotTransform w))
      in Modified (w\<lparr>m_ComposedTransform := composed4,
                      m_GantryRotTransform := gantry,
                      m_CamShiftTransform := camshift,
                      m_InverseTransform := GetInverse composed4 (m_InverseTransform w)\<rparr>))"

definition ComputeInverseTransform :: "world \<Rightarrow> fault + world" where
  "ComputeInverseTransform w =
     (case m_Transform w of None \<Rightarrow> Inl NullTransform | Some a \<Rightarrow> Inr (rebuild a w))"

text \<open>The source in world coordinates (lines 138 and 437).\<close>

definition SourceWorld_of :: "arith \<Rightarrow> world \<Rightarrow> vec3" where
  "SourceWorld_of ar w = float_point ar (TransformPoint (m_InverseTransform w) (m_SourcePoint w))"

text \<open>\<^verbatim>\<open>Initialize\<close> (lines 432-438).\<close>

definition Initialize :: "arith \<Rightarrow> world \<Rightarrow> fault + world" where
  "Initialize ar w =
     bindE (ComputeInverseTransform w) (\<lambda>w'. Inr (w'\<lparr>m_SourceWorld := SourceWorld_of ar w'\<rparr>))"

text \<open>Lines 123-136 of \<^verbatim>\<open>Evaluate\<close>: the inverse transform is computed again when the
  interpolator's modification time is before that of the transform it points to.\<close>

definition stale :: "nat \<Rightarrow> world \<Rightarrow> bool" where
  "stale a w = (MTime w < pose_MTime (poses w a))"

definition refresh :: "nat \<Rightarrow> world \<Rightarrow> world" where
  "refresh a w = (if stale a w then rebuild a w else w)"

text \<open>\<^verbatim>\<open>Evaluate\<close> (lines 93-380): the result, and the world it leaves. The source is
  computed for each ray (line 138); the member \<^verbatim>\<open>m_SourceWorld\<close> is not read.\<close>

definition Evaluate :: "arith \<Rightarrow> out_type \<Rightarrow> volume \<Rightarrow> vec3 \<Rightarrow> world \<Rightarrow> outcome \<times> world" where
  "Evaluate ar T vol point w =
     (case m_Transform w of
        None \<Rightarrow> (Faults NullTransform, w)
      | Some a \<Rightarrow>
          (let w' = refresh a w;
               SourceWorld = SourceWorld_of ar w';
               drrPixelWorld = float_point ar (TransformPoint (m_InverseTransform w') point)
           in (cast_ray ar T vol (m_Threshold w') SourceWorld drrPixelWorld, w')))"

section \<open>Notions of the proofs\<close>

text \<open>
  The parametric value at which the ray meets the plane at coordinate \<open>c\<close> of one
  axis, \<open>s\<close> being the source's coordinate and \<open>r\<close> the ray's
  component: the quotient of lines 167-168, 180-181, 193-194 and 231-262, rounded as the
  source rounds it.
\<close>

definition plane_alpha :: "arith \<Rightarrow> real \<Rightarrow> real \<Rightarrow> real \<Rightarrow> real" where
  "plane_alpha ar s r c = rs ar (rd ar (rd ar (c - s) / r))"

text \<open>
  The two planes that bound the volume on one axis, in the order of their parametric values;
  \<open>(- 2, 2)\<close> for a ray parallel to them. This is \<open>axis_range\<close>
  without its fault marks.
\<close>

definition slab_interval :: "arith \<Rightarrow> real \<Rightarrow> real \<Rightarrow> real \<Rightarrow> real \<times> real" where
  "slab_interval ar s r c =
     (if r = 0 then (- 2, 2)
      else (min (plane_alpha ar s r 0) (plane_alpha ar s r c),
            max (plane_alpha ar s r 0) (plane_alpha ar s r c)))"

text \<open>
  The coordinate of the last plane of an axis: \<^verbatim>\<open>sizeCT[k] * ctPixelSpacing[k]\<close>.
\<close>

definition extent :: "arith \<Rightarrow> nat \<Rightarrow> real \<Rightarrow> real" where
  "extent ar n sp = rd ar (rd ar (real n) * sp)"

text \<open>\<open>axis_alpha\<close> without its fault marks.\<close>

definition start_alpha :: "arith \<Rightarrow> real \<Rightarrow> real \<Rightarrow> int \<Rightarrow> int \<Rightarrow> real \<Rightarrow> real" where
  "start_alpha ar s r up down sp =
     (if r = 0 then 2
      else max (plane_alpha ar s r (rd ar (of_int up * sp)))
               (plane_alpha ar s r (rd ar (of_int down * sp))))"

text \<open>\<open>axis_increment\<close> without its fault marks.\<close>

definition increment :: "arith \<Rightarrow> real \<Rightarrow> real \<Rightarrow> real" where
  "increment ar r sp = (if r = 0 then 999 else rs ar (rd ar (sp / \<bar>r\<bar>)))"

text \<open>The continuous index of the first intersection on one axis (lines 213-218).\<close>

definition cont_index :: "arith \<Rightarrow> real \<Rightarrow> real \<Rightarrow> real \<Rightarrow> real \<Rightarrow> real" where
  "cont_index ar s r amin sp = rs ar (rd ar (rs ar (s + rs ar (amin * r)) / sp))"

text \<open>The two conversions to \<^verbatim>\<open>int\<close> of lines 222-228, on one axis, are defined.\<close>

definition index_ok :: "arith \<Rightarrow> real \<Rightarrow> real \<Rightarrow> real \<Rightarrow> real \<Rightarrow> bool" where
  "index_ok ar s r amin sp \<longleftrightarrow>
     int_ok ar \<lceil>cont_index ar s r amin sp\<rceil> \<and> int_ok ar \<lfloor>cont_index ar s r amin sp\<rfloor>"

text \<open>The smallest of the three running parametric values.\<close>

definition min3 :: "ray_state \<Rightarrow> real" where
  "min3 s = min (min (alphaX s) (alphaY s)) (alphaZ s)"

text \<open>
  A bound on the number of iterations that are left when each of them raises the smallest
  running value by \<open>\<delta>\<close> at least.
\<close>

definition need :: "real \<Rightarrow> real \<Rightarrow> real \<Rightarrow> nat" where
  "need \<delta> A a = nat \<lceil>(A - a) / \<delta>\<rceil>"

text \<open>A row of sixteen voxels of side 1, each of value 100.\<close>

definition vol_stall :: volume where
  "vol_stall = \<lparr>sizeCT = (16, 1, 1), ctPixelSpacing = (1, 1, 1), GetPixel = (\<lambda>c. 100)\<rparr>"

text \<open>
  The states of the loop for the ray from \<open>(- 2 ^ 27, 1 / 2, 1 / 2)\<close> to \<open>(2 ^ 27, 1 / 2, 1 / 2)\<close> through that row, in binary32: adding the increment to
  \<^verbatim>\<open>alphaX\<close> changes nothing.
\<close>

definition stalled :: "ray_state \<Rightarrow> bool" where
  "stalled s \<longleftrightarrow> (\<exists>c d. s = \<lparr>alphaX = 1 / 2, alphaY = 2, alphaZ = 2, alphaCmin = 1 / 2,
                              cIndex = c, d12 = d\<rparr>)"

text \<open>The constants of the loop for that ray.\<close>

definition consts_stall :: traversal where
  "consts_stall = \<lparr>alphaMax = 8388609 / 16777216, alphaUx = 1 / 268435456,
             alphaUy = 999, alphaUz = 999, iU = 1, jU = - 1, kU = - 1\<rparr>"

text \<open>
  What the three internal transforms do to a point once
  \<^verbatim>\<open>ComputeInverseTransform\<close> has set their parameters: a rotation
  about the isocenter by the negated projection angle, a translation that takes the isocenter
  to the source, and a rotation by \<open>- pi / 2\<close> about the x axis.
\<close>

definition gantry_rotation :: "real \<Rightarrow> vec3 \<Rightarrow> vec3 \<Rightarrow> vec3" where
  "gantry_rotation t c q = vadd (mat_vec (RotationZ (- t)) (vsub q c)) c"

definition source_shift :: "real \<Rightarrow> vec3 \<Rightarrow> vec3 \<Rightarrow> vec3" where
  "source_shift D c q = (case c of (c0, c1, c2) \<Rightarrow> vadd q (- c0, D - c1, - c2))"

definition camera_rotation :: "vec3 \<Rightarrow> vec3" where
  "camera_rotation q = mat_vec (RotationX (- pi / 2)) q"

text \<open>
  The parameters of the internal transforms that the constructor sets and that nothing changes
  afterwards.
\<close>

definition internals_ok :: "world \<Rightarrow> bool" where
  "internals_ok w \<longleftrightarrow>
     Translation (m_GantryRotTransform w) = (0, 0, 0) \<and>
     AngleX (m_CamShiftTransform w) = 0 \<and> AngleY (m_CamShiftTransform w) = 0 \<and>
     AngleZ (m_CamShiftTransform w) = 0 \<and> Center (m_CamShiftTransform w) = (0, 0, 0) \<and>
     AngleX (m_CamRotTransform w) = - pi / 2 \<and> AngleY (m_CamRotTransform w) = 0 \<and>
     AngleZ (m_CamRotTransform w) = 0 \<and> Translation (m_CamRotTransform w) = (0, 0, 0) \<and>
     Center (m_CamRotTransform w) = (0, 0, 0)"

text \<open>A pose with no rotation, no translation and its centre at the origin.\<close>

definition identity_pose :: "euler3d \<Rightarrow> bool" where
  "identity_pose e \<longleftrightarrow> AngleX e = 0 \<and> AngleY e = 0 \<and> AngleZ e = 0 \<and>
     Translation e = (0, 0, 0) \<and> Center e = (0, 0, 0)"

text \<open>No modification time is ahead of the counter.\<close>

definition mtimes_ok :: "world \<Rightarrow> bool" where
  "mtimes_ok w \<longleftrightarrow> MTime w \<le> clock w \<and> (\<forall>a. pose_MTime (poses w a) \<le> clock w)"

text \<open>
  A world without its counter and the interpolator's modification time: all that the geometry
  of a ray depends on.
\<close>

definition geometry :: "world \<Rightarrow> world" where
  "geometry w = w\<lparr>clock := 0, MTime := 0\<rparr>"

text \<open>
  \<^verbatim>\<open>ComputeInverseTransform\<close> would change nothing but time stamps.
\<close>

definition settled :: "nat \<Rightarrow> world \<Rightarrow> bool" where
  "settled a w \<longleftrightarrow> geometry (rebuild a w) = geometry w"



text \<open>
  The set-up of the ray that a call of \<^verbatim>\<open>Evaluate\<close> at
  \<open>point\<close> computes before its loop.
\<close>

definition Evaluate_setup :: "arith \<Rightarrow> volume \<Rightarrow> vec3 \<Rightarrow> world \<Rightarrow> fault + ray_setup" where
  "Evaluate_setup ar vol point w =
     (case m_Transform w of
        None \<Rightarrow> Inl NullTransform
      | Some a \<Rightarrow>
          ray_setup_of ar vol (SourceWorld_of ar (refresh a w))
            (float_point ar (TransformPoint (m_InverseTransform (refresh a w)) point)))"

text \<open>
  Four worlds of one interpolator and one identity pose at address 0: after the constructor,
  after \<^verbatim>\<open>SetTransform\<close>, after \<^verbatim>\<open>Initialize\<close>,
  and after a later \<^verbatim>\<open>SetFocalPointToIsocenterDistance(500)\<close>.
\<close>

definition world_new :: world where
  "world_new = New 0 (\<lambda>a. identity_zyx)"

definition world_connected :: world where
  "world_connected = SetTransform (Some 0) world_new"

definition world_init :: world where
  "world_init =
     (rebuild 0 world_connected)\<lparr>m_SourceWorld := SourceWorld_of exact (rebuild 0 world_connected)\<rparr>"


text \<open>A column of four voxels of side 1 along the y axis, each of value 100.\<close>

definition vol_slab :: volume where
  "vol_slab = \<lparr>sizeCT = (1, 4, 1), ctPixelSpacing = (1, 1, 1), GetPixel = (\<lambda>c. 100)\<rparr>"

text \<open>
  The constants and the states of the loop for the ray from \<open>(0, - 1000, 0)\<close> to
  \<open>(0, 1000, 0)\<close> through that column, in exact arithmetic.
\<close>

definition consts_slab :: traversal where
  "consts_slab = \<lparr>alphaMax = 251 / 500, alphaUx = 999, alphaUy = 1 / 2000, alphaUz = 999,
     iU = - 1, jU = 1, kU = - 1\<rparr>"

definition slab_state :: "real \<Rightarrow> real \<Rightarrow> int \<Rightarrow> real \<Rightarrow> ray_state" where
  "slab_state aY aC j d =
     \<lparr>alphaX = 2, alphaY = aY, alphaZ = 2, alphaCmin = aC, cIndex = (0, j, 0), d12 = Fin d\<rparr>"

text \<open>
  The world after \<^verbatim>\<open>Initialize\<close> when the pose is a translation by \<open>t\<close>, the
  configuration being the default one.
\<close>

definition world_init_at :: "arith \<Rightarrow> vec3 \<Rightarrow> world" where
  "world_init_at ar t =
     (let w = update_pose 0 (\<lambda>e. e\<lparr>Translation := t\<rparr>) world_connected
      in (rebuild 0 w)\<lparr>m_SourceWorld := SourceWorld_of ar (rebuild 0 w)\<rparr>)"

text \<open>
  The branch of lines 329-352 that an iteration takes: x when
  \<^verbatim>\<open>alphaX\<close> is the smallest running value, else y when
  \<^verbatim>\<open>alphaY\<close> is, else z.
\<close>

datatype axis = AxisX | AxisY | AxisZ

definition smallest_axis :: "ray_state \<Rightarrow> axis" where
  "smallest_axis s =
     (if alphaX s = min3 s then AxisX else if alphaY s = min3 s then AxisY else AxisZ)"

text \<open>
  The accumulation of line 362 stays in the finite range of \<^verbatim>\<open>float\<close> and \<^verbatim>\<open>double\<close>: \<open>d\<close> is
  the value of \<^verbatim>\<open>d12\<close>, \<open>a\<close> the difference of the two parametric values, \<open>v\<close> the voxel and
  \<open>thr\<close> the threshold.
\<close>

definition finite_sum :: "arith \<Rightarrow> real \<Rightarrow> real \<Rightarrow> real \<Rightarrow> real \<Rightarrow> bool" where
  "finite_sum ar d a v thr \<longleftrightarrow>
     float_ok ar (rs ar v) \<and> float_ok ar (rs ar a) \<and>
     double_ok ar (rd ar (rs ar v - thr)) \<and>
     double_ok ar (rd ar (rs ar a * rd ar (rs ar v - thr))) \<and>
     double_ok ar (rd ar (d + rd ar (rs ar a * rd ar (rs ar v - thr)))) \<and>
     float_ok ar (rs ar (rd ar (d + rd ar (rs ar a * rd ar (rs ar v - thr)))))"

text \<open>A value that a \<^verbatim>\<open>float\<close> variable can hold.\<close>

fun float_val :: "arith \<Rightarrow> fval \<Rightarrow> bool" where
  "float_val ar (Fin x) = float_ok ar x"
| "float_val ar v = True"

text \<open>A column of six voxels of side 1 along the y axis, each of value \<open>3 * 2 ^ 126\<close>,
  three quarters of \<open>2 ^ 128\<close>.\<close>

definition vol_bright :: volume where
  "vol_bright = \<lparr>sizeCT = (1, 6, 1), ctPixelSpacing = (1, 1, 1), GetPixel = (\<lambda>c. 3 * 2 ^ 126)\<rparr>"

text \<open>The constants and the states of the loop for the ray from \<open>(1 / 2, - 1 / 2, 1 / 2)\<close>
  to \<open>(1 / 2, 3 / 2, 1 / 2)\<close> through that column, in binary32 and binary64.\<close>

definition consts_bright :: traversal where
  "consts_bright = \<lparr>alphaMax = 2, alphaUx = 999, alphaUy = 1 / 2, alphaUz = 999,
     iU = - 1, jU = 1, kU = - 1\<rparr>"

definition bright_state :: "real \<Rightarrow> real \<Rightarrow> real \<Rightarrow> int \<Rightarrow> int \<Rightarrow> fval \<Rightarrow> ray_state" where
  "bright_state aX aY aC i j d =
     \<lparr>alphaX = aX, alphaY = aY, alphaZ = 2, alphaCmin = aC, cIndex = (i, j, 0), d12 = d\<rparr>"

text \<open>Half the value of such a voxel.\<close>

definition q125 :: real where
  "q125 = 3 * 2 ^ 125"


text \<open>
  The constants and the states of the loop for the ray from \<open>(- 2905, 4119, 2905)\<close> to
  \<open>(843, - 1194, - 843)\<close> through that block, in binary32 and binary64. The ray touches the
  block at one point of its edge \<open>x = 0\<close>, \<open>z = 0\<close>.
\<close>

definition consts_edge :: traversal where
  "consts_edge = \<lparr>alphaMax = 13003685 / 16777216, alphaUx = 4583743 / 17179869184,
     alphaUy = 6467107 / 34359738368, alphaUz = 4583743 / 17179869184,
     iU = 1, jU = - 1, kU = - 1\<rparr>"

definition edge_state :: "real \<Rightarrow> real \<Rightarrow> real \<Rightarrow> int \<Rightarrow> int \<Rightarrow> real \<Rightarrow> ray_state" where
  "edge_state aX aY aC i j d =
     \<lparr>alphaX = aX, alphaY = aY, alphaZ = 13003685 / 16777216, alphaCmin = aC,
      cIndex = (i, j, 0), d12 = Fin d\<rparr>"



section \<open>Termination of the loop\<close>

text \<open>
  The loop started in \<open>s\<close> passes its guard \<open>n + 1\<close> times at least: it executes an iteration
  from each of the states \<open>iterate 0\<close>, ..., \<open>iterate n\<close>.
\<close>

definition executed :: "nat \<Rightarrow> arith \<Rightarrow> volume \<Rightarrow> real \<Rightarrow> traversal \<Rightarrow> ray_state \<Rightarrow> bool" where
  "executed n ar vol thr c s \<longleftrightarrow>
     (\<forall>k\<le>n. alphaCmin (iterate k ar vol thr c s) < alphaMax c)"

text \<open>The iteration from the state \<open>s\<close> raises the running value that it advances by
  \<open>\<delta>\<close> at least.\<close>

definition progress :: "arith \<Rightarrow> traversal \<Rightarrow> real \<Rightarrow> ray_state \<Rightarrow> bool" where
  "progress ar c \<delta> s \<longleftrightarrow>
     (case smallest_axis s of
        AxisX \<Rightarrow> alphaX s + \<delta> \<le> rs ar (alphaX s + alphaUx c)
      | AxisY \<Rightarrow> alphaY s + \<delta> \<le> rs ar (alphaY s + alphaUy c)
      | AxisZ \<Rightarrow> alphaZ s + \<delta> \<le> rs ar (alphaZ s + alphaUz c))"

text \<open>The constants of the loop for the ray from \<open>(0, - 1000, 0)\<close> to \<open>(0, 1000, 0)\<close> through
  the column of four voxels, in binary32 and binary64.\<close>

definition consts_slab32 :: traversal where
  "consts_slab32 = \<lparr>alphaMax = 4211081 / 8388608, alphaUx = 999,
     alphaUy = 8589935 / 17179869184, alphaUz = 999, iU = - 1, jU = 1, kU = - 1\<rparr>"

section \<open>The rounding is a rounding to nearest\<close>

declare bits.simps [simp del]

lemma pow2_pos [simp]: "0 < pow2 e"
  by (simp add: pow2_def)

lemma pow2_Suc: "pow2 (e + 1) = 2 * pow2 e"
proof (cases "0 \<le> e")
  case True
  then show ?thesis by (simp add: pow2_def nat_add_distrib)
next
  case False
  then have "nat (- e) = Suc (nat (- (e + 1)))" by simp
  then show ?thesis using False by (simp add: pow2_def)
qed

lemma pow2_nat: "0 \<le> e \<Longrightarrow> pow2 e = of_int (2 ^ nat e)"
  by (simp add: pow2_def)

lemma pow2_neg: "pow2 (- e) = 1 / pow2 e"
  by (cases "e = 0") (auto simp: pow2_def)

lemma bits_pos: "0 < n \<Longrightarrow> 0 < bits n"
proof -
  assume "0 < n"
  moreover have "0 \<le> bits m" for m
    by (induction m rule: bits.induct) (subst bits.simps, simp)
  ultimately show ?thesis
    by (subst bits.simps) (simp add: add_pos_nonneg)
qed

lemma bits_bounds: "0 < n \<Longrightarrow> pow2 (bits n - 1) \<le> of_int n \<and> of_int n < pow2 (bits n)"
proof (induction n rule: bits.induct)
  case (1 n)
  have b0: "bits 0 = 0" by (subst bits.simps) simp
  show ?case
  proof (cases "n = 1")
    case True
    have "bits 1 = 1" by (subst bits.simps) (simp add: b0)
    then show ?thesis using True by (simp add: pow2_def)
  next
    case False
    define h where "h = n div 2"
    define K :: int where "K = 2 ^ nat (bits h)"
    have n2: "2 \<le> n" using False \<open>0 < n\<close> by linarith
    have split: "n = 2 * h + n mod 2" by (simp add: h_def)
    have md: "0 \<le> n mod 2" "n mod 2 < 2" by simp_all
    have pos: "0 < h" using n2 split md by linarith
    have nle: "\<not> n \<le> 0" using n2 by linarith
    have b: "bits n = bits h + 1" using nle by (subst bits.simps) (simp add: h_def)
    have ih: "pow2 (bits h - 1) \<le> of_int h \<and> of_int h < pow2 (bits h)"
      using "1.IH" [OF nle] pos by (simp only: h_def)
    have bp: "0 \<le> bits h" using bits_pos [OF pos] by linarith
    have pK: "pow2 (bits h) = of_int K" using pow2_nat [OF bp] by (simp only: K_def)
    have "real_of_int h < of_int K" using ih pK by simp
    then have "h < K" by (simp only: of_int_less_iff)
    then have "n < 2 * K" using split md by linarith
    then have "real_of_int n < of_int (2 * K)" by (simp only: of_int_less_iff)
    then have "real_of_int n < 2 * pow2 (bits h)" by (simp add: pK)
    moreover have "pow2 (bits n) = 2 * pow2 (bits h)" unfolding b by (rule pow2_Suc)
    ultimately have up: "of_int n < pow2 (bits n)" by linarith
    have "2 * h \<le> n" using split md by linarith
    then have "real_of_int (2 * h) \<le> of_int n" by (simp only: of_int_le_iff)
    then have low: "2 * real_of_int h \<le> of_int n" by simp
    have "pow2 (bits h - 1 + 1) = 2 * pow2 (bits h - 1)" by (rule pow2_Suc)
    moreover have "bits n - 1 = bits h - 1 + 1" unfolding b by linarith
    ultimately have "pow2 (bits n - 1) = 2 * pow2 (bits h - 1)" by (simp only:)
    then have "pow2 (bits n - 1) \<le> of_int n" using ih low by linarith
    with up show ?thesis by simp
  qed
qed

lemma binade_bounds:
  assumes "0 < a"
  shows "pow2 (binade a) \<le> a \<and> a < pow2 (binade a + 1)"
proof (cases "1 \<le> a")
  case True
  then have fl: "0 < \<lfloor>a\<rfloor>" by simp
  have e: "binade a = bits \<lfloor>a\<rfloor> - 1" using True by (simp add: binade_def)
  from bits_bounds [OF fl]
  have lo: "pow2 (bits \<lfloor>a\<rfloor> - 1) \<le> of_int \<lfloor>a\<rfloor>" and hi: "of_int \<lfloor>a\<rfloor> < pow2 (bits \<lfloor>a\<rfloor>)"
    by auto
  have bp: "0 \<le> bits \<lfloor>a\<rfloor>" using bits_pos [OF fl] by simp
  have "real_of_int \<lfloor>a\<rfloor> < of_int (2 ^ nat (bits \<lfloor>a\<rfloor>))" using hi pow2_nat [OF bp] by simp
  then have "\<lfloor>a\<rfloor> < 2 ^ nat (bits \<lfloor>a\<rfloor>)" by (simp only: of_int_less_iff)
  then have "\<lfloor>a\<rfloor> + 1 \<le> 2 ^ nat (bits \<lfloor>a\<rfloor>)" by simp
  then have "real_of_int (\<lfloor>a\<rfloor> + 1) \<le> of_int (2 ^ nat (bits \<lfloor>a\<rfloor>))" by (simp only: of_int_le_iff)
  then have up: "of_int \<lfloor>a\<rfloor> + 1 \<le> pow2 (bits \<lfloor>a\<rfloor>)" using pow2_nat [OF bp] by simp
  have fl1: "a < of_int \<lfloor>a\<rfloor> + 1" by linarith
  have fl2: "of_int \<lfloor>a\<rfloor> \<le> a" by simp
  have "pow2 (binade a) \<le> a" unfolding e using lo fl2 by linarith
  moreover have "a < pow2 (bits \<lfloor>a\<rfloor>)" using up fl1 by linarith
  then have "a < pow2 (binade a + 1)" unfolding e by simp
  ultimately show ?thesis by simp
next
  case False
  define m where "m = \<lceil>1 / a\<rceil> - 1"
  have "1 < 1 / a" using False assms by simp
  then have "1 < \<lceil>1 / a\<rceil>" by (simp add: less_ceiling_iff)
  then have mp: "0 < m" by (simp add: m_def)
  have e: "binade a = - bits m" using False by (simp add: binade_def m_def)
  from bits_bounds [OF mp]
  have lo: "pow2 (bits m - 1) \<le> of_int m" and hi: "of_int m < pow2 (bits m)" by auto
  have bp: "0 \<le> bits m" using bits_pos [OF mp] by simp
  have "real_of_int m < of_int (2 ^ nat (bits m))" using hi pow2_nat [OF bp] by simp
  then have "m < 2 ^ nat (bits m)" by (simp only: of_int_less_iff)
  then have "m + 1 \<le> 2 ^ nat (bits m)" by simp
  then have "real_of_int (m + 1) \<le> of_int (2 ^ nat (bits m))" by (simp only: of_int_le_iff)
  then have m1: "of_int m + 1 \<le> pow2 (bits m)" using pow2_nat [OF bp] by simp
  have c1: "1 / a \<le> of_int m + 1" by (simp add: m_def)
  have c2: "of_int m < 1 / a" unfolding m_def by linarith
  have "1 / a \<le> pow2 (bits m)" using c1 m1 by simp
  then have "1 \<le> pow2 (bits m) * a" using assms by (simp add: field_simps)
  then have l: "pow2 (- bits m) \<le> a" by (simp add: pow2_neg field_simps)
  have p: "pow2 (- bits m + 1) = 1 / pow2 (bits m - 1)"
    using pow2_neg [of "bits m - 1"] by simp
  have "pow2 (bits m - 1) < 1 / a" using lo c2 by simp
  then have "pow2 (bits m - 1) * a < 1" using assms by (simp add: field_simps)
  then have "a < 1 / pow2 (bits m - 1)" by (simp add: field_simps)
  with l p show ?thesis by (simp add: e)
qed

lemma half_even_near: "\<bar>of_int (half_even y) - y\<bar> \<le> 1 / 2"
proof -
  define f where "f = \<lfloor>y\<rfloor>"
  define d where "d = y - of_int f"
  have d: "0 \<le> d" "d < 1" unfolding d_def f_def by linarith+
  have h: "half_even y =
      (if d < 1 / 2 then f else if 1 / 2 < d then f + 1 else if even f then f else f + 1)"
    by (simp add: half_even_def Let_def f_def d_def)
  have y: "y = of_int f + d" by (simp add: d_def)
  consider "d < 1 / 2" | "1 / 2 < d" | "d = 1 / 2" by linarith
  then show ?thesis
  proof cases
    case 1
    then have "half_even y = f" by (simp add: h)
    then have "of_int (half_even y) - y = - d" by (simp add: d_def)
    then show ?thesis using d 1 by simp
  next
    case 2
    then have "half_even y = f + 1" by (simp add: h)
    then have "of_int (half_even y) - y = 1 - d" by (simp add: d_def)
    then show ?thesis using d 2 by simp
  next
    case 3
    then have "half_even y = f \<or> half_even y = f + 1" by (simp add: h)
    then have "of_int (half_even y) - y = - d \<or> of_int (half_even y) - y = 1 - d"
      by (auto simp: d_def)
    then show ?thesis using 3 by auto
  qed
qed

lemma round_to_near:
  "\<bar>round_to p x - x\<bar> \<le> pow2 (binade \<bar>x\<bar> - (int p - 1)) / 2"
proof (cases "x = 0")
  case True
  then show ?thesis by (simp add: round_to_def less_imp_le)
next
  case False
  define u where "u = pow2 (binade \<bar>x\<bar> - (int p - 1))"
  have u: "0 < u" by (simp add: u_def)
  have r: "round_to p x = sgn x * of_int (half_even (\<bar>x\<bar> / u)) * u"
    using False by (simp add: round_to_def u_def Let_def)
  have "x = sgn x * (\<bar>x\<bar> / u) * u" using u by (simp add: sgn_mult_abs)
  then have "round_to p x - x = sgn x * (of_int (half_even (\<bar>x\<bar> / u)) - \<bar>x\<bar> / u) * u"
    by (simp add: r algebra_simps)
  then have "\<bar>round_to p x - x\<bar> = \<bar>of_int (half_even (\<bar>x\<bar> / u)) - \<bar>x\<bar> / u\<bar> * u"
    using False u by (simp add: abs_mult abs_sgn_eq)
  also have "\<dots> \<le> 1 / 2 * u"
    using half_even_near [of "\<bar>x\<bar> / u"] u by (intro mult_right_mono) simp_all
  finally show ?thesis by (simp add: u_def)
qed

lemma round_to_relative: "\<bar>round_to p x - x\<bar> \<le> \<bar>x\<bar> / 2 ^ p"
proof (cases "x = 0")
  case True
  then show ?thesis by (simp add: round_to_def)
next
  case False
  then have "0 < \<bar>x\<bar>" by simp
  from binade_bounds [OF this] have lo: "pow2 (binade \<bar>x\<bar>) \<le> \<bar>x\<bar>" by simp
  have "pow2 (e - int p) = pow2 e / 2 ^ p" for e
  proof (induction p)
    case 0
    then show ?case by simp
  next
    case (Suc p)
    have "pow2 (e - int p) = 2 * pow2 (e - int (Suc p))"
      using pow2_Suc [of "e - int (Suc p)"] by simp
    with Suc show ?case by simp
  qed
  from this [of "binade \<bar>x\<bar> + 1"]
  have "pow2 (binade \<bar>x\<bar> + 1 - int p) = 2 * pow2 (binade \<bar>x\<bar>) / 2 ^ p"
    by (simp only: pow2_Suc)
  moreover have "binade \<bar>x\<bar> - (int p - 1) = binade \<bar>x\<bar> + 1 - int p" by simp
  ultimately have "pow2 (binade \<bar>x\<bar> - (int p - 1)) = 2 * pow2 (binade \<bar>x\<bar>) / 2 ^ p"
    by (simp only:)
  then have "pow2 (binade \<bar>x\<bar> - (int p - 1)) / 2 = pow2 (binade \<bar>x\<bar>) / 2 ^ p"
    by simp
  also have "\<dots> \<le> \<bar>x\<bar> / 2 ^ p" using lo by (simp add: divide_right_mono)
  finally show ?thesis using round_to_near [of p x] by linarith
qed

declare bits.simps [simp]

section \<open>The set-up of a ray\<close>

lemma bindE_simps [simp]:
  "bindE (Inl e) f = Inl e" "bindE (Inr x) f = f x"
  by (simp_all add: bindE_def)

lemma fdiv_nonzero [simp]: "b \<noteq> 0 \<Longrightarrow> fdiv who a b = Inr (a / b)"
  by (simp add: fdiv_def)

lemma fdiv_zero [simp]: "fdiv who a 0 = Inl (DivByZero who)"
  by (simp add: fdiv_def)

lemma axis_range_eq: "axis_range ar k s r n sp = Inr (slab_interval ar s r (extent ar n sp))"
  by (simp add: axis_range_def slab_interval_def plane_alpha_def extent_def Let_def)

lemma alpha_range_eq:
  "alpha_range ar \<lparr>sizeCT = (n0, n1, n2), ctPixelSpacing = (sp0, sp1, sp2), GetPixel = g\<rparr>
       (s0, s1, s2) (p0, p1, p2) =
     Inr (Max {fst (slab_interval ar s0 (rs ar (p0 - s0)) (extent ar n0 sp0)),
               fst (slab_interval ar s1 (rs ar (p1 - s1)) (extent ar n1 sp1)),
               fst (slab_interval ar s2 (rs ar (p2 - s2)) (extent ar n2 sp2))},
          Min {snd (slab_interval ar s0 (rs ar (p0 - s0)) (extent ar n0 sp0)),
               snd (slab_interval ar s1 (rs ar (p1 - s1)) (extent ar n1 sp1)),
               snd (slab_interval ar s2 (rs ar (p2 - s2)) (extent ar n2 sp2))})"
  by (simp add: alpha_range_def axis_range_eq Let_def case_prod_beta
        max.commute max.left_commute min.commute min.left_commute)

lemma plane_alpha_exact: "s + plane_alpha exact s r c * r = (if r = 0 then s else c)"
  by (simp add: plane_alpha_def exact_def)

lemma alpha_range_never_faults: "\<exists>a b. alpha_range ar vol S P = Inr (a, b)"
  by (cases S; cases P; cases "sizeCT vol"; cases "ctPixelSpacing vol")
     (simp add: alpha_range_def axis_range_eq Let_def case_prod_beta)

lemma axis_alpha_eq: "axis_alpha ar k s r up down sp = Inr (start_alpha ar s r up down sp)"
  by (simp add: axis_alpha_def start_alpha_def plane_alpha_def Let_def)

lemma axis_increment_eq: "axis_increment ar k r sp = Inr (increment ar r sp)"
  by (simp add: axis_increment_def increment_def)

lemma first_index_eq:
  "first_index ar k s r amin sp =
     (if sp = 0 then Inl (DivByZero (Spacing k))
      else if index_ok ar s r amin sp
      then Inr (\<lceil>cont_index ar s r amin sp\<rceil>, \<lfloor>cont_index ar s r amin sp\<rfloor>)
      else Inl (IntConversion k))"
  by (simp add: first_index_def cont_index_def index_ok_def Let_def)

lemma index_ok_exact [simp]: "index_ok exact s r amin sp"
  by (simp add: index_ok_def exact_def)

lemma bindE_Inl_iff:
  "bindE m f = Inl e \<longleftrightarrow> m = Inl e \<or> (\<exists>x. m = Inr x \<and> f x = Inl e)"
  by (cases m) simp_all

lemma ray_setup_fault:
  assumes "ray_setup_of ar vol S P = Inl e"
  shows "\<exists>k. e = DivByZero (Spacing k) \<or> e = IntConversion k"
proof -
  obtain s0 s1 s2 p0 p1 p2 sp0 sp1 sp2 where
    [simp]: "S = (s0, s1, s2)" "P = (p0, p1, p2)" "ctPixelSpacing vol = (sp0, sp1, sp2)"
    by (cases S; cases P; cases "ctPixelSpacing vol") auto
  obtain a b where [simp]: "alpha_range ar vol (s0, s1, s2) (p0, p1, p2) = Inr (a, b)"
    using alpha_range_never_faults [of ar vol "(s0, s1, s2)" "(p0, p1, p2)"] by auto
  show ?thesis
    using assms
    by (auto simp: ray_setup_of_def Let_def axis_alpha_eq axis_increment_eq first_index_eq
          split: if_splits)
qed

lemma ray_setup_ok:
  assumes "sp0 \<noteq> 0" "sp1 \<noteq> 0" "sp2 \<noteq> 0"
    and "ctPixelSpacing vol = (sp0, sp1, sp2)"
    and "alpha_range ar vol (s0, s1, s2) (p0, p1, p2) = Inr (amin, amax)"
    and "index_ok ar s0 (rs ar (p0 - s0)) amin sp0"
    and "index_ok ar s1 (rs ar (p1 - s1)) amin sp1"
    and "index_ok ar s2 (rs ar (p2 - s2)) amin sp2"
  shows "ray_setup_of ar vol (s0, s1, s2) (p0, p1, p2) =
     Inr \<lparr>alphaMin = amin,
          loop_consts = \<lparr>alphaMax = amax,
             alphaUx = increment ar (rs ar (p0 - s0)) sp0,
             alphaUy = increment ar (rs ar (p1 - s1)) sp1,
             alphaUz = increment ar (rs ar (p2 - s2)) sp2,
             iU = axis_direction s0 p0, jU = axis_direction s1 p1, kU = axis_direction s2 p2\<rparr>,
          loop_start = \<lparr>
             alphaX = start_alpha ar s0 (rs ar (p0 - s0))
               \<lceil>cont_index ar s0 (rs ar (p0 - s0)) amin sp0\<rceil>
               \<lfloor>cont_index ar s0 (rs ar (p0 - s0)) amin sp0\<rfloor> sp0,
             alphaY = start_alpha ar s1 (rs ar (p1 - s1))
               \<lceil>cont_index ar s1 (rs ar (p1 - s1)) amin sp1\<rceil>
               \<lfloor>cont_index ar s1 (rs ar (p1 - s1)) amin sp1\<rfloor> sp1,
             alphaZ = start_alpha ar s2 (rs ar (p2 - s2))
               \<lceil>cont_index ar s2 (rs ar (p2 - s2)) amin sp2\<rceil>
               \<lfloor>cont_index ar s2 (rs ar (p2 - s2)) amin sp2\<rfloor> sp2,
             alphaCmin = min (min (start_alpha ar s0 (rs ar (p0 - s0))
               \<lceil>cont_index ar s0 (rs ar (p0 - s0)) amin sp0\<rceil>
               \<lfloor>cont_index ar s0 (rs ar (p0 - s0)) amin sp0\<rfloor> sp0)
               (start_alpha ar s1 (rs ar (p1 - s1))
               \<lceil>cont_index ar s1 (rs ar (p1 - s1)) amin sp1\<rceil>
               \<lfloor>cont_index ar s1 (rs ar (p1 - s1)) amin sp1\<rfloor> sp1))
               (start_alpha ar s2 (rs ar (p2 - s2))
               \<lceil>cont_index ar s2 (rs ar (p2 - s2)) amin sp2\<rceil>
               \<lfloor>cont_index ar s2 (rs ar (p2 - s2)) amin sp2\<rfloor> sp2),
             cIndex = (\<lfloor>cont_index ar s0 (rs ar (p0 - s0)) amin sp0\<rfloor>,
                       \<lfloor>cont_index ar s1 (rs ar (p1 - s1)) amin sp1\<rfloor>,
                       \<lfloor>cont_index ar s2 (rs ar (p2 - s2)) amin sp2\<rfloor>),
             d12 = Fin 0\<rparr>\<rparr>"
  using assms
  by (simp add: ray_setup_of_def Let_def axis_alpha_eq axis_increment_eq first_index_eq)

lemma ray_setup_Inr:
  assumes "ray_setup_of ar vol (s0, s1, s2) (p0, p1, p2) = Inr su"
    and "ctPixelSpacing vol = (sp0, sp1, sp2)"
    and "alpha_range ar vol (s0, s1, s2) (p0, p1, p2) = Inr (amin, amax)"
  shows "sp0 \<noteq> 0 \<and> sp1 \<noteq> 0 \<and> sp2 \<noteq> 0 \<and>
     index_ok ar s0 (rs ar (p0 - s0)) amin sp0 \<and> index_ok ar s1 (rs ar (p1 - s1)) amin sp1 \<and>
     index_ok ar s2 (rs ar (p2 - s2)) amin sp2"
  using assms
  by (auto simp: ray_setup_of_def Let_def first_index_eq split: if_splits)

section \<open>The traversal loop\<close>

lemma exact_simps [simp]:
  "rs exact x = x" "rd exact x = x" "float_ok exact x" "double_ok exact x" "int_ok exact n"
  by (simp_all add: exact_def)

lemma exact_stored [simp]: "to_float exact x = Fin x" "to_double exact x = Fin x"
  by (simp_all add: to_float_def to_double_def stored_def)

lemma narrow_exact [simp]: "narrow exact v = v"
  by (cases v) simp_all

lemma contribution_exact [simp]:
  "contribution exact cur prev (Fin v) thr = Fin ((cur - prev) * (v - thr))"
  by (simp add: contribution_def fsub_def)

lemma accumulate_frame [simp]:
  "alphaX (accumulate ar vol thr prev s) = alphaX s"
  "alphaY (accumulate ar vol thr prev s) = alphaY s"
  "alphaZ (accumulate ar vol thr prev s) = alphaZ s"
  "alphaCmin (accumulate ar vol thr prev s) = alphaCmin s"
  "cIndex (accumulate ar vol thr prev s) = cIndex s"
  by (simp_all add: accumulate_def Let_def)

lemma alphaCmin_step: "alphaCmin (step ar vol thr c s) = min3 s"
  by (cases "cIndex s") (auto simp: step_def advance_def min3_def)

lemma step_alphas:
  "(alphaX (step ar vol thr c s), alphaY (step ar vol thr c s), alphaZ (step ar vol thr c s)) =
     (if alphaX s \<le> alphaY s \<and> alphaX s \<le> alphaZ s
      then (rs ar (alphaX s + alphaUx c), alphaY s, alphaZ s)
      else if alphaY s \<le> alphaX s \<and> alphaY s \<le> alphaZ s
      then (alphaX s, rs ar (alphaY s + alphaUy c), alphaZ s)
      else (alphaX s, alphaY s, rs ar (alphaZ s + alphaUz c)))"
  by (cases "cIndex s") (auto simp: step_def advance_def)

lemma step_x:
  "alphaX s \<le> alphaY s \<and> alphaX s \<le> alphaZ s \<Longrightarrow>
     alphaX (step ar vol thr c s) = rs ar (alphaX s + alphaUx c) \<and>
     alphaY (step ar vol thr c s) = alphaY s \<and> alphaZ (step ar vol thr c s) = alphaZ s"
  using step_alphas [of ar vol thr c s] by simp

lemma step_y:
  "\<not> (alphaX s \<le> alphaY s \<and> alphaX s \<le> alphaZ s) \<Longrightarrow>
   alphaY s \<le> alphaX s \<and> alphaY s \<le> alphaZ s \<Longrightarrow>
     alphaX (step ar vol thr c s) = alphaX s \<and>
     alphaY (step ar vol thr c s) = rs ar (alphaY s + alphaUy c) \<and>
     alphaZ (step ar vol thr c s) = alphaZ s"
  using step_alphas [of ar vol thr c s] by (auto split: if_splits)

lemma step_z:
  "\<not> (alphaX s \<le> alphaY s \<and> alphaX s \<le> alphaZ s) \<Longrightarrow>
   \<not> (alphaY s \<le> alphaX s \<and> alphaY s \<le> alphaZ s) \<Longrightarrow>
     alphaX (step ar vol thr c s) = alphaX s \<and> alphaY (step ar vol thr c s) = alphaY s \<and>
     alphaZ (step ar vol thr c s) = rs ar (alphaZ s + alphaUz c)"
  using step_alphas [of ar vol thr c s] by (auto split: if_splits)

lemma need_less:
  assumes "0 < \<delta>" "a < A" "a + \<delta> \<le> a'"
  shows "need \<delta> A a' < need \<delta> A a"
proof -
  have "(A - a') / \<delta> \<le> ((A - a) - \<delta>) / \<delta>"
    using assms by (intro divide_right_mono) simp_all
  also have "\<dots> = (A - a) / \<delta> - 1"
    using assms by (simp add: diff_divide_distrib)
  finally have "(A - a') / \<delta> \<le> (A - a) / \<delta> - 1" .
  then have "\<lceil>(A - a') / \<delta>\<rceil> \<le> \<lceil>(A - a) / \<delta>\<rceil> - 1"
    by (metis ceiling_diff_one ceiling_mono)
  moreover have "0 < \<lceil>(A - a) / \<delta>\<rceil>"
    using assms by (simp add: field_simps)
  ultimately show ?thesis
    by (simp add: need_def)
qed

lemma traverse_terminates:
  assumes d: "0 < \<delta>"
    and px: "\<And>a. a < alphaMax c \<Longrightarrow> a + \<delta> \<le> rs ar (a + alphaUx c)"
    and py: "\<And>a. a < alphaMax c \<Longrightarrow> a + \<delta> \<le> rs ar (a + alphaUy c)"
    and pz: "\<And>a. a < alphaMax c \<Longrightarrow> a + \<delta> \<le> rs ar (a + alphaUz c)"
  shows "\<exists>s'. traverse ar vol thr c s = Some s'"
proof (induction "need \<delta> (alphaMax c) (alphaX s) + need \<delta> (alphaMax c) (alphaY s)
                  + need \<delta> (alphaMax c) (alphaZ s)" arbitrary: s rule: less_induct)
  case less
  let ?s' = "step ar vol thr c s"
  show ?case
  proof (cases "alphaCmin s < alphaMax c")
    case False
    then show ?thesis by (subst traverse.simps) simp
  next
    case True
    then have unfold: "traverse ar vol thr c s = traverse ar vol thr c ?s'"
      by (subst traverse.simps) simp
    show ?thesis
    proof (cases "min3 s < alphaMax c")
      case False
      then have "\<not> alphaCmin ?s' < alphaMax c"
        by (simp add: alphaCmin_step)
      then have "traverse ar vol thr c ?s' = Some ?s'"
        by (subst traverse.simps) simp
      with unfold show ?thesis by simp
    next
      case m: True
      have "need \<delta> (alphaMax c) (alphaX ?s') + need \<delta> (alphaMax c) (alphaY ?s')
              + need \<delta> (alphaMax c) (alphaZ ?s')
            < need \<delta> (alphaMax c) (alphaX s) + need \<delta> (alphaMax c) (alphaY s)
              + need \<delta> (alphaMax c) (alphaZ s)"
      proof -
        consider (x) "alphaX s \<le> alphaY s \<and> alphaX s \<le> alphaZ s"
          | (y) "\<not> (alphaX s \<le> alphaY s \<and> alphaX s \<le> alphaZ s)"
                "alphaY s \<le> alphaX s \<and> alphaY s \<le> alphaZ s"
          | (z) "\<not> (alphaX s \<le> alphaY s \<and> alphaX s \<le> alphaZ s)"
                "\<not> (alphaY s \<le> alphaX s \<and> alphaY s \<le> alphaZ s)"
          by blast
        then show ?thesis
        proof cases
          case x
          then have "alphaX s < alphaMax c" using m by (simp add: min3_def)
          then have "need \<delta> (alphaMax c) (rs ar (alphaX s + alphaUx c)) < need \<delta> (alphaMax c) (alphaX s)"
            using need_less [OF d] px by blast
          then show ?thesis using step_x [OF x, of ar vol thr c] by simp
        next
          case y
          then have "alphaY s < alphaMax c" using m by (auto simp: min3_def)
          then have "need \<delta> (alphaMax c) (rs ar (alphaY s + alphaUy c)) < need \<delta> (alphaMax c) (alphaY s)"
            using need_less [OF d] py by blast
          then show ?thesis using step_y [OF y, of ar vol thr c] by simp
        next
          case z
          then have "alphaZ s < alphaMax c" using m by (auto simp: min3_def)
          then have "need \<delta> (alphaMax c) (rs ar (alphaZ s + alphaUz c)) < need \<delta> (alphaMax c) (alphaZ s)"
            using need_less [OF d] pz by blast
          then show ?thesis using step_z [OF z, of ar vol thr c] by simp
        qed
      qed
      from less [OF this] unfold show ?thesis by simp
    qed
  qed
qed

lemma increment_pos: "0 < sp \<Longrightarrow> 0 < increment exact r sp"
  by (simp add: increment_def)


section \<open>A ray whose loop never ends in binary32\<close>

lemmas rnd = round_to_def binade_def pow2_def half_even_def Let_def

lemma ieee_simps [simp]:
  "rs ieee = round_to 24" "rd ieee = round_to 53"
  "float_ok ieee x \<longleftrightarrow> \<bar>x\<bar> \<le> FLT_MAX" "double_ok ieee x \<longleftrightarrow> \<bar>x\<bar> \<le> DBL_MAX"
  "int_ok ieee n \<longleftrightarrow> - 2147483648 \<le> n \<and> n < 2147483648"
  by (simp_all add: ieee_def)

lemma round_to_0 [simp]: "round_to p 0 = 0"
  by (simp add: round_to_def)

lemma stall_roundings:
  "round_to 24 268435456 = 268435456"
  "round_to 53 134217728 = 134217728"
  "round_to 53 (1 / 2) = 1 / 2"
  "round_to 24 (1 / 2) = 1 / 2"
  "round_to 53 16 = 16"
  "round_to 53 134217744 = 134217744"
  "round_to 53 (8388609 / 16777216) = 8388609 / 16777216"
  "round_to 24 (8388609 / 16777216) = 8388609 / 16777216"
  "round_to 24 134217728 = 134217728"
  "round_to 53 (1 / 268435456) = 1 / 268435456"
  "round_to 24 (1 / 268435456) = 1 / 268435456"
  "round_to 24 (134217729 / 268435456) = 1 / 2"
  by (simp_all add: rnd)

lemma ar1: "alpha_range ieee vol_stall (- 134217728, 1 / 2, 1 / 2) (134217728, 1 / 2, 1 / 2)
  = Inr (1 / 2, 8388609 / 16777216)"
  by (simp add: alpha_range_def axis_range_def vol_stall_def stall_roundings)

lemma spacing_stall: "ctPixelSpacing vol_stall = (1, 1, 1)"
  by (simp add: vol_stall_def)

lemma setup_stall:
  "ray_setup_of ieee vol_stall (- 134217728, 1 / 2, 1 / 2) (134217728, 1 / 2, 1 / 2) =
     Inr \<lparr>alphaMin = 1 / 2,
          loop_consts = \<lparr>alphaMax = 8388609 / 16777216, alphaUx = 1 / 268435456,
             alphaUy = 999, alphaUz = 999, iU = 1, jU = - 1, kU = - 1\<rparr>,
          loop_start = \<lparr>alphaX = 1 / 2, alphaY = 2, alphaZ = 2, alphaCmin = 1 / 2,
             cIndex = (0, 0, 0), d12 = Fin 0\<rparr>\<rparr>"
  by (subst ray_setup_ok [OF _ _ _ spacing_stall ar1])
     (simp_all add: start_alpha_def plane_alpha_def cont_index_def increment_def
        axis_direction_def index_ok_def stall_roundings)

lemma advance_stall:
  "advance ieee consts_stall
     \<lparr>alphaX = 1 / 2, alphaY = 2, alphaZ = 2, alphaCmin = 1 / 2, cIndex = (i, j, k), d12 = d\<rparr> =
     \<lparr>alphaX = 1 / 2, alphaY = 2, alphaZ = 2, alphaCmin = 1 / 2, cIndex = (i + 1, j, k), d12 = d\<rparr>"
  by (simp add: advance_def consts_stall_def stall_roundings)

lemma accumulate_stalled: "stalled s \<Longrightarrow> stalled (accumulate ar vol thr prev s)"
  by (auto simp: stalled_def accumulate_def Let_def)

lemma stalled_step: "stalled s \<Longrightarrow> stalled (step ieee vol thr consts_stall s)"
proof -
  assume "stalled s"
  then obtain i j k d where
    s: "s = \<lparr>alphaX = 1 / 2, alphaY = 2, alphaZ = 2, alphaCmin = 1 / 2, cIndex = (i, j, k), d12 = d\<rparr>"
    unfolding stalled_def by (metis prod_cases3)
  have "stalled (advance ieee consts_stall s)"
    unfolding s advance_stall stalled_def by blast
  then show ?thesis
    unfolding step_def by (rule accumulate_stalled)
qed

lemma stalled_guard: "stalled s \<Longrightarrow> alphaCmin s < alphaMax consts_stall"
  by (auto simp: stalled_def consts_stall_def)

lemma stalled_never_returns:
  assumes t: "traverse ar vol thr c s = Some y"
  shows "\<not> (ar = ieee \<and> c = consts_stall \<and> stalled s)"
proof (rule traverse.raw_induct
    [where P = "\<lambda>ar vol thr c s y. \<not> (ar = ieee \<and> c = consts_stall \<and> stalled s)", OF _ t])
  fix f a v th c' s' y'
  assume IH: "\<And>a v th c s y. f a v th c s = Some y \<Longrightarrow>
                \<not> (a = ieee \<and> c = consts_stall \<and> stalled s)"
    and eq: "(if alphaCmin s' < alphaMax c' then f a v th c' (step a v th c' s') else Some s')
               = Some y'"
  show "\<not> (a = ieee \<and> c' = consts_stall \<and> stalled s')"
  proof
    assume h: "a = ieee \<and> c' = consts_stall \<and> stalled s'"
    then have "alphaCmin s' < alphaMax c'"
      using stalled_guard by simp
    with eq have "f a v th c' (step a v th c' s') = Some y'"
      by simp
    from IH [OF this] have "\<not> (a = ieee \<and> c' = consts_stall \<and> stalled (step a v th c' s'))" .
    moreover have "stalled (step a v th c' s')"
      using h stalled_step by simp
    ultimately show False
      using h by simp
  qed
qed

lemma stall_diverges:
  assumes "stalled s"
  shows "traverse ieee vol thr consts_stall s = None"
proof (cases "traverse ieee vol thr consts_stall s")
  case None
  then show ?thesis .
next
  case (Some y)
  from stalled_never_returns [OF this] assms show ?thesis
    by simp
qed

lemma cast_ray_stall:
  "cast_ray ieee T vol_stall 0 (- 134217728, 1 / 2, 1 / 2) (134217728, 1 / 2, 1 / 2) = Diverges"
proof -
  have "stalled \<lparr>alphaX = 1 / 2, alphaY = 2, alphaZ = 2, alphaCmin = 1 / 2,
             cIndex = (0, 0, 0), d12 = Fin 0\<rparr>"
    unfolding stalled_def by blast
  from stall_diverges [OF this, of vol_stall 0] show ?thesis
    by (simp add: cast_ray_def path_sum_def setup_stall consts_stall_def)
qed

section \<open>In exact arithmetic the loop ends\<close>

lemma traverse_done: "alphaMax c \<le> alphaCmin s \<Longrightarrow> traverse ar vol thr c s = Some s"
  by (subst traverse.simps) simp

lemma traverse_unfold:
  "alphaCmin s < alphaMax c \<Longrightarrow>
     traverse ar vol thr c s = traverse ar vol thr c (step ar vol thr c s)"
  by (subst traverse.simps) simp

lemma ray_setup_spacing:
  assumes "ray_setup_of ar vol S P = Inr su" "ctPixelSpacing vol = (sp0, sp1, sp2)"
  shows "sp0 \<noteq> 0 \<and> sp1 \<noteq> 0 \<and> sp2 \<noteq> 0"
proof -
  obtain s0 s1 s2 p0 p1 p2 where [simp]: "S = (s0, s1, s2)" "P = (p0, p1, p2)"
    by (cases S; cases P) auto
  obtain a b where [simp]: "alpha_range ar vol (s0, s1, s2) (p0, p1, p2) = Inr (a, b)"
    using alpha_range_never_faults [of ar vol "(s0, s1, s2)" "(p0, p1, p2)"] by auto
  show ?thesis
    using assms
    by (auto simp: ray_setup_of_def Let_def first_index_eq split: if_splits)
qed

lemma slab_zero [simp]: "slab_interval ar s 0 c = (- 2, 2)"
  by (simp add: slab_interval_def)

lemma start_alpha_zero [simp]: "start_alpha ar s 0 up down sp = 2"
  by (simp add: start_alpha_def)



lemma start_d12: "ray_setup_of ar vol S P = Inr su \<Longrightarrow> d12 (loop_start su) = Fin 0"
proof -
  assume su: "ray_setup_of ar vol S P = Inr su"
  obtain s0 s1 s2 p0 p1 p2 where SP: "S = (s0, s1, s2)" "P = (p0, p1, p2)"
    by (cases S; cases P) auto
  obtain sp0 sp1 sp2 where spv: "ctPixelSpacing vol = (sp0, sp1, sp2)"
    by (cases "ctPixelSpacing vol") auto
  have sp: "sp0 \<noteq> 0" "sp1 \<noteq> 0" "sp2 \<noteq> 0"
    using ray_setup_spacing [OF su spv] by simp_all
  obtain a b where range: "alpha_range ar vol (s0, s1, s2) (p0, p1, p2) = Inr (a, b)"
    using alpha_range_never_faults [of ar vol "(s0, s1, s2)" "(p0, p1, p2)"] by auto
  have ix: "index_ok ar s0 (rs ar (p0 - s0)) a sp0" "index_ok ar s1 (rs ar (p1 - s1)) a sp1"
    "index_ok ar s2 (rs ar (p2 - s2)) a sp2"
    using ray_setup_Inr [OF su [unfolded SP] spv range] by simp_all
  from su ray_setup_ok [OF sp spv range ix] show ?thesis
    by (auto simp: SP)
qed

lemma start_alphaCmin:
  "ray_setup_of ar vol S P = Inr su \<Longrightarrow> alphaCmin (loop_start su) = min3 (loop_start su)"
proof -
  assume su: "ray_setup_of ar vol S P = Inr su"
  obtain s0 s1 s2 p0 p1 p2 where SP: "S = (s0, s1, s2)" "P = (p0, p1, p2)"
    by (cases S; cases P) auto
  obtain sp0 sp1 sp2 where spv: "ctPixelSpacing vol = (sp0, sp1, sp2)"
    by (cases "ctPixelSpacing vol") auto
  have sp: "sp0 \<noteq> 0" "sp1 \<noteq> 0" "sp2 \<noteq> 0"
    using ray_setup_spacing [OF su spv] by simp_all
  obtain a b where range: "alpha_range ar vol (s0, s1, s2) (p0, p1, p2) = Inr (a, b)"
    using alpha_range_never_faults [of ar vol "(s0, s1, s2)" "(p0, p1, p2)"] by auto
  have ix: "index_ok ar s0 (rs ar (p0 - s0)) a sp0" "index_ok ar s1 (rs ar (p1 - s1)) a sp1"
    "index_ok ar s2 (rs ar (p2 - s2)) a sp2"
    using ray_setup_Inr [OF su [unfolded SP] spv range] by simp_all
  from su ray_setup_ok [OF sp spv range ix] show ?thesis
    by (auto simp: SP min3_def)
qed

lemma exact_terminates:
  assumes spv: "ctPixelSpacing vol = (sp0, sp1, sp2)" and pos: "0 < sp0" "0 < sp1" "0 < sp2"
  shows "\<exists>su s. ray_setup_of exact vol S P = Inr su
           \<and> traverse exact vol thr (loop_consts su) (loop_start su) = Some s"
proof -
  obtain s0 s1 s2 p0 p1 p2 where SP: "S = (s0, s1, s2)" "P = (p0, p1, p2)"
    by (cases S; cases P) auto
  obtain a b where range: "alpha_range exact vol (s0, s1, s2) (p0, p1, p2) = Inr (a, b)"
    using alpha_range_never_faults [of exact vol "(s0, s1, s2)" "(p0, p1, p2)"] by auto
  have sp: "sp0 \<noteq> 0" "sp1 \<noteq> 0" "sp2 \<noteq> 0"
    using pos by simp_all
  note ok = ray_setup_ok [OF sp spv range index_ok_exact index_ok_exact index_ok_exact]
  then obtain su where su: "ray_setup_of exact vol S P = Inr su"
    and ux: "alphaUx (loop_consts su) = increment exact (p0 - s0) sp0"
    and uy: "alphaUy (loop_consts su) = increment exact (p1 - s1) sp1"
    and uz: "alphaUz (loop_consts su) = increment exact (p2 - s2) sp2"
    by (simp add: SP)
  define \<delta> where "\<delta> = min (min (alphaUx (loop_consts su)) (alphaUy (loop_consts su)))
                         (alphaUz (loop_consts su))"
  have "0 < \<delta>"
    using pos by (simp add: \<delta>_def ux uy uz increment_pos)
  moreover have "\<And>a. a + \<delta> \<le> rs exact (a + alphaUx (loop_consts su))"
    "\<And>a. a + \<delta> \<le> rs exact (a + alphaUy (loop_consts su))"
    "\<And>a. a + \<delta> \<le> rs exact (a + alphaUz (loop_consts su))"
    by (simp_all add: \<delta>_def)
  ultimately have "\<exists>s. traverse exact vol thr (loop_consts su) (loop_start su) = Some s"
    by (intro traverse_terminates [of \<delta>]) simp_all
  with su show ?thesis by blast
qed

section \<open>The transforms\<close>

lemma mat_vec_mul: "mat_vec (mat_mul A B) p = mat_vec A (mat_vec B p)"
  by (cases A rule: prod_cases3; cases B rule: prod_cases3; cases p rule: prod_cases3)
     (auto simp: algebra_simps split: prod.splits)

lemma det_mul: "det (mat_mul A B) = det A * det B"
proof -
  obtain a b c d e f g h i where A: "A = ((a, b, c), (d, e, f), (g, h, i))"
    by (metis prod_cases3)
  obtain a' b' c' d' e' f' g' h' i' where B: "B = ((a', b', c'), (d', e', f'), (g', h', i'))"
    by (metis prod_cases3)
  show ?thesis
    unfolding A B by (simp add: algebra_simps)
qed

lemma mat_vec_id [simp]: "mat_vec mat_id p = p"
  by (cases p rule: prod_cases3) (simp add: mat_id_def)

lemma mat_mul_id [simp]: "mat_mul A mat_id = A" "mat_mul mat_id A = A"
proof -
  obtain a b c d e f g h i where A: "A = ((a, b, c), (d, e, f), (g, h, i))"
    by (metis prod_cases3)
  show "mat_mul A mat_id = A" "mat_mul mat_id A = A"
    unfolding A by (simp_all add: mat_id_def)
qed

lemma det_id [simp]: "det mat_id = 1"
  by (simp add: mat_id_def)

lemma sc1: "sin t * sin t + cos t * cos t = (1::real)"
  using sin_cos_squared_add [of t] by (simp add: power2_eq_square)

lemma det_RotationX [simp]: "det (RotationX t) = 1"
  using sc1 [of t] by (simp add: RotationX_def algebra_simps)

lemma det_RotationY [simp]: "det (RotationY t) = 1"
  using sc1 [of t] by (simp add: RotationY_def algebra_simps)

lemma det_RotationZ [simp]: "det (RotationZ t) = 1"
  using sc1 [of t] by (simp add: RotationZ_def algebra_simps)

lemma det_euler [simp]: "det (euler_matrix e) = 1"
  by (simp add: euler_matrix_def det_mul)

lemma mat_inv_left:
  assumes "det A \<noteq> 0"
  shows "mat_vec (mat_inv A) (mat_vec A p) = p"
proof -
  obtain a b c d e f g h i where A: "A = ((a, b, c), (d, e, f), (g, h, i))"
    by (metis prod_cases3)
  obtain x y z where p: "p = (x, y, z)"
    by (metis prod_cases3)
  define D where "D = det A"
  have D: "D \<noteq> 0" "a * (e * i - f * h) - b * (d * i - f * g) + c * (d * h - e * g) = D"
    using assms by (simp_all add: D_def A)
  have 1: "((e * i - f * h) * (a * x + b * y + c * z) + (c * h - b * i) * (d * x + e * y + f * z)
           + (b * f - c * e) * (g * x + h * y + i * z)) = D * x"
    unfolding D(2) [symmetric] by (simp add: algebra_simps)
  have 2: "((f * g - d * i) * (a * x + b * y + c * z) + (a * i - c * g) * (d * x + e * y + f * z)
           + (c * d - a * f) * (g * x + h * y + i * z)) = D * y"
    unfolding D(2) [symmetric] by (simp add: algebra_simps)
  have 3: "((d * h - e * g) * (a * x + b * y + c * z) + (b * g - a * h) * (d * x + e * y + f * z)
           + (a * e - b * d) * (g * x + h * y + i * z)) = D * z"
    unfolding D(2) [symmetric] by (simp add: algebra_simps)
  have "mat_vec (mat_inv A) (mat_vec A p) = (D * x / D, D * y / D, D * z / D)"
    unfolding A p using D(2) 1 2 3
    by (simp add: Let_def add_divide_distrib [symmetric] times_divide_eq_left)
  then show ?thesis
    using D(1) by (simp add: p)
qed

lemma mat_inv_right:
  assumes "det A \<noteq> 0"
  shows "mat_vec A (mat_vec (mat_inv A) p) = p"
proof -
  obtain a b c d e f g h i where A: "A = ((a, b, c), (d, e, f), (g, h, i))"
    by (metis prod_cases3)
  obtain x y z where p: "p = (x, y, z)"
    by (metis prod_cases3)
  define D where "D = det A"
  have D: "D \<noteq> 0" "a * (e * i - f * h) - b * (d * i - f * g) + c * (d * h - e * g) = D"
    using assms by (simp_all add: D_def A)
  have 1: "a * ((e * i - f * h) * x + (c * h - b * i) * y + (b * f - c * e) * z)
         + b * ((f * g - d * i) * x + (a * i - c * g) * y + (c * d - a * f) * z)
         + c * ((d * h - e * g) * x + (b * g - a * h) * y + (a * e - b * d) * z) = D * x"
    unfolding D(2) [symmetric] by (simp add: algebra_simps)
  have 2: "d * ((e * i - f * h) * x + (c * h - b * i) * y + (b * f - c * e) * z)
         + e * ((f * g - d * i) * x + (a * i - c * g) * y + (c * d - a * f) * z)
         + f * ((d * h - e * g) * x + (b * g - a * h) * y + (a * e - b * d) * z) = D * y"
    unfolding D(2) [symmetric] by (simp add: algebra_simps)
  have 3: "g * ((e * i - f * h) * x + (c * h - b * i) * y + (b * f - c * e) * z)
         + h * ((f * g - d * i) * x + (a * i - c * g) * y + (c * d - a * f) * z)
         + i * ((d * h - e * g) * x + (b * g - a * h) * y + (a * e - b * d) * z) = D * z"
    unfolding D(2) [symmetric] by (simp add: algebra_simps)
  have "mat_vec A (mat_vec (mat_inv A) p) = (D * x / D, D * y / D, D * z / D)"
    unfolding A p using D(2) 1 2 3
    by (simp add: Let_def add_divide_distrib [symmetric] times_divide_eq_right)
  then show ?thesis
    using D(1) by (simp add: p)
qed

lemma mat_vec_add: "mat_vec A (vadd u v) = vadd (mat_vec A u) (mat_vec A v)"
  by (cases A rule: prod_cases3; cases u rule: prod_cases3; cases v rule: prod_cases3)
     (auto simp: algebra_simps split: prod.splits)

lemma vadd_assoc: "vadd (vadd u v) w = vadd u (vadd v w)"
  by (cases u rule: prod_cases3; cases v rule: prod_cases3; cases w rule: prod_cases3) simp

lemma vadd_vneg [simp]: "vadd u (vneg u) = (0, 0, 0)" "vadd (vneg u) u = (0, 0, 0)"
  by (cases u rule: prod_cases3; simp)+

lemma vadd_zero [simp]: "vadd u (0, 0, 0) = u" "vadd (0, 0, 0) u = u"
  by (cases u rule: prod_cases3; simp)+

lemma mat_vec_neg: "mat_vec A (vneg u) = vneg (mat_vec A u)"
  by (cases A rule: prod_cases3; cases u rule: prod_cases3)
     (auto simp: algebra_simps split: prod.splits)

lemma TransformPoint_Compose:
  "TransformPoint (Compose self other) p = TransformPoint other (TransformPoint self p)"
  by (simp add: TransformPoint_def Compose_def mat_vec_mul mat_vec_add vadd_assoc)

lemma TransformPoint_SetIdentity [simp]: "TransformPoint SetIdentity p = p"
  by (simp add: TransformPoint_def SetIdentity_def)

lemma det_Compose: "det (Matrix (Compose self other)) = det (Matrix other) * det (Matrix self)"
  by (simp add: Compose_def det_mul)

lemma GetInverse_left:
  assumes "det (Matrix A) \<noteq> 0"
  shows "TransformPoint (GetInverse A old) (TransformPoint A p) = p"
  using assms
  by (simp add: TransformPoint_def GetInverse_def mat_vec_add mat_inv_left vadd_assoc)

lemma GetInverse_right:
  assumes "det (Matrix A) \<noteq> 0"
  shows "TransformPoint A (TransformPoint (GetInverse A old) q) = q"
  using assms
  by (simp add: TransformPoint_def GetInverse_def mat_vec_add mat_vec_neg mat_inv_right vadd_assoc)

lemma Matrix_affine_of [simp]: "Matrix (affine_of e) = euler_matrix e"
  by (simp add: affine_of_def)

lemma det_composed: "det (Matrix (m_ComposedTransform (rebuild a w))) = 1"
  by (simp add: rebuild_def Modified_def Let_def det_Compose SetIdentity_def)

lemma Rot0 [simp]: "RotationX 0 = mat_id" "RotationY 0 = mat_id" "RotationZ 0 = mat_id"
  by (simp_all add: RotationX_def RotationY_def RotationZ_def mat_id_def)

lemma gantry_point:
  assumes "Translation g = (0, 0, 0)"
  shows "TransformPoint (affine_of (g\<lparr>AngleX := 0, AngleY := 0, AngleZ := - t, Center := c\<rparr>)) q
           = gantry_rotation t c q"
proof -
  obtain c0 c1 c2 where c: "c = (c0, c1, c2)" by (metis prod_cases3)
  obtain x y z where q: "q = (x, y, z)" by (metis prod_cases3)
  show ?thesis
    using assms
    by (simp add: TransformPoint_def affine_of_def euler_matrix_def euler_offset_def
        gantry_rotation_def c q RotationZ_def algebra_simps)
qed

lemma camshift_point:
  assumes "AngleX s = 0" "AngleY s = 0" "AngleZ s = 0" "Center s = (0, 0, 0)"
  shows "TransformPoint (affine_of (s\<lparr>Translation := tr\<rparr>)) q = vadd q tr"
proof -
  obtain t0 t1 t2 where tr: "tr = (t0, t1, t2)" by (metis prod_cases3)
  obtain x y z where q: "q = (x, y, z)" by (metis prod_cases3)
  show ?thesis
    using assms
    by (simp add: TransformPoint_def affine_of_def euler_matrix_def euler_offset_def tr q)
qed

lemma camrot_point:
  assumes "AngleX r = - pi / 2" "AngleY r = 0" "AngleZ r = 0"
    "Translation r = (0, 0, 0)" "Center r = (0, 0, 0)"
  shows "TransformPoint (affine_of r) q = camera_rotation q"
proof -
  obtain x y z where q: "q = (x, y, z)" by (metis prod_cases3)
  show ?thesis
    using assms
    by (simp add: TransformPoint_def affine_of_def euler_matrix_def euler_offset_def
        camera_rotation_def q RotationX_def)
qed

lemma rebuild_composed:
  assumes "internals_ok w"
  shows "TransformPoint (m_ComposedTransform (rebuild a w)) p =
     camera_rotation (source_shift (m_FocalPointToIsocenterDistance w) (Center (poses w a))
       (gantry_rotation (m_ProjectionAngle w) (Center (poses w a))
         (TransformPoint (affine_of (poses w a)) p)))"
proof -
  obtain c0 c1 c2 where c: "Center (poses w a) = (c0, c1, c2)"
    by (metis prod_cases3)
  have g: "Translation (m_GantryRotTransform w) = (0, 0, 0)"
    and s: "AngleX (m_CamShiftTransform w) = 0" "AngleY (m_CamShiftTransform w) = 0"
       "AngleZ (m_CamShiftTransform w) = 0" "Center (m_CamShiftTransform w) = (0, 0, 0)"
    and r: "AngleX (m_CamRotTransform w) = - pi / 2" "AngleY (m_CamRotTransform w) = 0"
       "AngleZ (m_CamRotTransform w) = 0" "Translation (m_CamRotTransform w) = (0, 0, 0)"
       "Center (m_CamRotTransform w) = (0, 0, 0)"
    using assms by (simp_all add: internals_ok_def)
  show ?thesis
    by (simp add: rebuild_def Modified_def Let_def TransformPoint_Compose c
        gantry_point [OF g] camshift_point [OF s] camrot_point [OF r] source_shift_def)
qed

lemma rebuild_inverse:
  "TransformPoint (m_InverseTransform (rebuild a w))
     (TransformPoint (m_ComposedTransform (rebuild a w)) p) = p"
  "TransformPoint (m_ComposedTransform (rebuild a w))
     (TransformPoint (m_InverseTransform (rebuild a w)) q) = q"
proof -
  have m: "m_InverseTransform (rebuild a w) =
      GetInverse (m_ComposedTransform (rebuild a w)) (m_InverseTransform w)"
    by (simp add: rebuild_def Modified_def Let_def)
  have d: "det (Matrix (m_ComposedTransform (rebuild a w))) \<noteq> 0"
    by (simp add: det_composed)
  show "TransformPoint (m_InverseTransform (rebuild a w))
     (TransformPoint (m_ComposedTransform (rebuild a w)) p) = p"
    unfolding m by (rule GetInverse_left [OF d])
  show "TransformPoint (m_ComposedTransform (rebuild a w))
     (TransformPoint (m_InverseTransform (rebuild a w)) q) = q"
    unfolding m by (rule GetInverse_right [OF d])
qed

lemma identity_pose_point: "identity_pose e \<Longrightarrow> TransformPoint (affine_of e) p = p"
  by (cases p rule: prod_cases3)
     (simp add: identity_pose_def TransformPoint_def affine_of_def euler_matrix_def euler_offset_def)

lemma camera_rotation_eq: "camera_rotation (x, y, z) = (x, z, - y)"
  by (simp add: camera_rotation_def RotationX_def)

lemma source_at_identity:
  assumes "internals_ok w" "identity_pose (poses w a)" "m_ProjectionAngle w = 0"
  shows "TransformPoint (m_ComposedTransform (rebuild a w)) (0, - m_FocalPointToIsocenterDistance w, 0) = (0, 0, 0)"
    and "TransformPoint (m_InverseTransform (rebuild a w)) (0, 0, 0) = (0, - m_FocalPointToIsocenterDistance w, 0)"
    and "TransformPoint (m_ComposedTransform (rebuild a w)) (0, 0, 0) = (0, 0, - m_FocalPointToIsocenterDistance w)"
proof -
  have c: "Center (poses w a) = (0, 0, 0)"
    using assms(2) by (simp add: identity_pose_def)
  show f: "TransformPoint (m_ComposedTransform (rebuild a w)) (0, - m_FocalPointToIsocenterDistance w, 0) = (0, 0, 0)"
    using assms
    by (simp add: rebuild_composed identity_pose_point c gantry_rotation_def source_shift_def
        camera_rotation_eq)
  show "TransformPoint (m_InverseTransform (rebuild a w)) (0, 0, 0) = (0, - m_FocalPointToIsocenterDistance w, 0)"
    using rebuild_inverse(1) [of a w "(0, - m_FocalPointToIsocenterDistance w, 0)"] f by simp
  show "TransformPoint (m_ComposedTransform (rebuild a w)) (0, 0, 0) = (0, 0, - m_FocalPointToIsocenterDistance w)"
    using assms
    by (simp add: rebuild_composed identity_pose_point c gantry_rotation_def source_shift_def
        camera_rotation_eq)
qed

section \<open>Modification times and the cached geometry\<close>

lemma refresh_fresh: "\<not> stale a w \<Longrightarrow> refresh a w = w"
  by (simp add: refresh_def)



lemma Evaluate_outcome:
  "m_Transform w = Some a \<Longrightarrow>
     fst (Evaluate ar T vol p w) =
       cast_ray ar T vol (m_Threshold (refresh a w)) (SourceWorld_of ar (refresh a w))
         (float_point ar (TransformPoint (m_InverseTransform (refresh a w)) p))"
  by (simp add: Evaluate_def Let_def)

lemma rebuild_frame [simp]:
  "m_Transform (rebuild a w) = m_Transform w"
  "poses (rebuild a w) = poses w"
  "m_Threshold (rebuild a w) = m_Threshold w"
  "m_FocalPointToIsocenterDistance (rebuild a w) = m_FocalPointToIsocenterDistance w"
  "m_ProjectionAngle (rebuild a w) = m_ProjectionAngle w"
  "m_SourcePoint (rebuild a w) = m_SourcePoint w"
  "m_SourceWorld (rebuild a w) = m_SourceWorld w"
  "m_CamRotTransform (rebuild a w) = m_CamRotTransform w"
  "clock (rebuild a w) = clock w + 1"
  "MTime (rebuild a w) = clock w + 1"
  by (simp_all add: rebuild_def Modified_def Let_def)

lemma refresh_frame [simp]:
  "m_Transform (refresh a w) = m_Transform w"
  "poses (refresh a w) = poses w"
  "m_Threshold (refresh a w) = m_Threshold w"
  "m_FocalPointToIsocenterDistance (refresh a w) = m_FocalPointToIsocenterDistance w"
  "m_ProjectionAngle (refresh a w) = m_ProjectionAngle w"
  "m_SourcePoint (refresh a w) = m_SourcePoint w"
  "m_SourceWorld (refresh a w) = m_SourceWorld w"
  by (simp_all add: refresh_def)

lemma rebuild_settled: "settled a (rebuild a w)"
  by (simp add: settled_def geometry_def rebuild_def Modified_def Let_def GetInverse_def)

lemma rebuild_SourceWorld:
  "rebuild a (w\<lparr>m_SourceWorld := x\<rparr>) = (rebuild a w)\<lparr>m_SourceWorld := x\<rparr>"
  by (simp add: rebuild_def Modified_def Let_def)

lemma geometry_SourceWorld:
  "geometry (w\<lparr>m_SourceWorld := x\<rparr>) = (geometry w)\<lparr>m_SourceWorld := x\<rparr>"
  by (simp add: geometry_def)

lemma settled_SourceWorld: "settled a w \<Longrightarrow> settled a (w\<lparr>m_SourceWorld := x\<rparr>)"
  by (simp add: settled_def rebuild_SourceWorld geometry_SourceWorld)

lemma geometry_refresh: "settled a w \<Longrightarrow> geometry (refresh a w) = geometry w"
  by (simp add: refresh_def settled_def)

lemma geometry_fields:
  assumes "geometry w = geometry w'"
  shows "m_InverseTransform w = m_InverseTransform w'" "m_SourcePoint w = m_SourcePoint w'"
    "m_SourceWorld w = m_SourceWorld w'" "m_Threshold w = m_Threshold w'"
    "m_Transform w = m_Transform w'" "poses w = poses w'"
    "m_ProjectionAngle w = m_ProjectionAngle w'"
    "m_FocalPointToIsocenterDistance w = m_FocalPointToIsocenterDistance w'"
    "m_GantryRotTransform w = m_GantryRotTransform w'"
    "m_CamShiftTransform w = m_CamShiftTransform w'"
    "m_CamRotTransform w = m_CamRotTransform w'"
    "m_ComposedTransform w = m_ComposedTransform w'"
proof -
  have "m_InverseTransform (geometry w) = m_InverseTransform (geometry w')"
    "m_SourcePoint (geometry w) = m_SourcePoint (geometry w')"
    "m_SourceWorld (geometry w) = m_SourceWorld (geometry w')"
    "m_Threshold (geometry w) = m_Threshold (geometry w')"
    "m_Transform (geometry w) = m_Transform (geometry w')"
    "poses (geometry w) = poses (geometry w')"
    "m_ProjectionAngle (geometry w) = m_ProjectionAngle (geometry w')"
    "m_FocalPointToIsocenterDistance (geometry w) = m_FocalPointToIsocenterDistance (geometry w')"
    "m_GantryRotTransform (geometry w) = m_GantryRotTransform (geometry w')"
    "m_CamShiftTransform (geometry w) = m_CamShiftTransform (geometry w')"
    "m_CamRotTransform (geometry w) = m_CamRotTransform (geometry w')"
    "m_ComposedTransform (geometry w) = m_ComposedTransform (geometry w')"
    using assms by simp_all
  then show "m_InverseTransform w = m_InverseTransform w'" "m_SourcePoint w = m_SourcePoint w'"
    "m_SourceWorld w = m_SourceWorld w'" "m_Threshold w = m_Threshold w'"
    "m_Transform w = m_Transform w'" "poses w = poses w'"
    "m_ProjectionAngle w = m_ProjectionAngle w'"
    "m_FocalPointToIsocenterDistance w = m_FocalPointToIsocenterDistance w'"
    "m_GantryRotTransform w = m_GantryRotTransform w'"
    "m_CamShiftTransform w = m_CamShiftTransform w'"
    "m_CamRotTransform w = m_CamRotTransform w'"
    "m_ComposedTransform w = m_ComposedTransform w'"
    by (simp_all add: geometry_def)
qed

lemma geometry_rebuild_cong:
  assumes "geometry w = geometry w'"
  shows "geometry (rebuild a w) = geometry (rebuild a w')"
  using geometry_fields [OF assms]
  by (simp add: geometry_def rebuild_def Modified_def Let_def)

lemma settled_cong: "geometry w = geometry w' \<Longrightarrow> settled a w \<Longrightarrow> settled a w'"
  using geometry_rebuild_cong [of w w' a] by (simp add: settled_def)


lemma SourceWorld_geometry:
  "geometry w = geometry w' \<Longrightarrow> SourceWorld_of ar w = SourceWorld_of ar w'"
  using geometry_fields [of w w'] by (simp add: SourceWorld_of_def)

lemma Initialize_Inr:
  "Initialize ar w = Inr w1 \<longleftrightarrow>
     (\<exists>a. m_Transform w = Some a \<and>
        w1 = (rebuild a w)\<lparr>m_SourceWorld := SourceWorld_of ar (rebuild a w)\<rparr>)"
  by (auto simp: Initialize_def ComputeInverseTransform_def SourceWorld_of_def
        split: option.splits)


lemma Evaluate_by_setup:
  "fst (Evaluate ar T vol p w) =
     (case Evaluate_setup ar vol p w of
        Inl e \<Rightarrow> Faults e
      | Inr su \<Rightarrow>
          (case traverse ar vol (m_Threshold w) (loop_consts su) (loop_start su) of
             None \<Rightarrow> Diverges
           | Some s \<Rightarrow> Returns (clamp_output T (d12 s))))"
  by (auto simp: Evaluate_def Evaluate_setup_def cast_ray_def path_sum_def Let_def
        split: option.splits sum.splits)


lemma mtimes_Modified:
  "mtimes_ok w \<Longrightarrow> clock w' = clock w \<Longrightarrow> poses w' = poses w \<Longrightarrow> mtimes_ok (Modified w')"
  by (auto simp: Modified_def mtimes_ok_def le_Suc_eq)




lemma setter_frame [simp]:
  "m_InverseTransform (SetFocalPointToIsocenterDistance d w) = m_InverseTransform w"
  "m_InverseTransform (SetProjectionAngle t w) = m_InverseTransform w"
  "m_InverseTransform (SetTransform b w) = m_InverseTransform w"
  "m_Transform (SetFocalPointToIsocenterDistance d w) = m_Transform w"
  "m_Transform (SetProjectionAngle t w) = m_Transform w"
  "m_Transform (SetTransform b w) = b"
  by (simp_all add: SetFocalPointToIsocenterDistance_def SetProjectionAngle_def
        SetTransform_def Modified_def)


lemma update_pose_frame [simp]: "m_Transform (update_pose a f w) = m_Transform w"
  by (simp add: update_pose_def)

lemma world_connected_Transform [simp]: "m_Transform world_connected = Some 0"
  by (simp add: world_connected_def)

lemma float_point_exact [simp]: "float_point exact p = p"
  by (cases p) simp

lemma SourceWorld_of_exact:
  "SourceWorld_of exact w = TransformPoint (m_InverseTransform w) (m_SourcePoint w)"
  by (simp add: SourceWorld_of_def)

lemma Initialize_world_connected: "Initialize exact world_connected = Inr world_init"
  by (simp add: Initialize_Inr world_init_def)

lemma mtimes_world_connected: "mtimes_ok world_connected"
  by (simp add: world_connected_def world_new_def SetTransform_def New_def Modified_def mtimes_ok_def identity_zyx_def)

lemma internals_world_connected: "internals_ok world_connected"
  by (simp add: world_connected_def world_new_def SetTransform_def New_def Modified_def internals_ok_def identity_zyx_def)

lemma world_connected_fields [simp]:
  "poses world_connected a = identity_zyx" "m_ProjectionAngle world_connected = 0"
  "m_FocalPointToIsocenterDistance world_connected = 1000" "m_SourcePoint world_connected = (0, 0, 0)"
  "clock world_connected = 2" "MTime world_connected = 2"
  by (simp_all add: world_connected_def world_new_def SetTransform_def New_def Modified_def)

lemma identity_zyx_pose: "identity_pose identity_zyx"
  by (simp add: identity_pose_def identity_zyx_def)

lemma world_init_SourceWorld:
  "SourceWorld_of exact world_init = (0, - 1000, 0)" "m_SourceWorld world_init = (0, - 1000, 0)"
  using source_at_identity(2) [OF internals_world_connected, of 0]
  by (simp_all add: world_init_def SourceWorld_of_def identity_zyx_pose)




lemma internals_rebuild: "internals_ok w \<Longrightarrow> internals_ok (rebuild a w)"
  by (simp add: internals_ok_def rebuild_def Modified_def Let_def)



section \<open>A ray through a column of four voxels\<close>

lemma world_init_fresh: "\<not> stale 0 world_init"
  by (simp add: world_init_def stale_def identity_zyx_def)

lemma world_init_Transform [simp]: "m_Transform world_init = Some 0"
  by (simp add: world_init_def)

lemma world_init_Threshold [simp]: "m_Threshold world_init = 0"
  by (simp add: world_init_def world_connected_def world_new_def SetTransform_def New_def Modified_def)

lemma Center_identity_zyx: "Center identity_zyx = (0, 0, 0)"
  by (simp add: identity_zyx_def)

lemma world_init_point: "TransformPoint (m_InverseTransform world_init) (0, 0, - 2000) = (0, 1000, 0)"
proof -
  have "TransformPoint (m_ComposedTransform (rebuild 0 world_connected)) (0, 1000, 0) = (0, 0, - 2000)"
    by (simp add: rebuild_composed [OF internals_world_connected] identity_pose_point identity_zyx_pose
        gantry_rotation_def source_shift_def camera_rotation_eq Center_identity_zyx)
  then have "TransformPoint (m_InverseTransform (rebuild 0 world_connected)) (0, 0, - 2000) = (0, 1000, 0)"
    using rebuild_inverse(1) [of 0 world_connected "(0, 1000, 0)"] by simp
  then show ?thesis
    by (simp add: world_init_def)
qed

lemma range_slab:
  "alpha_range exact vol_slab (0, - 1000, 0) (0, 1000, 0) = Inr (1 / 2, 251 / 500)"
  by (simp add: alpha_range_def axis_range_def vol_slab_def)

lemma spacing_slab: "ctPixelSpacing vol_slab = (1, 1, 1)"
  by (simp add: vol_slab_def)

lemma setup_slab:
  "ray_setup_of exact vol_slab (0, - 1000, 0) (0, 1000, 0) =
     Inr \<lparr>alphaMin = 1 / 2, loop_consts = consts_slab, loop_start = slab_state (1 / 2) (1 / 2) 0 0\<rparr>"
  by (subst ray_setup_ok [OF _ _ _ spacing_slab range_slab])
     (simp_all add: start_alpha_def plane_alpha_def cont_index_def increment_def
        axis_direction_def consts_slab_def slab_state_def)

lemma Evaluate_setup_slab:
  "Evaluate_setup exact vol_slab (0, 0, - 2000) world_init =
     Inr \<lparr>alphaMin = 1 / 2, loop_consts = consts_slab, loop_start = slab_state (1 / 2) (1 / 2) 0 0\<rparr>"
  by (simp add: Evaluate_setup_def refresh_fresh [OF world_init_fresh] world_init_SourceWorld world_init_point
        setup_slab)

lemma step_slab:
  "aY < 2 \<Longrightarrow> step exact vol_slab 0 consts_slab (slab_state aY aC j d) =
     slab_state (aY + 1 / 2000) aY (j + 1)
       (if 0 \<le> j + 1 \<and> j + 1 < 4 then d + (aY - aC) * 100 else d)"
  by (simp add: step_def advance_def accumulate_def in_volume_def consts_slab_def
        slab_state_def vol_slab_def algebra_simps)

lemma iterate_slab:
  "iterate 1 exact vol_slab 0 consts_slab (slab_state (1 / 2) (1 / 2) 0 0)
     = slab_state (1001 / 2000) (1 / 2) 1 0"
  "iterate 2 exact vol_slab 0 consts_slab (slab_state (1 / 2) (1 / 2) 0 0)
     = slab_state (1002 / 2000) (1001 / 2000) 2 (1 / 20)"
  "iterate 3 exact vol_slab 0 consts_slab (slab_state (1 / 2) (1 / 2) 0 0)
     = slab_state (1003 / 2000) (1002 / 2000) 3 (1 / 10)"
  "iterate 4 exact vol_slab 0 consts_slab (slab_state (1 / 2) (1 / 2) 0 0)
     = slab_state (1004 / 2000) (1003 / 2000) 4 (1 / 10)"
  "iterate 5 exact vol_slab 0 consts_slab (slab_state (1 / 2) (1 / 2) 0 0)
     = slab_state (1005 / 2000) (1004 / 2000) 5 (1 / 10)"
  by (simp_all add: eval_nat_numeral step_slab)

lemma traverse_iterate:
  "(\<And>k. k < n \<Longrightarrow> alphaCmin (iterate k ar vol thr c s) < alphaMax c) \<Longrightarrow>
     traverse ar vol thr c s = traverse ar vol thr c (iterate n ar vol thr c s)"
proof (induction n arbitrary: s)
  case 0
  then show ?case by simp
next
  case (Suc n)
  have g: "alphaCmin s < alphaMax c"
    using Suc.prems [of 0] by simp
  have "traverse ar vol thr c (step ar vol thr c s)
      = traverse ar vol thr c (iterate n ar vol thr c (step ar vol thr c s))"
  proof (rule Suc.IH)
    fix k assume "k < n"
    then show "alphaCmin (iterate k ar vol thr c (step ar vol thr c s)) < alphaMax c"
      using Suc.prems [of "Suc k"] by simp
  qed
  then show ?case
    using traverse_unfold [OF g] by simp
qed

lemma slab_guards:
  "k < 5 \<Longrightarrow> alphaCmin (iterate k exact vol_slab 0 consts_slab (slab_state (1 / 2) (1 / 2) 0 0))
     < alphaMax consts_slab"
proof -
  assume "k < 5"
  then consider "k = 0" | "k = 1" | "k = 2" | "k = 3" | "k = 4"
    by linarith
  then show ?thesis
    by cases (simp_all add: eval_nat_numeral step_slab, simp_all add: slab_state_def consts_slab_def)
qed

lemma traverse_slab:
  "traverse exact vol_slab 0 consts_slab (slab_state (1 / 2) (1 / 2) 0 0)
     = Some (slab_state (1005 / 2000) (1004 / 2000) 5 (1 / 10))"
proof -
  have "traverse exact vol_slab 0 consts_slab (slab_state (1 / 2) (1 / 2) 0 0)
      = traverse exact vol_slab 0 consts_slab
          (iterate 5 exact vol_slab 0 consts_slab (slab_state (1 / 2) (1 / 2) 0 0))"
    by (rule traverse_iterate) (rule slab_guards)
  also have "\<dots> = Some (slab_state (1005 / 2000) (1004 / 2000) 5 (1 / 10))"
    unfolding iterate_slab by (rule traverse_done) (simp add: slab_state_def consts_slab_def)
  finally show ?thesis .
qed

lemma one_le_DBL_MAX: "1 \<le> DBL_MAX"
proof -
  have "(1::real) \<le> 2 ^ 53 - 1" by simp
  moreover have "(1::real) \<le> 2 ^ 971" by (rule one_le_power) simp
  ultimately have "(1::real) * 1 \<le> (2 ^ 53 - 1) * 2 ^ 971"
    by (intro mult_mono) simp_all
  then show ?thesis by (simp add: DBL_MAX_def)
qed

lemma clamp_double: "\<bar>x\<bar> \<le> DBL_MAX \<Longrightarrow> clamp_output double_type (Fin x) = Fin x"
  by (auto simp: clamp_output_def double_type_def)

lemma clamp_double_unit: "\<bar>x\<bar> \<le> 1 \<Longrightarrow> clamp_output double_type (Fin x) = Fin x"
  using one_le_DBL_MAX by (intro clamp_double) simp

section \<open>A translated pose\<close>


lemma world_init_at_simps [simp]:
  "m_Transform (world_init_at ar t) = Some 0" "m_Threshold (world_init_at ar t) = 0"
  "m_SourcePoint (world_init_at ar t) = (0, 0, 0)"
  by (simp_all add: world_init_at_def Let_def update_pose_def world_connected_def world_new_def SetTransform_def
        New_def Modified_def)

lemma world_init_at_fresh: "\<not> stale 0 (world_init_at ar t)"
  by (simp add: world_init_at_def Let_def stale_def update_pose_def)

lemma internals_update_pose: "internals_ok w \<Longrightarrow> internals_ok (update_pose a f w)"
  by (simp add: internals_ok_def update_pose_def)

lemma translated_point:
  assumes "AngleX e = 0" "AngleY e = 0" "AngleZ e = 0" "Center e = (0, 0, 0)"
  shows "TransformPoint (affine_of e) q = vadd q (Translation e)"
proof -
  obtain t0 t1 t2 where tr: "Translation e = (t0, t1, t2)" by (metis prod_cases3)
  obtain x y z where q: "q = (x, y, z)" by (metis prod_cases3)
  show ?thesis
    using assms
    by (simp add: TransformPoint_def affine_of_def euler_matrix_def euler_offset_def tr q)
qed

lemma world_init_at_point:
  "TransformPoint (m_InverseTransform (world_init_at ar' (t0, t1, t2))) (x, y, z)
     = (x - t0, - z - 1000 - t1, y - t2)"
proof -
  let ?w = "update_pose 0 (\<lambda>e. e\<lparr>Translation := (t0, t1, t2)\<rparr>) world_connected"
  have i: "internals_ok ?w"
    by (rule internals_update_pose [OF internals_world_connected])
  have p: "poses ?w 0 = identity_zyx\<lparr>Translation := (t0, t1, t2), pose_MTime := 3\<rparr>"
    by (simp add: update_pose_def)
  have "TransformPoint (m_ComposedTransform (rebuild 0 ?w)) (x - t0, - z - 1000 - t1, y - t2)
      = (x, y, z)"
    unfolding rebuild_composed [OF i] p
    by (simp add: translated_point identity_zyx_def gantry_rotation_def source_shift_def
        camera_rotation_eq update_pose_def)
  then have "TransformPoint (m_InverseTransform (rebuild 0 ?w)) (x, y, z)
      = (x - t0, - z - 1000 - t1, y - t2)"
    using rebuild_inverse(1) [of 0 ?w "(x - t0, - z - 1000 - t1, y - t2)"] by simp
  then show ?thesis
    by (simp add: world_init_at_def Let_def)
qed

lemma world_init_at_SourceWorld:
  "SourceWorld_of ar (world_init_at ar' (t0, t1, t2)) = float_point ar (- t0, - 1000 - t1, - t2)"
  using world_init_at_point [of ar' t0 t1 t2 0 0 0] by (simp add: SourceWorld_of_def)

lemma Evaluate_world_init_at:
  "fst (Evaluate ar T vol (x, y, z) (world_init_at ar' (t0, t1, t2))) =
     cast_ray ar T vol 0 (float_point ar (- t0, - 1000 - t1, - t2))
       (float_point ar (x - t0, - z - 1000 - t1, y - t2))"
  by (simp add: Evaluate_outcome refresh_fresh [OF world_init_at_fresh] world_init_at_SourceWorld world_init_at_point)

lemma Evaluate_setup_world_init_at:
  "Evaluate_setup ar vol (x, y, z) (world_init_at ar' (t0, t1, t2)) =
     ray_setup_of ar vol (float_point ar (- t0, - 1000 - t1, - t2))
       (float_point ar (x - t0, - z - 1000 - t1, y - t2))"
  by (simp add: Evaluate_setup_def refresh_fresh [OF world_init_at_fresh] world_init_at_SourceWorld world_init_at_point)

lemma world_init_any_point:
  "TransformPoint (m_InverseTransform world_init) (x, y, z) = (x, - z - 1000, y)"
proof -
  have "TransformPoint (m_ComposedTransform (rebuild 0 world_connected)) (x, - z - 1000, y) = (x, y, z)"
    by (simp add: rebuild_composed [OF internals_world_connected] identity_pose_point identity_zyx_pose
        gantry_rotation_def source_shift_def camera_rotation_eq Center_identity_zyx)
  then have "TransformPoint (m_InverseTransform (rebuild 0 world_connected)) (x, y, z) = (x, - z - 1000, y)"
    using rebuild_inverse(1) [of 0 world_connected "(x, - z - 1000, y)"] by simp
  then show ?thesis
    by (simp add: world_init_def)
qed

lemma world_init_SourcePoint [simp]: "m_SourcePoint world_init = (0, 0, 0)"
  by (simp add: world_init_def)

lemma Evaluate_setup_world_init:
  "Evaluate_setup ar vol (x, y, z) world_init =
     ray_setup_of ar vol (float_point ar (0, - 1000, 0)) (float_point ar (x, - z - 1000, y))"
  using world_init_any_point [of 0 0 0]
  by (simp add: Evaluate_setup_def refresh_fresh [OF world_init_fresh] SourceWorld_of_def
        world_init_any_point)

section \<open>The iterations of the loop\<close>

lemma advance_smallest:
  "(case cIndex s of (i, j, k) \<Rightarrow>
      (alphaX (advance ar c s), alphaY (advance ar c s), alphaZ (advance ar c s),
       cIndex (advance ar c s)) =
      (case smallest_axis s of
         AxisX \<Rightarrow> (rs ar (alphaX s + alphaUx c), alphaY s, alphaZ s, (i + iU c, j, k))
       | AxisY \<Rightarrow> (alphaX s, rs ar (alphaY s + alphaUy c), alphaZ s, (i, j + jU c, k))
       | AxisZ \<Rightarrow> (alphaX s, alphaY s, rs ar (alphaZ s + alphaUz c), (i, j, k + kU c))))"
  by (cases "cIndex s") (auto simp: advance_def smallest_axis_def min3_def min_def)

lemma step_d12:
  "d12 (step ar vol thr c s) =
     (if in_volume vol (cIndex (step ar vol thr c s)) \<and>
         fless (Fin thr) (to_float ar (GetPixel vol (cIndex (step ar vol thr c s))))
      then narrow ar (fadd (to_double ar) (d12 s)
             (fmul (to_double ar) (to_float ar (alphaCmin (step ar vol thr c s) - alphaCmin s))
                (fsub (to_double ar) (to_float ar (GetPixel vol (cIndex (step ar vol thr c s))))
                   (Fin thr))))
      else d12 s)"
  by (cases "cIndex s") (auto simp: step_def accumulate_def advance_def contribution_def Let_def)

lemma step_d12_finite:
  assumes "d12 s = Fin d" and "finite_sum ar d (alphaCmin (step ar vol thr c s) - alphaCmin s)
      (GetPixel vol (cIndex (step ar vol thr c s))) thr"
  shows "d12 (step ar vol thr c s) =
     (if in_volume vol (cIndex (step ar vol thr c s)) \<and>
         thr < rs ar (GetPixel vol (cIndex (step ar vol thr c s)))
      then Fin (rs ar (rd ar (d +
             rd ar (rs ar (alphaCmin (step ar vol thr c s) - alphaCmin s) *
                    rd ar (rs ar (GetPixel vol (cIndex (step ar vol thr c s))) - thr)))))
      else Fin d)"
  using assms
  by (simp add: step_d12 finite_sum_def to_float_def to_double_def stored_def fsub_def Let_def)

lemma setup_directions:
  assumes "ray_setup_of ar vol S P = Inr su"
  shows "\<bar>iU (loop_consts su)\<bar> = 1 \<and> \<bar>jU (loop_consts su)\<bar> = 1 \<and> \<bar>kU (loop_consts su)\<bar> = 1"
proof -
  obtain s0 s1 s2 p0 p1 p2 where SP: "S = (s0, s1, s2)" "P = (p0, p1, p2)"
    by (cases S; cases P) auto
  obtain sp0 sp1 sp2 where spv: "ctPixelSpacing vol = (sp0, sp1, sp2)"
    by (cases "ctPixelSpacing vol") auto
  have sp: "sp0 \<noteq> 0" "sp1 \<noteq> 0" "sp2 \<noteq> 0"
    using ray_setup_spacing [OF assms spv] by simp_all
  obtain a b where range: "alpha_range ar vol (s0, s1, s2) (p0, p1, p2) = Inr (a, b)"
    using alpha_range_never_faults [of ar vol "(s0, s1, s2)" "(p0, p1, p2)"] by auto
  have ix: "index_ok ar s0 (rs ar (p0 - s0)) a sp0" "index_ok ar s1 (rs ar (p1 - s1)) a sp1"
    "index_ok ar s2 (rs ar (p2 - s2)) a sp2"
    using ray_setup_Inr [OF assms [unfolded SP] spv range] by simp_all
  from assms ray_setup_ok [OF sp spv range ix] show ?thesis
    by (auto simp: SP axis_direction_def)
qed

lemma Evaluate_setup_Inr:
  "Evaluate_setup ar vol p w = Inr su \<Longrightarrow>
     \<exists>S P. ray_setup_of ar vol S P = Inr su"
proof (cases "m_Transform w")
  case None
  assume "Evaluate_setup ar vol p w = Inr su"
  with None show ?thesis by (simp add: Evaluate_setup_def)
next
  case (Some a)
  assume "Evaluate_setup ar vol p w = Inr su"
  with Some have "ray_setup_of ar vol (SourceWorld_of ar (refresh a w))
      (float_point ar (TransformPoint (m_InverseTransform (refresh a w)) p)) = Inr su"
    by (simp add: Evaluate_setup_def)
  then show ?thesis by blast
qed

lemma step_smallest:
  "(case cIndex s of (i, j, k) \<Rightarrow>
      (alphaX (step ar vol thr c s), alphaY (step ar vol thr c s), alphaZ (step ar vol thr c s),
       cIndex (step ar vol thr c s)) =
      (case smallest_axis s of
         AxisX \<Rightarrow> (rs ar (alphaX s + alphaUx c), alphaY s, alphaZ s, (i + iU c, j, k))
       | AxisY \<Rightarrow> (alphaX s, rs ar (alphaY s + alphaUy c), alphaZ s, (i, j + jU c, k))
       | AxisZ \<Rightarrow> (alphaX s, alphaY s, rs ar (alphaZ s + alphaUz c), (i, j, k + kU c))))"
  using advance_smallest [where s = s and ar = ar and c = c] by (simp add: step_def)

lemma setup_start:
  "Evaluate_setup ar vol p w = Inr su \<Longrightarrow>
     alphaCmin (loop_start su) = min3 (loop_start su) \<and>
     \<bar>iU (loop_consts su)\<bar> = 1 \<and> \<bar>jU (loop_consts su)\<bar> = 1 \<and> \<bar>kU (loop_consts su)\<bar> = 1"
  using start_alphaCmin setup_directions by (blast dest: Evaluate_setup_Inr)

text \<open>
  C1, amended. \<^verbatim>\<open>Evaluate\<close> returns the clamped value of \<^verbatim>\<open>d12\<close> at the end of the
  traversal loop. The loop runs while \<^verbatim>\<open>alphaCmin\<close> is strictly less than \<open>alphaMax\<close>;
  \<^verbatim>\<open>alphaCmin\<close> is the minimum of the three running values at loop entry, and after an
  iteration it is the minimum of the three running values as they were before that
  iteration. Each iteration advances exactly one axis, the one with the smallest running
  value (x before y before z on ties): its step direction, 1 or -1, is added to its voxel
  index and its increment to its running value. The contribution (new \<^verbatim>\<open>alphaCmin\<close> -
  old \<^verbatim>\<open>alphaCmin\<close>) * (intensity - threshold) is added to \<^verbatim>\<open>d12\<close> exactly when the
  resulting index is inside the volume and the intensity there exceeds the threshold.
  The roundings \<open>rs\<close> and \<open>rd\<close> stand where the source computes in \<^verbatim>\<open>float\<close> and
  \<^verbatim>\<open>double\<close>; with \<open>exact\<close> they disappear. The sum is stated twice: in the
  arithmetic of finite values, infinities and NaN, and, when it stays in the finite
  range (\<open>finite_sum\<close>), as a real number.
\<close>

theorem traversal_iteration:
  "fst (Evaluate ar T vol p w) =
     (case Evaluate_setup ar vol p w of
        Inl e \<Rightarrow> Faults e
      | Inr su \<Rightarrow>
          (case traverse ar vol (m_Threshold w) (loop_consts su) (loop_start su) of
             None \<Rightarrow> Diverges
           | Some s \<Rightarrow> Returns (clamp_output T (d12 s)))) \<and>
   (Evaluate_setup ar vol p w = Inr su \<longrightarrow>
     alphaCmin (loop_start su) = min3 (loop_start su) \<and>
     \<bar>iU (loop_consts su)\<bar> = 1 \<and> \<bar>jU (loop_consts su)\<bar> = 1 \<and> \<bar>kU (loop_consts su)\<bar> = 1) \<and>
   traverse ar vol thr c s =
     (if alphaCmin s < alphaMax c then traverse ar vol thr c (step ar vol thr c s) else Some s) \<and>
   alphaCmin (step ar vol thr c s) = min3 s \<and>
   (case cIndex s of (i, j, k) \<Rightarrow>
      (alphaX (step ar vol thr c s), alphaY (step ar vol thr c s), alphaZ (step ar vol thr c s),
       cIndex (step ar vol thr c s)) =
      (case smallest_axis s of
         AxisX \<Rightarrow> (rs ar (alphaX s + alphaUx c), alphaY s, alphaZ s, (i + iU c, j, k))
       | AxisY \<Rightarrow> (alphaX s, rs ar (alphaY s + alphaUy c), alphaZ s, (i, j + jU c, k))
       | AxisZ \<Rightarrow> (alphaX s, alphaY s, rs ar (alphaZ s + alphaUz c), (i, j, k + kU c)))) \<and>
   d12 (step ar vol thr c s) =
     (if in_volume vol (cIndex (step ar vol thr c s)) \<and>
         fless (Fin thr) (to_float ar (GetPixel vol (cIndex (step ar vol thr c s))))
      then narrow ar (fadd (to_double ar) (d12 s)
             (fmul (to_double ar) (to_float ar (alphaCmin (step ar vol thr c s) - alphaCmin s))
                (fsub (to_double ar) (to_float ar (GetPixel vol (cIndex (step ar vol thr c s))))
                   (Fin thr))))
      else d12 s) \<and>
   (d12 s = Fin d \<and>
    finite_sum ar d (alphaCmin (step ar vol thr c s) - alphaCmin s)
      (GetPixel vol (cIndex (step ar vol thr c s))) thr \<longrightarrow>
    d12 (step ar vol thr c s) =
      (if in_volume vol (cIndex (step ar vol thr c s)) \<and>
          thr < rs ar (GetPixel vol (cIndex (step ar vol thr c s)))
       then Fin (rs ar (rd ar (d +
              rd ar (rs ar (alphaCmin (step ar vol thr c s) - alphaCmin s) *
                     rd ar (rs ar (GetPixel vol (cIndex (step ar vol thr c s))) - thr)))))
       else Fin d))"
  using Evaluate_by_setup [of ar T vol p w] setup_start [of ar vol p w su]
    traverse.simps [of ar vol thr c s] alphaCmin_step [of ar vol thr c s]
    step_smallest [where s = s and ar = ar and vol = vol and thr = thr and c = c]
    step_d12 [of ar vol thr c s] step_d12_finite [of s d ar vol thr c]
  by blast

text \<open>
  C1, the claim as stated, fails: the loop does not run while the minimum of the three
  running values is below \<open>alphaMax\<close>. In exact arithmetic, for the ray that
  \<^verbatim>\<open>Evaluate\<close> casts at the point \<open>(0, 0, -2000)\<close> after \<^verbatim>\<open>Initialize\<close> with the
  default configuration, through a volume of 1 x 4 x 1 voxels, the loop reaches after
  four iterations a state whose smallest running value is \<open>alphaMax\<close> itself, and runs a
  fifth time, because \<^verbatim>\<open>alphaCmin\<close> still holds the smallest running value of the
  iteration before.
\<close>

theorem loop_guard_counterexample:
  "Evaluate_setup exact vol_slab (0, 0, - 2000) world_init =
     Inr \<lparr>alphaMin = 1 / 2, loop_consts = consts_slab,
          loop_start = slab_state (1 / 2) (1 / 2) 0 0\<rparr> \<and>
   iterate 4 exact vol_slab 0 consts_slab (slab_state (1 / 2) (1 / 2) 0 0) =
     slab_state (1004 / 2000) (1003 / 2000) 4 (1 / 10) \<and>
   traverse exact vol_slab 0 consts_slab (slab_state (1 / 2) (1 / 2) 0 0) =
     traverse exact vol_slab 0 consts_slab (slab_state (1004 / 2000) (1003 / 2000) 4 (1 / 10)) \<and>
   \<not> min3 (slab_state (1004 / 2000) (1003 / 2000) 4 (1 / 10)) < alphaMax consts_slab \<and>
   alphaCmin (slab_state (1004 / 2000) (1003 / 2000) 4 (1 / 10)) < alphaMax consts_slab \<and>
   traverse exact vol_slab 0 consts_slab (slab_state (1004 / 2000) (1003 / 2000) 4 (1 / 10)) =
     traverse exact vol_slab 0 consts_slab
       (step exact vol_slab 0 consts_slab (slab_state (1004 / 2000) (1003 / 2000) 4 (1 / 10)))"
proof -
  have "traverse exact vol_slab 0 consts_slab (slab_state (1 / 2) (1 / 2) 0 0)
      = traverse exact vol_slab 0 consts_slab
          (iterate 4 exact vol_slab 0 consts_slab (slab_state (1 / 2) (1 / 2) 0 0))"
    by (rule traverse_iterate) (simp add: slab_guards)
  moreover have g: "alphaCmin (slab_state (1004 / 2000) (1003 / 2000) 4 (1 / 10))
      < alphaMax consts_slab"
    by (simp add: slab_state_def consts_slab_def)
  moreover have "\<not> min3 (slab_state (1004 / 2000) (1003 / 2000) 4 (1 / 10)) < alphaMax consts_slab"
    by (simp add: slab_state_def consts_slab_def min3_def)
  ultimately show ?thesis
    using Evaluate_setup_slab iterate_slab(4) traverse_unfold [OF g] by simp
qed

theorem traversal_iteration_witness:
  "Evaluate_setup exact vol_slab (0, 0, - 2000) world_init =
     Inr \<lparr>alphaMin = 1 / 2, loop_consts = consts_slab,
          loop_start = slab_state (1 / 2) (1 / 2) 0 0\<rparr> \<and>
   alphaCmin (slab_state (1 / 2) (1 / 2) 0 0) = min3 (slab_state (1 / 2) (1 / 2) 0 0) \<and>
   \<bar>iU consts_slab\<bar> = 1 \<and> \<bar>jU consts_slab\<bar> = 1 \<and> \<bar>kU consts_slab\<bar> = 1 \<and>
   alphaCmin (step exact vol_slab 0 consts_slab (slab_state (1001 / 2000) (1 / 2) 1 0)) =
     min3 (slab_state (1001 / 2000) (1 / 2) 1 0) \<and>
   d12 (slab_state (1001 / 2000) (1 / 2) 1 0) = Fin 0 \<and>
   finite_sum exact 0
     (alphaCmin (step exact vol_slab 0 consts_slab (slab_state (1001 / 2000) (1 / 2) 1 0)) -
      alphaCmin (slab_state (1001 / 2000) (1 / 2) 1 0))
     (GetPixel vol_slab
        (cIndex (step exact vol_slab 0 consts_slab (slab_state (1001 / 2000) (1 / 2) 1 0)))) 0 \<and>
   d12 (step exact vol_slab 0 consts_slab (slab_state (1001 / 2000) (1 / 2) 1 0)) = Fin (1 / 20) \<and>
   fst (Evaluate exact double_type vol_slab (0, 0, - 2000) world_init)
     = Returns (Fin (1 / 10))"
proof -
  let ?su = "\<lparr>alphaMin = 1 / 2, loop_consts = consts_slab,
          loop_start = slab_state (1 / 2) (1 / 2) 0 0\<rparr>"
  let ?s = "slab_state (1001 / 2000) (1 / 2) 1 0"
  note t = traversal_iteration [where ar = exact and T = double_type and vol = vol_slab
      and p = "(0, 0, - 2000)" and w = world_init and su = ?su and thr = 0 and c = consts_slab
      and s = ?s and d = 0]
  have h: "Evaluate_setup exact vol_slab (0, 0, - 2000) world_init = Inr ?su"
    by (rule Evaluate_setup_slab)
  have 1: "fst (Evaluate exact double_type vol_slab
                (0, 0, - 2000) world_init) = Returns (Fin (1 / 10))"
    using t [THEN conjunct1] h traverse_slab
    by (simp add: clamp_double_unit slab_state_def)
  have 2: "alphaCmin (loop_start ?su) = min3 (loop_start ?su) \<and>
     \<bar>iU (loop_consts ?su)\<bar> = 1 \<and> \<bar>jU (loop_consts ?su)\<bar> = 1 \<and> \<bar>kU (loop_consts ?su)\<bar> = 1"
    using t [THEN conjunct2, THEN conjunct1] h by (rule mp)
  have 3: "alphaCmin (step exact vol_slab 0 consts_slab ?s) = min3 ?s"
    using t [THEN conjunct2, THEN conjunct2, THEN conjunct2, THEN conjunct1] .
  have a: "d12 ?s = Fin 0 \<and>
      finite_sum exact 0 (alphaCmin (step exact vol_slab 0 consts_slab ?s) - alphaCmin ?s)
        (GetPixel vol_slab (cIndex (step exact vol_slab 0 consts_slab ?s))) 0"
    by (simp add: slab_state_def finite_sum_def)
  have "d12 (step exact vol_slab 0 consts_slab ?s) =
      (if in_volume vol_slab (cIndex (step exact vol_slab 0 consts_slab ?s)) \<and>
          0 < rs exact (GetPixel vol_slab (cIndex (step exact vol_slab 0 consts_slab ?s)))
       then Fin (rs exact (rd exact (0 +
              rd exact (rs exact (alphaCmin (step exact vol_slab 0 consts_slab ?s) - alphaCmin ?s) *
                     rd exact (rs exact (GetPixel vol_slab
                        (cIndex (step exact vol_slab 0 consts_slab ?s))) - 0)))))
       else Fin 0)"
    using t [THEN conjunct2, THEN conjunct2, THEN conjunct2, THEN conjunct2, THEN conjunct2,
        THEN conjunct2] a
    by (rule mp)
  then have 4: "d12 (step exact vol_slab 0 consts_slab ?s) = Fin (1 / 20)"
    by (simp add: step_slab) (simp add: slab_state_def in_volume_def vol_slab_def)
  from h 1 2 3 4 a show ?thesis
    by simp
qed

section \<open>The parametric range, the clamping and the divisions\<close>

text \<open>
  C3. The parametric range of the ray inside the volume is computed by the slab method.
  Per axis, with ray component \<open>r\<close>: when \<open>r\<close> is not zero, the interval runs from the
  smaller to the larger of the parametric values of the two bounding planes \<open>0\<close> and
  \<open>size * spacing\<close> (\<open>slab_interval\<close>, \<open>plane_alpha\<close>, \<open>extent\<close>); when \<open>r\<close> is zero it is the
  sentinel interval \<open>(-2, 2)\<close>. \<open>alphaMin\<close> is the largest of the three lower ends and
  \<open>alphaMax\<close> the smallest of the three upper ends. In exact arithmetic the parametric
  value of a plane \<open>c\<close> is the \<open>alpha\<close> with \<open>s + alpha * r = c\<close>, and the second plane is
  \<open>size * spacing\<close>. The computation never faults.
\<close>

theorem alpha_range_slab_method:
  "alpha_range ar \<lparr>sizeCT = (n0, n1, n2), ctPixelSpacing = (sp0, sp1, sp2), GetPixel = g\<rparr>
       (s0, s1, s2) (p0, p1, p2) =
     Inr (Max {fst (slab_interval ar s0 (rs ar (p0 - s0)) (extent ar n0 sp0)),
               fst (slab_interval ar s1 (rs ar (p1 - s1)) (extent ar n1 sp1)),
               fst (slab_interval ar s2 (rs ar (p2 - s2)) (extent ar n2 sp2))},
          Min {snd (slab_interval ar s0 (rs ar (p0 - s0)) (extent ar n0 sp0)),
               snd (slab_interval ar s1 (rs ar (p1 - s1)) (extent ar n1 sp1)),
               snd (slab_interval ar s2 (rs ar (p2 - s2)) (extent ar n2 sp2))}) \<and>
   slab_interval ar s r c =
     (if r = 0 then (- 2, 2)
      else (min (plane_alpha ar s r 0) (plane_alpha ar s r c),
            max (plane_alpha ar s r 0) (plane_alpha ar s r c))) \<and>
   s + plane_alpha exact s r c * r = (if r = 0 then s else c) \<and>
   extent exact n sp = real n * sp \<and>
   rs exact (p - s) = p - s"
  using alpha_range_eq [of ar n0 n1 n2 sp0 sp1 sp2 g s0 s1 s2 p0 p1 p2]
    plane_alpha_exact [of s r c]
  by (simp add: slab_interval_def extent_def)

lemma narrow_float_val: "float_val ar (narrow ar v)"
  by (cases v) (simp_all add: to_float_def stored_def Let_def)

lemma step_float_val: "float_val ar (d12 s) \<Longrightarrow> float_val ar (d12 (step ar vol thr c s))"
  by (simp add: step_d12 narrow_float_val)

lemma traverse_float_val:
  assumes t: "traverse ar vol thr c s = Some s'"
  shows "float_val ar (d12 s) \<longrightarrow> float_val ar (d12 s')"
proof (rule traverse.raw_induct
    [where P = "\<lambda>ar vol thr c s s'. float_val ar (d12 s) \<longrightarrow> float_val ar (d12 s')", OF _ t])
  fix f a v th c' s1 s2
  assume IH: "\<And>a v th c s s'. f a v th c s = Some s' \<Longrightarrow>
                float_val a (d12 s) \<longrightarrow> float_val a (d12 s')"
    and eq: "(if alphaCmin s1 < alphaMax c' then f a v th c' (step a v th c' s1) else Some s1)
               = Some s2"
  show "float_val a (d12 s1) \<longrightarrow> float_val a (d12 s2)"
  proof (cases "alphaCmin s1 < alphaMax c'")
    case True
    with eq have "f a v th c' (step a v th c' s1) = Some s2" by simp
    from IH [OF this] show ?thesis
      using step_float_val [of a s1 v th c'] by blast
  next
    case False
    with eq show ?thesis by simp
  qed
qed

lemma FLT_le_DBL: "FLT_MAX \<le> DBL_MAX"
proof -
  have "(2 ^ 24 - 1 :: real) \<le> 2 ^ 53 - 1" by simp
  moreover have "(2 :: real) ^ 104 \<le> 2 ^ 971" by (rule power_increasing) simp_all
  ultimately have "(2 ^ 24 - 1 :: real) * 2 ^ 104 \<le> (2 ^ 53 - 1) * 2 ^ 971"
    by (intro mult_mono) simp_all
  then show ?thesis by (simp add: FLT_MAX_def DBL_MAX_def)
qed

lemma Evaluate_setup_d12: "Evaluate_setup ar vol p w = Inr su \<Longrightarrow> d12 (loop_start su) = Fin 0"
  using start_d12 by (blast dest: Evaluate_setup_Inr)

lemma ieee_sum_in_double:
  assumes "Evaluate_setup ieee vol p w = Inr su"
    and "traverse ieee vol thr (loop_consts su) (loop_start su) = Some s"
    and "d12 s = Fin x"
  shows "clamp_output double_type (Fin x) = Fin x"
proof -
  have "float_val ieee (d12 (loop_start su))"
    by (simp add: Evaluate_setup_d12 [OF assms(1)] FLT_MAX_def)
  with traverse_float_val [OF assms(2)] assms(3) have "\<bar>x\<bar> \<le> FLT_MAX"
    by simp
  with FLT_le_DBL show ?thesis
    by (intro clamp_double) simp
qed

text \<open>
  C6. When the loop of an \<^verbatim>\<open>Evaluate\<close> call ends with the sum \<open>d12 s\<close>, the call returns
  the minimum of the output type when the sum is below it, the maximum when the sum is
  above it, and the sum itself otherwise. The sum is a \<^verbatim>\<open>float\<close>: a finite value, an
  infinity when the accumulation has overflowed, or a NaN. Plus infinity is above the
  maximum and gives the maximum, minus infinity gives the minimum, a NaN is neither
  below nor above and is returned as it is; unless the sum is a NaN, the value returned
  is finite and in the range of the output type. With binary32 and binary64 and the
  output type \<^verbatim>\<open>double\<close>, a finite sum is always returned as it is: the two clamping
  branches are taken exactly when the sum is infinite. (The minimum of the output type
  is at most its maximum.)
\<close>

theorem Evaluate_clamps:
  assumes "Evaluate_setup ar vol p w = Inr su"
    and "traverse ar vol (m_Threshold w) (loop_consts su) (loop_start su) = Some s"
    and "minOutputValue T \<le> maxOutputValue T"
  shows "\<exists>v. fst (Evaluate ar T vol p w) = Returns v \<and>
     (fless (d12 s) (Fin (minOutputValue T)) \<longrightarrow> v = Fin (minOutputValue T)) \<and>
     (fless (Fin (maxOutputValue T)) (d12 s) \<longrightarrow> v = Fin (maxOutputValue T)) \<and>
     (\<not> fless (d12 s) (Fin (minOutputValue T)) \<and> \<not> fless (Fin (maxOutputValue T)) (d12 s) \<longrightarrow>
        v = d12 s) \<and>
     (d12 s = PInf \<longrightarrow> v = Fin (maxOutputValue T)) \<and>
     (d12 s = NInf \<longrightarrow> v = Fin (minOutputValue T)) \<and>
     (d12 s = NaN \<longrightarrow> v = NaN) \<and>
     (\<forall>x. d12 s = Fin x \<longrightarrow>
        v = Fin (if x < minOutputValue T then minOutputValue T
                 else if maxOutputValue T < x then maxOutputValue T else x)) \<and>
     (d12 s \<noteq> NaN \<longrightarrow> (\<exists>x. v = Fin x \<and> minOutputValue T \<le> x \<and> x \<le> maxOutputValue T)) \<and>
     (ar = ieee \<and> T = double_type \<longrightarrow> (\<forall>x. d12 s = Fin x \<longrightarrow> v = Fin x))"
proof -
  have r: "fst (Evaluate ar T vol p w) = Returns (clamp_output T (d12 s))"
    using assms(1,2) by (simp add: Evaluate_by_setup)
  have i: "ar = ieee \<and> T = double_type \<longrightarrow> (\<forall>x. d12 s = Fin x \<longrightarrow> clamp_output T (d12 s) = Fin x)"
  proof (intro impI allI)
    fix x assume a: "ar = ieee \<and> T = double_type" and d: "d12 s = Fin x"
    from assms(1,2) a have "Evaluate_setup ieee vol p w = Inr su"
      "traverse ieee vol (m_Threshold w) (loop_consts su) (loop_start su) = Some s"
      by simp_all
    from ieee_sum_in_double [OF this d] a d show "clamp_output T (d12 s) = Fin x"
      by simp
  qed
  show ?thesis
    using r i assms(3) by (cases "d12 s") (auto simp: clamp_output_def)
qed

lemma bright_roundings:
  "round_to 24 (1 / 2) = 1 / 2"
  "round_to 24 (- (1 / 2)) = - (1 / 2)"
  "round_to 24 (3 / 2) = 3 / 2"
  "round_to 24 2 = 2"
  "round_to 53 (1 / 2) = 1 / 2"
  "round_to 53 (1 / 4) = 1 / 4"
  "round_to 24 (1 / 4) = 1 / 4"
  "round_to 53 6 = 6"
  "round_to 53 (13 / 2) = 13 / 2"
  "round_to 53 (13 / 4) = 13 / 4"
  "round_to 24 (13 / 4) = 13 / 4"
  "round_to 24 (3 / 4) = 3 / 4"
  "round_to 24 (5 / 4) = 5 / 4"
  "round_to 24 (7 / 4) = 7 / 4"
  "round_to 24 (9 / 4) = 9 / 4"
  "round_to 24 1001 = 1001"
  "round_to 24 255211775190703847597530955573826158592 = 255211775190703847597530955573826158592"
  "round_to 53 255211775190703847597530955573826158592 = 255211775190703847597530955573826158592"
  "round_to 53 127605887595351923798765477786913079296 = 127605887595351923798765477786913079296"
  "round_to 24 127605887595351923798765477786913079296 = 127605887595351923798765477786913079296"
  "round_to 53 382817662786055771396296433360739237888 = 382817662786055771396296433360739237888"
  "round_to 24 382817662786055771396296433360739237888 = 382817662786055771396296433360739237888"
  by (simp_all add: rnd)

lemma spacing_bright: "ctPixelSpacing vol_bright = (1, 1, 1)"
  by (simp add: vol_bright_def)

lemma range_bright:
  "alpha_range ieee vol_bright (1 / 2, - (1 / 2), 1 / 2) (1 / 2, 3 / 2, 1 / 2) = Inr (1 / 4, 2)"
  by (simp add: alpha_range_def axis_range_def vol_bright_def bright_roundings Let_def)

lemma setup_bright:
  "ray_setup_of ieee vol_bright (1 / 2, - (1 / 2), 1 / 2) (1 / 2, 3 / 2, 1 / 2) =
     Inr \<lparr>alphaMin = 1 / 4, loop_consts = consts_bright,
          loop_start = bright_state 2 (1 / 4) (1 / 4) 0 0 (Fin 0)\<rparr>"
  by (subst ray_setup_ok [OF _ _ _ spacing_bright range_bright])
     (simp_all add: start_alpha_def plane_alpha_def cont_index_def increment_def
        axis_direction_def index_ok_def bright_roundings consts_bright_def bright_state_def)

lemma Evaluate_setup_bright:
  "Evaluate_setup ieee vol_bright (0, 0, - 2) (world_init_at ieee (- (1 / 2), - (1999 / 2), - (1 / 2))) =
     Inr \<lparr>alphaMin = 1 / 4, loop_consts = consts_bright,
          loop_start = bright_state 2 (1 / 4) (1 / 4) 0 0 (Fin 0)\<rparr>"
  by (simp add: Evaluate_setup_world_init_at bright_roundings setup_bright)

lemmas bright_defs = step_def advance_def accumulate_def contribution_def in_volume_def
  to_float_def to_double_def stored_def fsub_def FLT_MAX_def DBL_MAX_def consts_bright_def
  bright_state_def vol_bright_def q125_def bright_roundings

lemma step_bright:
  "step ieee vol_bright 0 consts_bright (bright_state 2 (1 / 4) (1 / 4) 0 0 (Fin 0))
     = bright_state 2 (3 / 4) (1 / 4) 0 1 (Fin 0)"
  "step ieee vol_bright 0 consts_bright (bright_state 2 (3 / 4) (1 / 4) 0 1 (Fin 0))
     = bright_state 2 (5 / 4) (3 / 4) 0 2 (Fin q125)"
  "step ieee vol_bright 0 consts_bright (bright_state 2 (5 / 4) (3 / 4) 0 2 (Fin q125))
     = bright_state 2 (7 / 4) (5 / 4) 0 3 (Fin (2 * q125))"
  "step ieee vol_bright 0 consts_bright (bright_state 2 (7 / 4) (5 / 4) 0 3 (Fin (2 * q125)))
     = bright_state 2 (9 / 4) (7 / 4) 0 4 PInf"
  "step ieee vol_bright 0 consts_bright (bright_state 2 (9 / 4) (7 / 4) 0 4 PInf)
     = bright_state 1001 (9 / 4) 2 (- 1) 4 PInf"
  by (simp_all add: bright_defs)

lemma bright_fields [simp]:
  "alphaCmin (bright_state aX aY aC i j d) = aC" "d12 (bright_state aX aY aC i j d) = d"
  "alphaMax consts_bright = 2"
  by (simp_all add: bright_state_def consts_bright_def)

lemma iterate_bright:
  "iterate 1 ieee vol_bright 0 consts_bright (bright_state 2 (1 / 4) (1 / 4) 0 0 (Fin 0))
     = bright_state 2 (3 / 4) (1 / 4) 0 1 (Fin 0)"
  "iterate 2 ieee vol_bright 0 consts_bright (bright_state 2 (1 / 4) (1 / 4) 0 0 (Fin 0))
     = bright_state 2 (5 / 4) (3 / 4) 0 2 (Fin q125)"
  "iterate 3 ieee vol_bright 0 consts_bright (bright_state 2 (1 / 4) (1 / 4) 0 0 (Fin 0))
     = bright_state 2 (7 / 4) (5 / 4) 0 3 (Fin (2 * q125))"
  "iterate 4 ieee vol_bright 0 consts_bright (bright_state 2 (1 / 4) (1 / 4) 0 0 (Fin 0))
     = bright_state 2 (9 / 4) (7 / 4) 0 4 PInf"
  "iterate 5 ieee vol_bright 0 consts_bright (bright_state 2 (1 / 4) (1 / 4) 0 0 (Fin 0))
     = bright_state 1001 (9 / 4) 2 (- 1) 4 PInf"
  by (simp_all add: eval_nat_numeral step_bright)

lemma bright_guards:
  "k < 5 \<Longrightarrow>
     alphaCmin (iterate k ieee vol_bright 0 consts_bright (bright_state 2 (1 / 4) (1 / 4) 0 0 (Fin 0)))
     < alphaMax consts_bright"
proof -
  assume "k < 5"
  then consider "k = 0" | "k = 1" | "k = 2" | "k = 3" | "k = 4"
    by linarith
  then show ?thesis
    by cases (simp_all add: eval_nat_numeral step_bright)
qed

lemma traverse_bright:
  "traverse ieee vol_bright 0 consts_bright (bright_state 2 (1 / 4) (1 / 4) 0 0 (Fin 0))
     = Some (bright_state 1001 (9 / 4) 2 (- 1) 4 PInf)"
proof -
  have "traverse ieee vol_bright 0 consts_bright (bright_state 2 (1 / 4) (1 / 4) 0 0 (Fin 0))
      = traverse ieee vol_bright 0 consts_bright
          (iterate 5 ieee vol_bright 0 consts_bright (bright_state 2 (1 / 4) (1 / 4) 0 0 (Fin 0)))"
    by (rule traverse_iterate) (rule bright_guards)
  also have "\<dots> = Some (bright_state 1001 (9 / 4) 2 (- 1) 4 PInf)"
    unfolding iterate_bright by (rule traverse_done) simp
  finally show ?thesis .
qed

lemma world_init_at_Threshold [simp]: "m_Threshold (world_init_at ar t) = 0"
  by simp

theorem Evaluate_clamps_witness:
  "Evaluate_setup ieee vol_bright (0, 0, - 2) (world_init_at ieee (- (1 / 2), - (1999 / 2), - (1 / 2))) =
     Inr \<lparr>alphaMin = 1 / 4, loop_consts = consts_bright,
          loop_start = bright_state 2 (1 / 4) (1 / 4) 0 0 (Fin 0)\<rparr> \<and>
   traverse ieee vol_bright (m_Threshold (world_init_at ieee (- (1 / 2), - (1999 / 2), - (1 / 2))))
       consts_bright (bright_state 2 (1 / 4) (1 / 4) 0 0 (Fin 0)) =
     Some (bright_state 1001 (9 / 4) 2 (- 1) 4 PInf) \<and>
   minOutputValue double_type \<le> maxOutputValue double_type \<and>
   d12 (bright_state 1001 (9 / 4) 2 (- 1) 4 PInf) = PInf \<and>
   fst (Evaluate ieee double_type vol_bright (0, 0, - 2)
          (world_init_at ieee (- (1 / 2), - (1999 / 2), - (1 / 2)))) = Returns (Fin DBL_MAX)"
proof -
  let ?w = "world_init_at ieee (- (1 / 2), - (1999 / 2), - (1 / 2))"
  let ?su = "\<lparr>alphaMin = 1 / 4, loop_consts = consts_bright,
          loop_start = bright_state 2 (1 / 4) (1 / 4) 0 0 (Fin 0)\<rparr>"
  have h1: "Evaluate_setup ieee vol_bright (0, 0, - 2) ?w = Inr ?su"
    by (rule Evaluate_setup_bright)
  have h2: "traverse ieee vol_bright (m_Threshold ?w) (loop_consts ?su) (loop_start ?su) =
     Some (bright_state 1001 (9 / 4) 2 (- 1) 4 PInf)"
    using traverse_bright by simp
  have h3: "minOutputValue double_type \<le> maxOutputValue double_type"
    using one_le_DBL_MAX by (simp add: double_type_def)
  from Evaluate_clamps [OF h1 h2 h3]
  have "fst (Evaluate ieee double_type vol_bright (0, 0, - 2) ?w) = Returns (Fin DBL_MAX)"
    by (auto simp: double_type_def)
  with h1 h2 h3 show ?thesis
    by simp
qed

lemma ray_setup_no_ray_fault: "ray_setup_of ar vol S P \<noteq> Inl (DivByZero (RayComponent k))"
  using ray_setup_fault [of ar vol S P "DivByZero (RayComponent k)"] by auto

lemma Evaluate_no_ray_fault: "fst (Evaluate ar T vol p w) \<noteq> Faults (DivByZero (RayComponent k))"
proof (cases "m_Transform w")
  case None
  then show ?thesis by (simp add: Evaluate_def)
next
  case (Some a)
  then show ?thesis
    using ray_setup_no_ray_fault [of ar vol "SourceWorld_of ar (refresh a w)"
        "float_point ar (TransformPoint (m_InverseTransform (refresh a w)) p)" k]
    by (auto simp: Evaluate_by_setup Evaluate_setup_def split: sum.splits option.splits)
qed

lemma zero_spacing_faults:
  "ray_setup_of ar \<lparr>sizeCT = n, ctPixelSpacing = (0, sp1, sp2), GetPixel = g\<rparr> S P
     = Inl (DivByZero (Spacing 0))"
proof -
  obtain s0 s1 s2 p0 p1 p2 where SP: "S = (s0, s1, s2)" "P = (p0, p1, p2)"
    by (cases S; cases P) auto
  obtain a b where "alpha_range ar \<lparr>sizeCT = n, ctPixelSpacing = (0, sp1, sp2), GetPixel = g\<rparr>
      (s0, s1, s2) (p0, p1, p2) = Inr (a, b)"
    using alpha_range_never_faults by blast
  then show ?thesis
    by (simp add: ray_setup_of_def SP first_index_eq Let_def)
qed

text \<open>
  C9. Every division by a component of the ray vector is guarded. With a zero component
  the slab bounds of that axis are the sentinels \<open>-2\<close> and \<open>2\<close>, its running value is the
  sentinel \<open>2\<close> and its increment the sentinel \<open>999\<close>, and none of the three computations
  faults for any component. No call of \<^verbatim>\<open>Evaluate\<close> divides by a zero ray component.
\<close>

theorem ray_divisions_guarded:
  "axis_range ar k s 0 n sp = Inr (- 2, 2) \<and>
   axis_alpha ar k s 0 up down sp = Inr 2 \<and>
   axis_increment ar k 0 sp = Inr 999 \<and>
   axis_range ar k s r n sp \<noteq> Inl e \<and>
   axis_alpha ar k s r up down sp \<noteq> Inl e \<and>
   axis_increment ar k r sp \<noteq> Inl e \<and>
   ray_setup_of ar vol S P \<noteq> Inl (DivByZero (RayComponent j)) \<and>
   fst (Evaluate ar T vol p w) \<noteq> Faults (DivByZero (RayComponent j))"
  using ray_setup_no_ray_fault [of ar vol S P j] Evaluate_no_ray_fault [of ar T vol p w j]
  by (simp add: axis_range_eq axis_alpha_eq axis_increment_eq increment_def)

section \<open>Rays that miss the volume\<close>








lemma edge_fields [simp]:
  "alphaCmin (edge_state aX aY aC i j d) = aC" "d12 (edge_state aX aY aC i j d) = Fin d"
  "cIndex (edge_state aX aY aC i j d) = (i, j, 0)"
  "alphaMax consts_edge = 13003685 / 16777216"
  by (simp_all add: edge_state_def consts_edge_def)





lemma Evaluate_setup_threshold:
  "Evaluate_setup ar vol p w = Inr su \<Longrightarrow>
     fst (Evaluate ar T vol p w) =
       (case traverse ar vol (m_Threshold w) (loop_consts su) (loop_start su) of
          None \<Rightarrow> Diverges
        | Some s \<Rightarrow> Returns (clamp_output T (d12 s)))"
  by (simp add: Evaluate_by_setup)








lemma iterate_Suc_end:
  "iterate (Suc n) ar vol thr c s = step ar vol thr c (iterate n ar vol thr c s)"
  by (induction n arbitrary: s) simp_all

lemma executed_0: "executed 0 ar vol thr c s \<longleftrightarrow> alphaCmin s < alphaMax c"
  by (simp add: executed_def)

lemma executed_Suc:
  "executed (Suc n) ar vol thr c s \<longleftrightarrow>
     alphaCmin s < alphaMax c \<and> executed n ar vol thr c (step ar vol thr c s)"
proof
  assume e: "executed (Suc n) ar vol thr c s"
  have "alphaCmin (iterate 0 ar vol thr c s) < alphaMax c"
    using e unfolding executed_def by blast
  moreover have "alphaCmin (iterate k ar vol thr c (step ar vol thr c s)) < alphaMax c"
    if "k \<le> n" for k
  proof -
    from that have "Suc k \<le> Suc n" by simp
    with e have "alphaCmin (iterate (Suc k) ar vol thr c s) < alphaMax c"
      unfolding executed_def by blast
    then show ?thesis by simp
  qed
  ultimately show "alphaCmin s < alphaMax c \<and> executed n ar vol thr c (step ar vol thr c s)"
    by (simp add: executed_def)
next
  assume a: "alphaCmin s < alphaMax c \<and> executed n ar vol thr c (step ar vol thr c s)"
  show "executed (Suc n) ar vol thr c s"
    unfolding executed_def
  proof (intro allI impI)
    fix k assume "k \<le> Suc n"
    show "alphaCmin (iterate k ar vol thr c s) < alphaMax c"
    proof (cases k)
      case 0
      with a show ?thesis by simp
    next
      case (Suc j)
      with \<open>k \<le> Suc n\<close> have "j \<le> n" by simp
      with a have "alphaCmin (iterate j ar vol thr c (step ar vol thr c s)) < alphaMax c"
        unfolding executed_def by blast
      with Suc show ?thesis by simp
    qed
  qed
qed

lemma smallest_axis_min3:
  "(case smallest_axis s of AxisX \<Rightarrow> alphaX s | AxisY \<Rightarrow> alphaY s | AxisZ \<Rightarrow> alphaZ s) = min3 s"
  by (auto simp: smallest_axis_def min3_def min_def)

lemma need_step:
  assumes d: "0 < \<delta>" and m: "min3 s < alphaMax c" and p: "progress ar c \<delta> s"
  shows "need \<delta> (alphaMax c) (alphaX (step ar vol thr c s))
       + need \<delta> (alphaMax c) (alphaY (step ar vol thr c s))
       + need \<delta> (alphaMax c) (alphaZ (step ar vol thr c s))
     < need \<delta> (alphaMax c) (alphaX s) + need \<delta> (alphaMax c) (alphaY s)
       + need \<delta> (alphaMax c) (alphaZ s)"
proof -
  obtain i j k where ci: "cIndex s = (i, j, k)" by (cases "cIndex s") auto
  note st = step_smallest [where s = s and ar = ar and vol = vol and thr = thr and c = c]
  show ?thesis
  proof (cases "smallest_axis s")
    case AxisX
    with smallest_axis_min3 [of s] m have "alphaX s < alphaMax c" by simp
    moreover from p AxisX have "alphaX s + \<delta> \<le> rs ar (alphaX s + alphaUx c)"
      by (simp add: progress_def)
    ultimately have "need \<delta> (alphaMax c) (rs ar (alphaX s + alphaUx c))
        < need \<delta> (alphaMax c) (alphaX s)"
      by (rule need_less [OF d])
    then show ?thesis using st AxisX ci by simp
  next
    case AxisY
    with smallest_axis_min3 [of s] m have "alphaY s < alphaMax c" by simp
    moreover from p AxisY have "alphaY s + \<delta> \<le> rs ar (alphaY s + alphaUy c)"
      by (simp add: progress_def)
    ultimately have "need \<delta> (alphaMax c) (rs ar (alphaY s + alphaUy c))
        < need \<delta> (alphaMax c) (alphaY s)"
      by (rule need_less [OF d])
    then show ?thesis using st AxisY ci by simp
  next
    case AxisZ
    with smallest_axis_min3 [of s] m have "alphaZ s < alphaMax c" by simp
    moreover from p AxisZ have "alphaZ s + \<delta> \<le> rs ar (alphaZ s + alphaUz c)"
      by (simp add: progress_def)
    ultimately have "need \<delta> (alphaMax c) (rs ar (alphaZ s + alphaUz c))
        < need \<delta> (alphaMax c) (alphaZ s)"
      by (rule need_less [OF d])
    then show ?thesis using st AxisZ ci by simp
  qed
qed

lemma loop_terminates:
  assumes d: "0 < \<delta>"
  shows "(\<forall>n. executed n ar vol thr c s \<and> min3 (iterate n ar vol thr c s) < alphaMax c \<longrightarrow>
            progress ar c \<delta> (iterate n ar vol thr c s)) \<Longrightarrow>
         \<exists>n. traverse ar vol thr c s = Some (iterate n ar vol thr c s)"
proof (induction "need \<delta> (alphaMax c) (alphaX s) + need \<delta> (alphaMax c) (alphaY s)
                  + need \<delta> (alphaMax c) (alphaZ s)" arbitrary: s rule: less_induct)
  case less
  let ?s' = "step ar vol thr c s"
  show ?case
  proof (cases "alphaCmin s < alphaMax c")
    case False
    then have "traverse ar vol thr c s = Some (iterate 0 ar vol thr c s)"
      by (subst traverse.simps) simp
    then show ?thesis by blast
  next
    case True
    then have unfold: "traverse ar vol thr c s = traverse ar vol thr c ?s'"
      by (subst traverse.simps) simp
    show ?thesis
    proof (cases "min3 s < alphaMax c")
      case False
      then have "\<not> alphaCmin ?s' < alphaMax c"
        by (simp add: alphaCmin_step)
      then have "traverse ar vol thr c ?s' = Some ?s'"
        by (subst traverse.simps) simp
      with unfold have "traverse ar vol thr c s = Some (iterate 1 ar vol thr c s)" by simp
      then show ?thesis by blast
    next
      case m: True
      have p: "progress ar c \<delta> s"
        using less.prems [rule_format, of 0] True m by (simp add: executed_0)
      have H: "\<forall>n. executed n ar vol thr c ?s' \<and> min3 (iterate n ar vol thr c ?s') < alphaMax c \<longrightarrow>
            progress ar c \<delta> (iterate n ar vol thr c ?s')"
      proof (intro allI impI)
        fix n assume a: "executed n ar vol thr c ?s' \<and> min3 (iterate n ar vol thr c ?s') < alphaMax c"
        then have "executed (Suc n) ar vol thr c s" using True by (simp add: executed_Suc)
        with a less.prems [rule_format, of "Suc n"]
        show "progress ar c \<delta> (iterate n ar vol thr c ?s')" by simp
      qed
      from less.hyps [OF need_step [OF d m p] H]
      obtain n where "traverse ar vol thr c ?s' = Some (iterate n ar vol thr c ?s')" by blast
      with unfold have "traverse ar vol thr c s = Some (iterate (Suc n) ar vol thr c s)" by simp
      then show ?thesis by blast
    qed
  qed
qed

lemma traverse_Some_iterate:
  assumes t: "traverse ar vol thr c s = Some s'"
  shows "\<exists>n. s' = iterate n ar vol thr c s \<and> \<not> alphaCmin (iterate n ar vol thr c s) < alphaMax c"
proof (rule traverse.raw_induct
    [where P = "\<lambda>ar vol thr c s s'. \<exists>n. s' = iterate n ar vol thr c s \<and>
        \<not> alphaCmin (iterate n ar vol thr c s) < alphaMax c", OF _ t])
  fix f a v th c' s1 s2
  assume IH: "\<And>a v th c s s'. f a v th c s = Some s' \<Longrightarrow>
      \<exists>n. s' = iterate n a v th c s \<and> \<not> alphaCmin (iterate n a v th c s) < alphaMax c"
    and eq: "(if alphaCmin s1 < alphaMax c' then f a v th c' (step a v th c' s1) else Some s1)
               = Some s2"
  show "\<exists>n. s2 = iterate n a v th c' s1 \<and> \<not> alphaCmin (iterate n a v th c' s1) < alphaMax c'"
  proof (cases "alphaCmin s1 < alphaMax c'")
    case True
    with eq have "f a v th c' (step a v th c' s1) = Some s2" by simp
    from IH [OF this] obtain n where "s2 = iterate n a v th c' (step a v th c' s1)"
      "\<not> alphaCmin (iterate n a v th c' (step a v th c' s1)) < alphaMax c'" by blast
    then have "s2 = iterate (Suc n) a v th c' s1 \<and>
        \<not> alphaCmin (iterate (Suc n) a v th c' s1) < alphaMax c'" by simp
    then show ?thesis by blast
  next
    case False
    with eq have "s2 = iterate 0 a v th c' s1 \<and> \<not> alphaCmin (iterate 0 a v th c' s1) < alphaMax c'"
      by simp
    then show ?thesis by blast
  qed
qed

lemma guard_fails_terminates:
  "\<not> alphaCmin (iterate n ar vol thr c s) < alphaMax c \<Longrightarrow> \<exists>s'. traverse ar vol thr c s = Some s'"
proof (induction n arbitrary: s)
  case 0
  then show ?case by (subst traverse.simps) simp
next
  case (Suc n)
  show ?case
  proof (cases "alphaCmin s < alphaMax c")
    case True
    from Suc.IH [of "step ar vol thr c s"] Suc.prems
    obtain s' where "traverse ar vol thr c (step ar vol thr c s) = Some s'" by auto
    with True show ?thesis by (subst traverse.simps) simp
  next
    case False
    then show ?thesis by (subst traverse.simps) simp
  qed
qed

lemma traverse_returns_iff:
  "(\<exists>s'. traverse ar vol thr c s = Some s') \<longleftrightarrow>
     (\<exists>n. \<not> alphaCmin (iterate n ar vol thr c s) < alphaMax c)"
  using traverse_Some_iterate guard_fails_terminates by blast

lemma slab32_roundings:
  "round_to 24 (- 1000) = - 1000"
  "round_to 24 1000 = 1000"
  "round_to 24 2000 = 2000"
  "round_to 53 1000 = 1000"
  "round_to 53 (1 / 2) = 1 / 2"
  "round_to 24 (1 / 2) = 1 / 2"
  "round_to 53 4 = 4"
  "round_to 53 1004 = 1004"
  "round_to 53 (251 / 500) = 2260807012939989 / 4503599627370496"
  "round_to 24 (2260807012939989 / 4503599627370496) = 4211081 / 8388608"
  "round_to 53 (1 / 2000) = 1152921504606847 / 2305843009213693952"
  "round_to 24 (1152921504606847 / 2305843009213693952) = 8589935 / 17179869184"
  "round_to 24 (8598524527 / 17179869184) = 8396997 / 16777216"
  "round_to 24 100 = 100"
  "round_to 53 100 = 100"
  "round_to 24 (8607114863 / 17179869184) = 4202693 / 8388608"
  "round_to 24 (8389 / 16777216) = 8389 / 16777216"
  "round_to 53 (209725 / 4194304) = 209725 / 4194304"
  "round_to 24 (209725 / 4194304) = 209725 / 4194304"
  "round_to 24 (8615705199 / 17179869184) = 8413775 / 16777216"
  "round_to 53 (209725 / 2097152) = 209725 / 2097152"
  "round_to 24 (209725 / 2097152) = 209725 / 2097152"
  "round_to 24 (8624295535 / 17179869184) = 2105541 / 4194304"
  "round_to 24 (8632885871 / 17179869184) = 8430553 / 16777216"
  by (simp_all add: rnd)

lemma range_slab32:
  "alpha_range ieee vol_slab (0, - 1000, 0) (0, 1000, 0) = Inr (1 / 2, 4211081 / 8388608)"
  by (simp add: alpha_range_def axis_range_def vol_slab_def slab32_roundings Let_def)

lemma setup_slab32:
  "ray_setup_of ieee vol_slab (0, - 1000, 0) (0, 1000, 0) =
     Inr \<lparr>alphaMin = 1 / 2, loop_consts = consts_slab32, loop_start = slab_state (1 / 2) (1 / 2) 0 0\<rparr>"
  by (subst ray_setup_ok [OF _ _ _ spacing_slab range_slab32])
     (simp_all add: start_alpha_def plane_alpha_def cont_index_def increment_def
        axis_direction_def index_ok_def slab32_roundings consts_slab32_def slab_state_def)

lemma Evaluate_setup_slab32:
  "Evaluate_setup ieee vol_slab (0, 0, - 2000) world_init =
     Inr \<lparr>alphaMin = 1 / 2, loop_consts = consts_slab32, loop_start = slab_state (1 / 2) (1 / 2) 0 0\<rparr>"
  by (simp add: Evaluate_setup_world_init slab32_roundings setup_slab32)

lemmas slab32_defs = step_def advance_def accumulate_def contribution_def in_volume_def
  to_float_def to_double_def stored_def fsub_def FLT_MAX_def DBL_MAX_def consts_slab32_def
  slab_state_def vol_slab_def slab32_roundings

lemma step_slab32:
  "step ieee vol_slab 0 consts_slab32 (slab_state (1 / 2) (1 / 2) 0 0)
     = slab_state (8396997 / 16777216) (1 / 2) 1 0"
  "step ieee vol_slab 0 consts_slab32 (slab_state (8396997 / 16777216) (1 / 2) 1 0)
     = slab_state (4202693 / 8388608) (8396997 / 16777216) 2 (209725 / 4194304)"
  "step ieee vol_slab 0 consts_slab32
       (slab_state (4202693 / 8388608) (8396997 / 16777216) 2 (209725 / 4194304))
     = slab_state (8413775 / 16777216) (4202693 / 8388608) 3 (209725 / 2097152)"
  "step ieee vol_slab 0 consts_slab32
       (slab_state (8413775 / 16777216) (4202693 / 8388608) 3 (209725 / 2097152))
     = slab_state (2105541 / 4194304) (8413775 / 16777216) 4 (209725 / 2097152)"
  "step ieee vol_slab 0 consts_slab32
       (slab_state (2105541 / 4194304) (8413775 / 16777216) 4 (209725 / 2097152))
     = slab_state (8430553 / 16777216) (2105541 / 4194304) 5 (209725 / 2097152)"
  by (simp_all add: slab32_defs)

lemma iterate_slab32:
  "iterate 0 ieee vol_slab 0 consts_slab32 (slab_state (1 / 2) (1 / 2) 0 0)
     = slab_state (1 / 2) (1 / 2) 0 0"
  "iterate 1 ieee vol_slab 0 consts_slab32 (slab_state (1 / 2) (1 / 2) 0 0)
     = slab_state (8396997 / 16777216) (1 / 2) 1 0"
  "iterate 2 ieee vol_slab 0 consts_slab32 (slab_state (1 / 2) (1 / 2) 0 0)
     = slab_state (4202693 / 8388608) (8396997 / 16777216) 2 (209725 / 4194304)"
  "iterate 3 ieee vol_slab 0 consts_slab32 (slab_state (1 / 2) (1 / 2) 0 0)
     = slab_state (8413775 / 16777216) (4202693 / 8388608) 3 (209725 / 2097152)"
  "iterate 4 ieee vol_slab 0 consts_slab32 (slab_state (1 / 2) (1 / 2) 0 0)
     = slab_state (2105541 / 4194304) (8413775 / 16777216) 4 (209725 / 2097152)"
  "iterate 5 ieee vol_slab 0 consts_slab32 (slab_state (1 / 2) (1 / 2) 0 0)
     = slab_state (8430553 / 16777216) (2105541 / 4194304) 5 (209725 / 2097152)"
  by (simp_all add: eval_nat_numeral step_slab32)

lemma Evaluate_exact_returns:
  assumes "m_Transform w \<noteq> None" "ctPixelSpacing vol = (sp0, sp1, sp2)"
    "0 < sp0" "0 < sp1" "0 < sp2"
  shows "\<exists>v. fst (Evaluate exact T vol p w) = Returns v"
proof -
  obtain a where a: "m_Transform w = Some a"
    using assms(1) by auto
  obtain su s where "ray_setup_of exact vol (SourceWorld_of exact (refresh a w))
       (float_point exact (TransformPoint (m_InverseTransform (refresh a w)) p)) = Inr su"
    and "traverse exact vol (m_Threshold (refresh a w)) (loop_consts su) (loop_start su) = Some s"
    using exact_terminates [OF assms(2-5)] by blast
  then show ?thesis
    by (simp add: Evaluate_outcome [OF a] cast_ray_def path_sum_def)
qed

lemma progress_exact:
  assumes "0 < alphaUx c" "0 < alphaUy c" "0 < alphaUz c"
  shows "progress exact c (min (min (alphaUx c) (alphaUy c)) (alphaUz c)) s"
  by (cases "smallest_axis s") (simp_all add: progress_def)

text \<open>
  C10, the claim as stated, fails under binary32 rounding. With the pose translated by
  \<open>(134217728, -2001/2, -1/2)\<close> the source is at \<open>(-134217728, 1/2, 1/2)\<close> in world
  coordinates, and the point \<open>(268435456, 0, 0)\<close> lies at \<open>(134217728, 1/2, 1/2)\<close>; all
  these coordinates are binary32 values. The volume has 16 x 1 x 1 voxels of spacing 1.
  The running value of the x axis starts at \<open>1/2\<close>, below
  \<open>alphaMax = 1/2 + 1/16777216\<close>, and its increment \<open>1/268435456\<close> is absorbed by the
  rounding of the sum, so the loop never ends.
\<close>

theorem evaluate_diverges_counterexample:
  "float_point ieee (268435456, 0, 0) = (268435456, 0, 0) \<and>
   float_point ieee (134217728, - (2001 / 2), - (1 / 2)) = (134217728, - (2001 / 2), - (1 / 2)) \<and>
   fst (Evaluate ieee double_type vol_stall (268435456, 0, 0)
          (world_init_at ieee (134217728, - (2001 / 2), - (1 / 2)))) = Diverges \<and>
   cast_ray ieee double_type vol_stall 0
     (- 134217728, 1 / 2, 1 / 2) (134217728, 1 / 2, 1 / 2) = Diverges \<and>
   rs ieee (1 / 2 + 1 / 268435456) = 1 / 2"
proof -
  have fp: "float_point ieee (268435456, 0, 0) = (268435456, 0, 0)"
    "float_point ieee (134217728, - (2001 / 2), - (1 / 2)) = (134217728, - (2001 / 2), - (1 / 2))"
    by (simp_all add: rnd)
  have r: "round_to 24 (- 134217728) = - 134217728"
    by (simp add: rnd)
  have "fst (Evaluate ieee double_type vol_stall (268435456, 0, 0)
          (world_init_at ieee (134217728, - (2001 / 2), - (1 / 2)))) = Diverges"
    by (simp add: Evaluate_world_init_at stall_roundings r cast_ray_stall)
  with fp show ?thesis
    by (simp add: cast_ray_stall stall_roundings)
qed

text \<open>
  C10, amended. The traversal loop ends exactly when its guard fails after finitely many
  iterations. It does so whenever there is a \<open>\<delta> > 0\<close> such that every iteration that the
  loop executes while a running value is below \<open>alphaMax\<close> raises the running value it
  advances by \<open>\<delta>\<close> at least: then \<^verbatim>\<open>Evaluate\<close> returns after finitely many iterations, in
  every arithmetic. In exact arithmetic strictly positive increments give such a \<open>\<delta>\<close>,
  and for a volume with strictly positive spacing \<^verbatim>\<open>Evaluate\<close> returns for every point
  and every configuration with a transform connected. (In binary32 an increment can be
  absorbed by the rounding of the sum; then no such \<open>\<delta>\<close> exists and the loop never ends.)
\<close>

theorem traversal_terminates:
  "(0 < \<delta> \<and>
    (\<forall>n. executed n ar vol thr c s \<and> min3 (iterate n ar vol thr c s) < alphaMax c \<longrightarrow>
         progress ar c \<delta> (iterate n ar vol thr c s)) \<longrightarrow>
      (\<exists>n. traverse ar vol thr c s = Some (iterate n ar vol thr c s))) \<and>
   ((\<exists>s'. traverse ar vol thr c s = Some s') \<longleftrightarrow>
      (\<exists>n. \<not> alphaCmin (iterate n ar vol thr c s) < alphaMax c)) \<and>
   (Evaluate_setup ar vol p w = Inr su \<and>
    traverse ar vol (m_Threshold w) (loop_consts su) (loop_start su) = Some s' \<longrightarrow>
      (\<exists>v. fst (Evaluate ar T vol p w) = Returns v)) \<and>
   (0 < alphaUx c \<and> 0 < alphaUy c \<and> 0 < alphaUz c \<longrightarrow>
      progress exact c (min (min (alphaUx c) (alphaUy c)) (alphaUz c)) s) \<and>
   (m_Transform w \<noteq> None \<and> ctPixelSpacing vol = (sp0, sp1, sp2) \<and>
      0 < sp0 \<and> 0 < sp1 \<and> 0 < sp2 \<longrightarrow>
      (\<exists>v. fst (Evaluate exact T vol p w) = Returns v))"
proof (intro conjI impI)
  assume h: "0 < \<delta> \<and>
    (\<forall>n. executed n ar vol thr c s \<and> min3 (iterate n ar vol thr c s) < alphaMax c \<longrightarrow>
         progress ar c \<delta> (iterate n ar vol thr c s))"
  then show "\<exists>n. traverse ar vol thr c s = Some (iterate n ar vol thr c s)"
    using loop_terminates [of \<delta> ar vol thr c s] by blast
next
  show "(\<exists>s'. traverse ar vol thr c s = Some s') \<longleftrightarrow>
      (\<exists>n. \<not> alphaCmin (iterate n ar vol thr c s) < alphaMax c)"
    by (rule traverse_returns_iff)
next
  assume "Evaluate_setup ar vol p w = Inr su \<and>
    traverse ar vol (m_Threshold w) (loop_consts su) (loop_start su) = Some s'"
  then show "\<exists>v. fst (Evaluate ar T vol p w) = Returns v"
    by (simp add: Evaluate_by_setup)
next
  assume "0 < alphaUx c \<and> 0 < alphaUy c \<and> 0 < alphaUz c"
  then show "progress exact c (min (min (alphaUx c) (alphaUy c)) (alphaUz c)) s"
    using progress_exact by blast
next
  assume "m_Transform w \<noteq> None \<and> ctPixelSpacing vol = (sp0, sp1, sp2) \<and>
      0 < sp0 \<and> 0 < sp1 \<and> 0 < sp2"
  then show "\<exists>v. fst (Evaluate exact T vol p w) = Returns v"
    using Evaluate_exact_returns [of w vol sp0 sp1 sp2 T p] by blast
qed

theorem traversal_terminates_witness:
  "(0::real) < 8389 / 16777216 \<and>
   progress ieee consts_slab32 (8389 / 16777216) (iterate 0 ieee vol_slab 0 consts_slab32 (slab_state (1 / 2) (1 / 2) 0 0)) \<and>
   progress ieee consts_slab32 (8389 / 16777216) (iterate 1 ieee vol_slab 0 consts_slab32 (slab_state (1 / 2) (1 / 2) 0 0)) \<and>
   progress ieee consts_slab32 (8389 / 16777216) (iterate 2 ieee vol_slab 0 consts_slab32 (slab_state (1 / 2) (1 / 2) 0 0)) \<and>
   progress ieee consts_slab32 (8389 / 16777216) (iterate 3 ieee vol_slab 0 consts_slab32 (slab_state (1 / 2) (1 / 2) 0 0)) \<and>
   executed 4 ieee vol_slab 0 consts_slab32 (slab_state (1 / 2) (1 / 2) 0 0) \<and>
   \<not> min3 (iterate 4 ieee vol_slab 0 consts_slab32 (slab_state (1 / 2) (1 / 2) 0 0)) < alphaMax consts_slab32 \<and>
   \<not> executed 5 ieee vol_slab 0 consts_slab32 (slab_state (1 / 2) (1 / 2) 0 0) \<and>
   (\<exists>n. traverse ieee vol_slab 0 consts_slab32 (slab_state (1 / 2) (1 / 2) 0 0) =
      Some (iterate n ieee vol_slab 0 consts_slab32 (slab_state (1 / 2) (1 / 2) 0 0))) \<and>
   traverse ieee vol_slab 0 consts_slab32 (slab_state (1 / 2) (1 / 2) 0 0) =
     Some (slab_state (8430553 / 16777216) (2105541 / 4194304) 5 (209725 / 2097152)) \<and>
   (\<exists>n. \<not> alphaCmin (iterate n ieee vol_slab 0 consts_slab32 (slab_state (1 / 2) (1 / 2) 0 0)) < alphaMax consts_slab32) \<and>
   Evaluate_setup ieee vol_slab (0, 0, - 2000) world_init =
     Inr \<lparr>alphaMin = 1 / 2, loop_consts = consts_slab32,
          loop_start = slab_state (1 / 2) (1 / 2) 0 0\<rparr> \<and>
   (\<exists>v. fst (Evaluate ieee double_type vol_slab (0, 0, - 2000) world_init) = Returns v) \<and>
   fst (Evaluate ieee double_type vol_slab (0, 0, - 2000) world_init) =
     Returns (Fin (209725 / 2097152)) \<and>
   progress exact consts_slab32
     (min (min (alphaUx consts_slab32) (alphaUy consts_slab32)) (alphaUz consts_slab32))
     (slab_state (1 / 2) (1 / 2) 0 0) \<and>
   m_Transform world_init \<noteq> None \<and> ctPixelSpacing vol_slab = (1, 1, 1) \<and>
   (\<exists>v. fst (Evaluate exact double_type vol_slab (0, 0, - 2000) world_init) = Returns v)"
proof -
  let ?s0 = "slab_state (1 / 2) (1 / 2) 0 0"
  let ?su = "\<lparr>alphaMin = 1 / 2, loop_consts = consts_slab32, loop_start = ?s0\<rparr>"
  let ?end = "slab_state (8430553 / 16777216) (2105541 / 4194304) 5 (209725 / 2097152)"
  let ?d = "8389 / 16777216 :: real"
  note t = traversal_terminates [where ar = ieee and vol = vol_slab and thr = 0
      and c = consts_slab32 and s = ?s0 and \<delta> = ?d and p = "(0, 0, - 2000)"
      and w = world_init and su = ?su and s' = ?end and T = double_type
      and ?sp0.0 = 1 and ?sp1.0 = 1 and ?sp2.0 = 1]
  have g: "alphaCmin (iterate k ieee vol_slab 0 consts_slab32 ?s0) < alphaMax consts_slab32"
    if "k < 5" for k
  proof -
    from that consider "k = 0" | "k = 1" | "k = 2" | "k = 3" | "k = 4"
      by linarith
    then show ?thesis
      by cases (simp_all add: eval_nat_numeral step_slab32,
          simp_all add: slab_state_def consts_slab32_def)
  qed
  have g5: "\<not> alphaCmin (iterate 5 ieee vol_slab 0 consts_slab32 ?s0) < alphaMax consts_slab32"
    by (simp add: iterate_slab32) (simp add: slab_state_def consts_slab32_def)
  have e4: "executed 4 ieee vol_slab 0 consts_slab32 ?s0"
    unfolding executed_def using g by simp
  have e5: "\<not> executed 5 ieee vol_slab 0 consts_slab32 ?s0"
    unfolding executed_def using g5 by blast
  have ex: "n < 5" if "executed n ieee vol_slab 0 consts_slab32 ?s0" for n
  proof (rule ccontr)
    assume "\<not> n < 5"
    then have "5 \<le> n" by simp
    with that have "alphaCmin (iterate 5 ieee vol_slab 0 consts_slab32 ?s0) < alphaMax consts_slab32"
      unfolding executed_def by blast
    with g5 show False by simp
  qed
  have pr: "progress ieee consts_slab32 ?d (iterate 0 ieee vol_slab 0 consts_slab32 ?s0)"
    "progress ieee consts_slab32 ?d (iterate 1 ieee vol_slab 0 consts_slab32 ?s0)"
    "progress ieee consts_slab32 ?d (iterate 2 ieee vol_slab 0 consts_slab32 ?s0)"
    "progress ieee consts_slab32 ?d (iterate 3 ieee vol_slab 0 consts_slab32 ?s0)"
    unfolding iterate_slab32
    by (simp_all add: progress_def smallest_axis_def min3_def slab_state_def consts_slab32_def
          slab32_roundings)
  have m4: "\<not> min3 (iterate 4 ieee vol_slab 0 consts_slab32 ?s0) < alphaMax consts_slab32"
    unfolding iterate_slab32 by (simp add: min3_def slab_state_def consts_slab32_def)
  have H: "\<forall>n. executed n ieee vol_slab 0 consts_slab32 ?s0 \<and>
      min3 (iterate n ieee vol_slab 0 consts_slab32 ?s0) < alphaMax consts_slab32 \<longrightarrow>
      progress ieee consts_slab32 ?d (iterate n ieee vol_slab 0 consts_slab32 ?s0)"
  proof (intro allI impI)
    fix n
    assume a: "executed n ieee vol_slab 0 consts_slab32 ?s0 \<and>
      min3 (iterate n ieee vol_slab 0 consts_slab32 ?s0) < alphaMax consts_slab32"
    then have "n < 5" using ex by blast
    then consider "n = 0" | "n = 1" | "n = 2" | "n = 3" | "n = 4"
      by linarith
    then show "progress ieee consts_slab32 ?d (iterate n ieee vol_slab 0 consts_slab32 ?s0)"
    proof cases
      case 5
      with a m4 show ?thesis by simp
    qed (use pr in simp_all)
  qed
  have d: "(0::real) < ?d" by simp
  have 1: "\<exists>n. traverse ieee vol_slab 0 consts_slab32 ?s0 =
      Some (iterate n ieee vol_slab 0 consts_slab32 ?s0)"
    using t [THEN conjunct1] d H by blast
  then obtain n where n: "traverse ieee vol_slab 0 consts_slab32 ?s0 =
      Some (iterate n ieee vol_slab 0 consts_slab32 ?s0)" ..
  have 2: "\<exists>n. \<not> alphaCmin (iterate n ieee vol_slab 0 consts_slab32 ?s0) < alphaMax consts_slab32"
    using t [THEN conjunct2, THEN conjunct1] n by blast
  have "traverse ieee vol_slab 0 consts_slab32 ?s0
      = traverse ieee vol_slab 0 consts_slab32 (iterate 5 ieee vol_slab 0 consts_slab32 ?s0)"
    by (rule traverse_iterate) (rule g)
  also have "\<dots> = Some ?end"
    unfolding iterate_slab32 by (rule traverse_done) (simp add: slab_state_def consts_slab32_def)
  finally have tr: "traverse ieee vol_slab 0 consts_slab32 ?s0 = Some ?end" .
  have su: "Evaluate_setup ieee vol_slab (0, 0, - 2000) world_init = Inr ?su"
    by (rule Evaluate_setup_slab32)
  have 3: "\<exists>v. fst (Evaluate ieee double_type vol_slab (0, 0, - 2000) world_init) = Returns v"
    using t [THEN conjunct2, THEN conjunct2, THEN conjunct1] su tr by simp
  have le: "\<bar>209725 / 2097152 :: real\<bar> \<le> 1" by simp
  have 4: "fst (Evaluate ieee double_type vol_slab (0, 0, - 2000) world_init) =
      Returns (Fin (209725 / 2097152))"
    using su tr clamp_double_unit [OF le]
    by (simp add: Evaluate_by_setup) (simp add: slab_state_def)
  have u: "0 < alphaUx consts_slab32 \<and> 0 < alphaUy consts_slab32 \<and> 0 < alphaUz consts_slab32"
    by (simp add: consts_slab32_def)
  have 5: "progress exact consts_slab32
     (min (min (alphaUx consts_slab32) (alphaUy consts_slab32)) (alphaUz consts_slab32)) ?s0"
    using t [THEN conjunct2, THEN conjunct2, THEN conjunct2, THEN conjunct1] u by (rule mp)
  have h: "m_Transform world_init \<noteq> None" "ctPixelSpacing vol_slab = (1, 1, 1)"
    by (simp_all add: spacing_slab)
  have 6: "\<exists>v. fst (Evaluate exact double_type vol_slab (0, 0, - 2000) world_init) = Returns v"
    using t [THEN conjunct2, THEN conjunct2, THEN conjunct2, THEN conjunct2] h by simp
  from d pr e4 m4 e5 1 tr 2 su 3 4 5 h 6 show ?thesis
    by (intro conjI)
qed

section \<open>The composed transform and its inverse\<close>

lemma internals_New: "internals_ok (New c ps)"
  by (simp add: internals_ok_def New_def identity_zyx_def)

lemma internals_Modified: "internals_ok (Modified w) = internals_ok w"
  by (simp add: internals_ok_def Modified_def)

lemma internals_setters:
  "internals_ok w \<Longrightarrow> internals_ok (SetTransform b w)"
  "internals_ok w \<Longrightarrow> internals_ok (SetFocalPointToIsocenterDistance d w)"
  "internals_ok w \<Longrightarrow> internals_ok (SetProjectionAngle t w)"
  "internals_ok w \<Longrightarrow> internals_ok (SetThreshold h w)"
  by (simp_all add: internals_ok_def SetTransform_def SetFocalPointToIsocenterDistance_def
        SetProjectionAngle_def SetThreshold_def Modified_def)

lemma internals_Evaluate: "internals_ok w \<Longrightarrow> internals_ok (snd (Evaluate ar T vol p w))"
  by (cases "m_Transform w")
     (simp_all add: Evaluate_def Let_def refresh_def internals_rebuild)

lemma internals_Initialize: "internals_ok w \<Longrightarrow> Initialize ar w = Inr w' \<Longrightarrow> internals_ok w'"
  using internals_rebuild by (auto simp: Initialize_Inr internals_ok_def)

text \<open>
  C5. \<^verbatim>\<open>ComputeInverseTransform\<close> composes, starting from the identity and in this
  order, the caller's pose, the rotation by \<open>- ProjectionAngle\<close> about the z axis centred
  at the pose's centre (the isocentre), the translation by
  \<open>(- c0, FocalPointToIsocenterDistance - c1, - c2)\<close>, and the rotation by \<open>- pi / 2\<close> about
  the x axis; the stored inverse transform is the inverse of the composition, on both
  sides. With an identity pose, a projection angle 0 and the source point at the origin,
  the inverse transform places the source at \<open>(0, - D, 0)\<close> in world coordinates, at the
  distance \<open>D\<close> from the isocentre along the y axis, and the composed transform maps that
  world point back to the source point and the isocentre to \<open>(0, 0, - D)\<close>. (The
  interpolator's own three transforms are as its constructor and this function leave
  them: \<open>internals_ok\<close>. The transforms compute in exact arithmetic.)
\<close>

theorem ComputeInverseTransform_composition:
  assumes "internals_ok w" and "ComputeInverseTransform w = Inr w'"
  shows "\<exists>a. m_Transform w = Some a \<and>
     (\<forall>p. TransformPoint (m_ComposedTransform w') p =
        camera_rotation
          (source_shift (m_FocalPointToIsocenterDistance w) (Center (poses w a))
            (gantry_rotation (m_ProjectionAngle w) (Center (poses w a))
              (TransformPoint (affine_of (poses w a)) (TransformPoint SetIdentity p))))) \<and>
     (\<forall>p. TransformPoint (m_InverseTransform w') (TransformPoint (m_ComposedTransform w') p) = p) \<and>
     (\<forall>q. TransformPoint (m_ComposedTransform w') (TransformPoint (m_InverseTransform w') q) = q) \<and>
     (identity_pose (poses w a) \<and> m_ProjectionAngle w = 0 \<and> m_SourcePoint w = (0, 0, 0) \<longrightarrow>
        TransformPoint (m_InverseTransform w') (m_SourcePoint w)
          = (0, - m_FocalPointToIsocenterDistance w, 0) \<and>
        TransformPoint (m_ComposedTransform w') (0, - m_FocalPointToIsocenterDistance w, 0)
          = m_SourcePoint w \<and>
        TransformPoint (m_ComposedTransform w') (0, 0, 0)
          = (0, 0, - m_FocalPointToIsocenterDistance w))"
proof -
  obtain a where a: "m_Transform w = Some a" and w': "w' = rebuild a w"
    using assms(2) by (auto simp: ComputeInverseTransform_def split: option.splits)
  show ?thesis
    using a rebuild_composed [OF assms(1), of a] rebuild_inverse [of a w]
      source_at_identity [OF assms(1), of a]
    unfolding w' by simp
qed

theorem ComputeInverseTransform_composition_witness:
  "internals_ok world_connected \<and> ComputeInverseTransform world_connected = Inr (rebuild 0 world_connected) \<and>
   identity_pose (poses world_connected 0) \<and> m_ProjectionAngle world_connected = 0 \<and> m_SourcePoint world_connected = (0, 0, 0) \<and>
   TransformPoint (m_InverseTransform (rebuild 0 world_connected)) (0, 0, 0) = (0, - 1000, 0) \<and>
   TransformPoint (m_ComposedTransform (rebuild 0 world_connected)) (0, - 1000, 0) = (0, 0, 0) \<and>
   TransformPoint (m_ComposedTransform (rebuild 0 world_connected)) (0, 0, 0) = (0, 0, - 1000)"
proof -
  have h2: "ComputeInverseTransform world_connected = Inr (rebuild 0 world_connected)"
    by (simp add: ComputeInverseTransform_def)
  have h3: "identity_pose (poses world_connected 0) \<and> m_ProjectionAngle world_connected = 0 \<and>
      m_SourcePoint world_connected = (0, 0, 0)"
    by (simp add: identity_zyx_pose)
  from ComputeInverseTransform_composition [OF internals_world_connected h2] h3
  have "TransformPoint (m_InverseTransform (rebuild 0 world_connected)) (0, 0, 0) = (0, - 1000, 0) \<and>
   TransformPoint (m_ComposedTransform (rebuild 0 world_connected)) (0, - 1000, 0) = (0, 0, 0) \<and>
   TransformPoint (m_ComposedTransform (rebuild 0 world_connected)) (0, 0, 0) = (0, 0, - 1000)"
    by auto
  with internals_world_connected h2 h3 show ?thesis
    by simp
qed

section \<open>The cache and its time stamps\<close>




text \<open>
  Whatever a setter of the interpolator stores, it cannot make the cache stale as long as it
  leaves the connected transform alone and does not turn back the interpolator's modification
  time: the test of line 126 compares these two only.
\<close>

lemma fresh_preserved:
  assumes "\<not> stale a w" and "poses w' a = poses w a" and "MTime w \<le> MTime w'"
  shows "\<not> stale a w'"
  using assms by (simp add: stale_def)






text \<open>
  C8. \<^verbatim>\<open>Initialize\<close> called again right after \<^verbatim>\<open>Initialize\<close> succeeds, caches the same
  source point in world coordinates, and \<^verbatim>\<open>Evaluate\<close> gives at every point the same
  result after the second call as after the first.
\<close>

theorem Initialize_idempotent:
  assumes "Initialize ar w = Inr w1"
  shows "\<exists>w2. Initialize ar w1 = Inr w2 \<and> m_SourceWorld w2 = m_SourceWorld w1 \<and>
           fst (Evaluate ar T vol p w2) = fst (Evaluate ar T vol p w1)"
proof -
  obtain a where a: "m_Transform w = Some a"
    and w1: "w1 = (rebuild a w)\<lparr>m_SourceWorld := SourceWorld_of ar (rebuild a w)\<rparr>"
    using assms by (auto simp: Initialize_Inr)
  have t1: "m_Transform w1 = Some a"
    by (simp add: w1 a)
  have s1: "settled a w1"
    unfolding w1 by (rule settled_SourceWorld [OF rebuild_settled])
  have sw: "SourceWorld_of ar w1 = m_SourceWorld w1"
    by (simp add: w1 SourceWorld_of_def)
  define w2 where "w2 = (rebuild a w1)\<lparr>m_SourceWorld := SourceWorld_of ar (rebuild a w1)\<rparr>"
  have i2: "Initialize ar w1 = Inr w2"
    by (simp add: Initialize_Inr t1 w2_def)
  have gr: "geometry (rebuild a w1) = geometry w1"
    using s1 by (simp add: settled_def)
  have sr: "SourceWorld_of ar (rebuild a w1) = m_SourceWorld w1"
    using SourceWorld_geometry [OF gr] sw by simp
  have m2: "m_SourceWorld w2 = m_SourceWorld w1"
    by (simp add: w2_def sr)
  have "geometry w2 = (geometry (rebuild a w1))\<lparr>m_SourceWorld := m_SourceWorld w1\<rparr>"
    by (simp add: w2_def sr geometry_SourceWorld)
  also have "\<dots> = geometry w1"
    unfolding gr by (simp add: geometry_def)
  finally have g2: "geometry w2 = geometry w1" .
  have t2: "m_Transform w2 = Some a"
    using geometry_fields(5) [OF g2] t1 by simp
  have s2: "settled a w2"
    using settled_cong [OF g2 [symmetric] s1] .
  have gg: "geometry (refresh a w2) = geometry (refresh a w1)"
    by (simp add: geometry_refresh s1 s2 g2)
  have "fst (Evaluate ar T vol p w2) = fst (Evaluate ar T vol p w1)"
    using geometry_fields(1,2,4) [OF gg]
    by (simp add: Evaluate_outcome [OF t1] Evaluate_outcome [OF t2] SourceWorld_of_def)
  with i2 m2 show ?thesis
    by blast
qed

theorem Initialize_idempotent_witness:
  "Initialize exact world_connected = Inr world_init \<and>
   (\<exists>w2. Initialize exact world_init = Inr w2 \<and> m_SourceWorld w2 = (0, - 1000, 0) \<and>
      fst (Evaluate exact double_type vol_slab
             (0, 0, - 2000) w2) = Returns (Fin (1 / 10)))"
proof -
  have r: "fst (Evaluate exact double_type vol_slab
      (0, 0, - 2000) world_init) = Returns (Fin (1 / 10))"
    using Evaluate_setup_threshold [OF Evaluate_setup_slab] traverse_slab
    by (simp add: clamp_double_unit slab_state_def)
  from Initialize_idempotent [OF Initialize_world_connected, where T = double_type
      and vol = vol_slab and p = "(0, 0, - 2000)"]
    r world_init_SourceWorld(2) Initialize_world_connected
  show ?thesis
    by auto
qed

end
